theory Spec2Isabelle
  imports Complex_Main
begin

section \<open>Conventions\<close>

text \<open>
  The development embeds the numerical core of OptolithiumC.  A C++ \<^verbatim>\<open>double\<close> is read as
  a real number and \<^verbatim>\<open>arma::cx_double\<close> as a complex number: \<^verbatim>\<open>M_PI\<close> is \<open>pi\<close>,
  \<^verbatim>\<open>std::exp\<close>, \<^verbatim>\<open>std::sqrt\<close>, \<^verbatim>\<open>std::ceil\<close> and \<^verbatim>\<open>std::fmod\<close> are the exact functions.
  Rounding, infinities and NaN are outside this reading, with one exception: in the bake
  kernel a \<^verbatim>\<open>double\<close> is converted to the integer that fixes the length of a vector, and the
  operations that feed this conversion are rounded as IEEE 754 binary64 rounds them.  Where
  the source divides by a quantity that can be zero, or takes the root of a negative
  number, the model makes that case an explicit branch.  Exceptions are values of the type \<open>error\<close>, and a function
  that can throw returns \<open>error + 'a\<close> with the exception on the left.
\<close>

datatype error = InvalidArgument | OutOfRange | RuntimeError | Undefined | NonFinite

text \<open>
  \<open>Undefined\<close> stands for an operation that C++ leaves undefined, such as
  \<^verbatim>\<open>std::vector::operator[]\<close> beyond the end or the conversion of an out-of-range
  \<^verbatim>\<open>double\<close> to an integer type.  \<open>NonFinite\<close> stands for a \<^verbatim>\<open>double\<close> computation that
  leaves the real numbers: a division by zero or the root of a negative number, whose
  IEEE result is an infinity or NaN.  Neither is an exception the source throws.
\<close>


section \<open>Geometry (\<^verbatim>\<open>opl_geometry.h\<close>, \<^verbatim>\<open>opl_geometry.cpp\<close>)\<close>

subsection \<open>Enumerations\<close>

datatype rotation_type_t = CW | CCW

text \<open>The enumerators' integer values: \<^verbatim>\<open>CW = 1\<close>, \<^verbatim>\<open>CCW = -1\<close>.\<close>

fun rotation_value :: "rotation_type_t \<Rightarrow> real" where
  "rotation_value CW = 1"
| "rotation_value CCW = - 1"

datatype dimension_t = DIM_1D_X | DIM_1D_Y | DIM_2D

text \<open>\<^verbatim>\<open>DIM_1D_X = 0\<close>, \<^verbatim>\<open>DIM_1D_Y = 1\<close>, \<^verbatim>\<open>DIM_2D = 2\<close>.\<close>

fun dimension_value :: "dimension_t \<Rightarrow> nat" where
  "dimension_value DIM_1D_X = 0"
| "dimension_value DIM_1D_Y = 1"
| "dimension_value DIM_2D = 2"

subsection \<open>Points and edges in the plane\<close>

record Point2d =
  p_x :: real
  p_y :: real

text \<open>\<^verbatim>\<open>Point2d::operator[]\<close>: index 0 is \<open>x\<close>, every other index is \<open>y\<close>.\<close>

definition Point2d_index :: "Point2d \<Rightarrow> nat \<Rightarrow> real" where
  "Point2d_index p i = (if i = 0 then p_x p else p_y p)"

definition Point2d_minus :: "Point2d \<Rightarrow> Point2d \<Rightarrow> Point2d" where
  "Point2d_minus p q = \<lparr>p_x = p_x p - p_x q, p_y = p_y p - p_y q\<rparr>"

definition Point2d_plus :: "Point2d \<Rightarrow> Point2d \<Rightarrow> Point2d" where
  "Point2d_plus p q = \<lparr>p_x = p_x p + p_x q, p_y = p_y p + p_y q\<rparr>"

definition Point2d_div :: "Point2d \<Rightarrow> real \<Rightarrow> Point2d" where
  "Point2d_div p s = \<lparr>p_x = p_x p / s, p_y = p_y p / s\<rparr>"

record Edge2d =
  org :: Point2d
  dst :: Point2d

definition Edge2d_flip :: "Edge2d \<Rightarrow> Edge2d" where
  "Edge2d_flip e = \<lparr>org = dst e, dst = org e\<rparr>"

definition Edge2d_dx :: "Edge2d \<Rightarrow> real" where
  "Edge2d_dx e = p_x (dst e) - p_x (org e)"

definition Edge2d_dy :: "Edge2d \<Rightarrow> real" where
  "Edge2d_dy e = p_y (dst e) - p_y (org e)"

definition Edge2d_is_vertical :: "Edge2d \<Rightarrow> bool" where
  "Edge2d_is_vertical e = (p_x (org e) = p_x (dst e))"

definition Edge2d_is_horizontal :: "Edge2d \<Rightarrow> bool" where
  "Edge2d_is_horizontal e = (p_y (org e) = p_y (dst e))"

text \<open>
  \<^verbatim>\<open>Edge2d::area\<close>: the trapezoid between the edge and the x axis,
  \<^verbatim>\<open>dx() * (dst.y + org.y) / 2.0\<close>.
\<close>

definition Edge2d_area :: "Edge2d \<Rightarrow> real" where
  "Edge2d_area e = Edge2d_dx e * (p_y (dst e) + p_y (org e)) / 2"

subsection \<open>Polygons: \<^verbatim>\<open>AbstractGeometry\<close> and \<^verbatim>\<open>PolygonGeometry\<close>\<close>

record AbstractGeometry =
  edges :: "Edge2d list"
  axis :: dimension_t

text \<open>
  \<^verbatim>\<open>PolygonGeometry::PolygonGeometry(points)\<close>.  Two points on a common horizontal or
  vertical line give the one-edge polygon from the last point to the first; three or more
  points give the closed chain; anything else throws \<^verbatim>\<open>std::invalid_argument\<close>.
\<close>

fun chain_edges :: "Point2d \<Rightarrow> Point2d list \<Rightarrow> Edge2d list" where
  "chain_edges prev [] = []"
| "chain_edges prev (cur # rest) = \<lparr>org = prev, dst = cur\<rparr> # chain_edges cur rest"

definition is_1d_possible :: "Point2d list \<Rightarrow> bool" where
  "is_1d_possible points =
     (length points = 2 \<and>
      (let edge = \<lparr>org = points ! 0, dst = points ! 1\<rparr>
       in Edge2d_is_vertical edge \<or> Edge2d_is_horizontal edge))"

definition is_2d_possible :: "Point2d list \<Rightarrow> bool" where
  "is_2d_possible points = (3 \<le> length points)"

definition PolygonGeometry :: "Point2d list \<Rightarrow> error + AbstractGeometry" where
  "PolygonGeometry points =
     (if is_1d_possible points then
        (let edge = \<lparr>org = last points, dst = hd points\<rparr>
         in Inr \<lparr>edges = [edge],
                 axis = (if Edge2d_is_horizontal edge then DIM_1D_X else DIM_1D_Y)\<rparr>)
      else if is_2d_possible points then
        Inr \<lparr>edges = chain_edges (hd points) (tl points)
                       @ [\<lparr>org = last points, dst = hd points\<rparr>],
             axis = DIM_2D\<rparr>
      else Inl InvalidArgument)"

text \<open>
  \<^verbatim>\<open>AbstractGeometry::signed_area\<close>.  In two dimensions the edge areas are accumulated in
  list order.  In one dimension the value is \<^verbatim>\<open>e->dst[axis] - e->org[axis]\<close> of the front
  edge; \<^verbatim>\<open>front()\<close> is \<^verbatim>\<open>_edges.at(0)\<close>, which throws \<^verbatim>\<open>std::out_of_range\<close> on an empty
  edge list.
\<close>

definition signed_area :: "AbstractGeometry \<Rightarrow> error + real" where
  "signed_area g =
     (if axis g = DIM_2D then Inr (foldl (\<lambda>result edge. result + Edge2d_area edge) 0 (edges g))
      else (case edges g of
              [] \<Rightarrow> Inl OutOfRange
            | e # _ \<Rightarrow> Inr (Point2d_index (dst e) (dimension_value (axis g))
                            - Point2d_index (org e) (dimension_value (axis g)))))"

text \<open>
  \<^verbatim>\<open>AbstractGeometry::set_bypass\<close>: when \<^verbatim>\<open>direction*area < 0\<close> the edge vector is reversed
  (\<^verbatim>\<open>std::reverse\<close>) and every edge flipped.  The result is the flag \<^verbatim>\<open>corrected\<close> and the
  geometry after the call.
\<close>

definition set_bypass :: "rotation_type_t \<Rightarrow> AbstractGeometry \<Rightarrow> error + (bool \<times> AbstractGeometry)" where
  "set_bypass direction g =
     (case signed_area g of
        Inl e \<Rightarrow> Inl e
      | Inr area \<Rightarrow>
          if rotation_value direction * area < 0
          then Inr (True, g\<lparr>edges := map Edge2d_flip (rev (edges g))\<rparr>)
          else Inr (False, g))"

text \<open>The signed area observed after \<^verbatim>\<open>set_bypass(direction)\<close>.\<close>

definition area_after_bypass :: "rotation_type_t \<Rightarrow> AbstractGeometry \<Rightarrow> error + real" where
  "area_after_bypass direction g =
     (case set_bypass direction g of
        Inl e \<Rightarrow> Inl e
      | Inr (corrected, g') \<Rightarrow> signed_area g')"

text \<open>
  A polygon as the constructors build it: exactly one edge in one dimension, at least
  three edges in two dimensions.
\<close>

definition well_formed :: "AbstractGeometry \<Rightarrow> bool" where
  "well_formed g = (if axis g = DIM_2D then 3 \<le> length (edges g) else length (edges g) = 1)"

subsection \<open>Points, edges and triangles in space\<close>

record Point3d =
  q_x :: real
  q_y :: real
  q_z :: real

text \<open>\<^verbatim>\<open>Point3d::operator==\<close> and \<^verbatim>\<open>Point3d::operator!=\<close> compare \<open>x\<close> and \<open>y\<close> only.\<close>

definition Point3d_eq :: "Point3d \<Rightarrow> Point3d \<Rightarrow> bool" where
  "Point3d_eq p q = (q_x p = q_x q \<and> q_y p = q_y q)"

definition Point3d_neq :: "Point3d \<Rightarrow> Point3d \<Rightarrow> bool" where
  "Point3d_neq p q = (q_x p \<noteq> q_x q \<or> q_y p \<noteq> q_y q)"

record Edge3d =
  org3 :: Point3d
  dst3 :: Point3d

definition Edge3d_eq :: "Edge3d \<Rightarrow> Edge3d \<Rightarrow> bool" where
  "Edge3d_eq e other = (Point3d_eq (org3 e) (org3 other) \<and> Point3d_eq (dst3 e) (dst3 other))"

record Triangle3d =
  tri_a :: Point3d
  tri_b :: Point3d
  tri_c :: Point3d

text \<open>\<^verbatim>\<open>Triangle3d::operator[]\<close> throws \<^verbatim>\<open>std::out_of_range\<close> beyond index 2.\<close>

definition Triangle3d_index :: "Triangle3d \<Rightarrow> nat \<Rightarrow> error + Point3d" where
  "Triangle3d_index t i =
     (if i = 0 then Inr (tri_a t)
      else if i = 1 then Inr (tri_b t)
      else if i = 2 then Inr (tri_c t)
      else Inl OutOfRange)"

text \<open>
  \<^verbatim>\<open>Triangle3d::operator==\<close>:
  \<^verbatim>\<open>*_a == other[0] && *_b == other[1] && *_c == other[2]\<close>, with short-circuit evaluation.
\<close>

definition Triangle3d_eq :: "Triangle3d \<Rightarrow> Triangle3d \<Rightarrow> error + bool" where
  "Triangle3d_eq t other =
     (case Triangle3d_index other 0 of
        Inl e \<Rightarrow> Inl e
      | Inr o0 \<Rightarrow>
          if \<not> Point3d_eq (tri_a t) o0 then Inr False
          else (case Triangle3d_index other 1 of
                  Inl e \<Rightarrow> Inl e
                | Inr o1 \<Rightarrow>
                    if \<not> Point3d_eq (tri_b t) o1 then Inr False
                    else (case Triangle3d_index other 2 of
                            Inl e \<Rightarrow> Inl e
                          | Inr o2 \<Rightarrow> Inr (Point3d_eq (tri_c t) o2))))"



section \<open>Wafer stack (\<^verbatim>\<open>opl_capi.h\<close>, \<^verbatim>\<open>opl_capi.cpp\<close>)\<close>

datatype layer_type_t = ENVIRONMENT_LAYER | RESIST_LAYER | MATERIAL_LAYER | SUBSTRATE_LAYER

text \<open>
  \<^verbatim>\<open>AbstractWaferLayer\<close>: the layer type, the thickness and the virtual method
  \<^verbatim>\<open>refraction(wavelength)\<close>, kept as a field.
\<close>

record AbstractWaferLayer =
  layer_type :: layer_type_t
  thickness :: real
  refraction :: "real \<Rightarrow> complex"

definition is_environment :: "AbstractWaferLayer \<Rightarrow> bool" where
  "is_environment l = (layer_type l = ENVIRONMENT_LAYER)"

definition is_resist :: "AbstractWaferLayer \<Rightarrow> bool" where
  "is_resist l = (layer_type l = RESIST_LAYER)"

definition is_material :: "AbstractWaferLayer \<Rightarrow> bool" where
  "is_material l = (layer_type l = MATERIAL_LAYER)"

definition is_substrate :: "AbstractWaferLayer \<Rightarrow> bool" where
  "is_substrate l = (layer_type l = SUBSTRATE_LAYER)"

definition effective_refraction :: "AbstractWaferLayer \<Rightarrow> complex \<Rightarrow> real \<Rightarrow> complex" where
  "effective_refraction l incident_angle wavelength = cos incident_angle * refraction l wavelength"

definition internal_transmit :: "AbstractWaferLayer \<Rightarrow> real \<Rightarrow> real \<Rightarrow> complex" where
  "internal_transmit l wavelength pw =
     exp (2 * complex_of_real pi * \<i> * refraction l wavelength * complex_of_real (thickness l)
          / complex_of_real wavelength * complex_of_real pw)"

definition reflection :: "complex \<Rightarrow> complex \<Rightarrow> complex" where
  "reflection top_refraction bottom_refraction =
     (top_refraction - bottom_refraction) / (top_refraction + bottom_refraction)"

text \<open>
  \<^verbatim>\<open>WaferStack\<close>.  A null \<^verbatim>\<open>shared_ptr\<close> is \<open>None\<close>; the two \<^verbatim>\<open>std::map\<close> caches are partial
  maps from \<open>(cx, cy)\<close> to a reflection vector; \<open>cached_wavelength\<close> is the one wavelength
  stamp both caches share.
\<close>

record WaferStack =
  layers :: "AbstractWaferLayer list"
  resist :: "AbstractWaferLayer option"
  substrate :: "AbstractWaferLayer option"
  environment :: "AbstractWaferLayer option"
  cached_top_reflections :: "real \<times> real \<Rightarrow> complex list option"
  cached_bottom_reflections :: "real \<times> real \<Rightarrow> complex list option"
  cached_wavelength :: real

text \<open>\<^verbatim>\<open>WaferStack::WaferStack(void)\<close>.\<close>

definition WaferStack_new :: WaferStack where
  "WaferStack_new =
     \<lparr>layers = [], resist = None, substrate = None, environment = None,
      cached_top_reflections = (\<lambda>k. None), cached_bottom_reflections = (\<lambda>k. None),
      cached_wavelength = - 1\<rparr>"

text \<open>
  \<^verbatim>\<open>WaferStack::push\<close>.  The result is the exception thrown, if any, and the stack after
  the call.  Every \<^verbatim>\<open>throw\<close> precedes the first assignment.
\<close>

definition push :: "AbstractWaferLayer \<Rightarrow> WaferStack \<Rightarrow> error option \<times> WaferStack" where
  "push layer ws =
     (if environment ws \<noteq> None then (Some InvalidArgument, ws)
      else if resist ws \<noteq> None \<and> is_resist layer then (Some InvalidArgument, ws)
      else if resist ws \<noteq> None \<and> \<not> is_environment layer then (Some InvalidArgument, ws)
      else if layers ws = [] \<and> \<not> is_substrate layer then (Some InvalidArgument, ws)
      else
        (let ws1 =
           (if is_environment layer then ws\<lparr>environment := Some layer\<rparr>
            else if is_resist layer then ws\<lparr>resist := Some layer\<rparr>
            else if is_substrate layer then ws\<lparr>substrate := Some layer\<rparr>
            else ws)
         in (None, ws1\<lparr>layers := layer # layers ws1\<rparr>)))"

text \<open>
  The cached queries.  \<^verbatim>\<open>_calc_effective_top_reflections\<close> and
  \<^verbatim>\<open>_calc_effective_bottom_reflections\<close> read the layer list, \<open>cxy\<close> and the wavelength and
  nothing else; they enter as the parameters \<open>calc_top\<close> and \<open>calc_bottom\<close> (their bodies
  need the complex arcsine).  Each query returns the reflection vector and the stack
  after the call.
\<close>

definition effective_top_reflection ::
  "(AbstractWaferLayer list \<Rightarrow> real \<Rightarrow> real \<Rightarrow> complex list) \<Rightarrow>
   real \<Rightarrow> real \<Rightarrow> real \<Rightarrow> WaferStack \<Rightarrow> complex list \<times> WaferStack" where
  "effective_top_reflection calc_top cx cy wavelength ws =
     (let ws1 = (if cached_wavelength ws \<noteq> wavelength
                 then ws\<lparr>cached_top_reflections := (\<lambda>k. None), cached_wavelength := wavelength\<rparr>
                 else ws)
      in case cached_top_reflections ws1 (cx, cy) of
           Some cached \<Rightarrow> (cached, ws1)
         | None \<Rightarrow>
             (let cxy = sqrt (cx * cx + cy * cy);
                  reflections = calc_top (layers ws1) cxy wavelength
              in (reflections,
                  ws1\<lparr>cached_top_reflections :=
                        (cached_top_reflections ws1)((cx, cy) \<mapsto> reflections)\<rparr>)))"

definition effective_bottom_reflection ::
  "(AbstractWaferLayer list \<Rightarrow> real \<Rightarrow> real \<Rightarrow> complex list) \<Rightarrow>
   real \<Rightarrow> real \<Rightarrow> real \<Rightarrow> WaferStack \<Rightarrow> complex list \<times> WaferStack" where
  "effective_bottom_reflection calc_bottom cx cy wavelength ws =
     (let ws1 = (if cached_wavelength ws \<noteq> wavelength
                 then ws\<lparr>cached_bottom_reflections := (\<lambda>k. None), cached_wavelength := wavelength\<rparr>
                 else ws)
      in case cached_bottom_reflections ws1 (cx, cy) of
           Some cached \<Rightarrow> (cached, ws1)
         | None \<Rightarrow>
             (let cxy = sqrt (cx * cx + cy * cy);
                  reflections = calc_bottom (layers ws1) cxy wavelength
              in (reflections,
                  ws1\<lparr>cached_bottom_reflections :=
                        (cached_bottom_reflections ws1)((cx, cy) \<mapsto> reflections)\<rparr>)))"

text \<open>
  \<^verbatim>\<open>WaferStack::reflectivity(indx, wavelength)\<close>.  The guard is
  \<^verbatim>\<open>indx == 0 || indx > this->_layers.size()-1\<close> with \<^verbatim>\<open>size()\<close> of the unsigned type
  \<^verbatim>\<open>size_t\<close>: on an empty list \<^verbatim>\<open>size()-1\<close> wraps to the largest value.  \<open>size_bits\<close> is the
  width of \<^verbatim>\<open>size_t\<close>, and \<open>indx\<close> a \<^verbatim>\<open>uint32_t\<close>.
\<close>

definition reflectivity_guard :: "nat \<Rightarrow> nat \<Rightarrow> WaferStack \<Rightarrow> bool" where
  "reflectivity_guard size_bits indx ws =
     (indx = 0 \<or> int indx > (int (length (layers ws)) - 1) mod 2 ^ size_bits)"

definition reflectivity ::
  "(AbstractWaferLayer list \<Rightarrow> real \<Rightarrow> real \<Rightarrow> complex list) \<Rightarrow>
   nat \<Rightarrow> nat \<Rightarrow> real \<Rightarrow> WaferStack \<Rightarrow> (error + complex) \<times> WaferStack" where
  "reflectivity calc_bottom size_bits indx wavelength ws =
     (if reflectivity_guard size_bits indx ws then (Inl OutOfRange, ws)
      else if length (layers ws) \<le> indx then (Inl Undefined, ws)
      else
        (let ro12 = reflection (effective_refraction (layers ws ! (indx - 1)) 0 wavelength)
                               (effective_refraction (layers ws ! indx) 0 wavelength);
             (bottom_reflections, ws1) = effective_bottom_reflection calc_bottom 0 0 wavelength ws
         in if length bottom_reflections \<le> indx then (Inl Undefined, ws1)
            else
              (let ro23e = bottom_reflections ! indx;
                   tau2d = internal_transmit (layers ws ! indx) wavelength 2;
                   v = (ro12 + ro23e * tau2d) / (1 + ro12 * ro23e * tau2d)
               in (Inr v, ws1))))"






section \<open>Resist volumes, exposure and bake (\<^verbatim>\<open>opl_capi.cpp\<close>, \<^verbatim>\<open>opl_conv.h\<close>, \<^verbatim>\<open>opl_sim.cpp\<close>)\<close>

subsection \<open>Cubes and resist volumes\<close>

text \<open>
  An \<^verbatim>\<open>arma::cube\<close>: its three extents and the element access \<^verbatim>\<open>cube(r, c, s)\<close>, read only
  inside the extents.
\<close>

record cube =
  n_rows :: nat
  n_cols :: nat
  n_slices :: nat
  elem :: "nat \<Rightarrow> nat \<Rightarrow> nat \<Rightarrow> real"

definition cube_row :: "cube \<Rightarrow> nat \<Rightarrow> nat \<Rightarrow> real list" where
  "cube_row c r s = map (\<lambda>col. elem c r col s) [0..<n_cols c]"

definition cube_col :: "cube \<Rightarrow> nat \<Rightarrow> nat \<Rightarrow> real list" where
  "cube_col c col s = map (\<lambda>r. elem c r col s) [0..<n_rows c]"

definition cube_tube :: "cube \<Rightarrow> nat \<Rightarrow> nat \<Rightarrow> real list" where
  "cube_tube c r col = map (\<lambda>s. elem c r col s) [0..<n_slices c]"

text \<open>\<^verbatim>\<open>arma::accu\<close> of a cube: the sum of all its elements.\<close>

definition cube_accu :: "cube \<Rightarrow> real" where
  "cube_accu c = (\<Sum>s<n_slices c. \<Sum>col<n_cols c. \<Sum>r<n_rows c. elem c r col s)"

text \<open>
  A \<^verbatim>\<open>ResistVolume\<close> owns its cube through a \<^verbatim>\<open>shared_ptr\<close>.  The cubes live in a store, a
  list indexed by address, and the volume holds the address \<open>values_ptr\<close>; the coordinate
  vectors are copied by value everywhere and stay in the record.
\<close>

record ResistVolume =
  values_ptr :: nat
  rv_x :: "real list"
  rv_y :: "real list"
  rv_z :: "real list"
  stepx :: real
  stepy :: real
  stepz :: real

type_synonym store = "cube list"

text \<open>
  \<^verbatim>\<open>ResistVolume::ResistVolume(const ResistVolume& other, bool copydata)\<close>.  As written in
  the source, \<^verbatim>\<open>copydata = false\<close> copies the cube of \<open>other\<close> into a new allocation and
  \<^verbatim>\<open>copydata = true\<close> allocates a cube of the same extents without filling it; \<open>fresh\<close> is
  the content of such unfilled memory.
\<close>

definition ResistVolume_copy ::
  "(nat \<Rightarrow> nat \<Rightarrow> nat \<Rightarrow> real) \<Rightarrow> store \<Rightarrow> ResistVolume \<Rightarrow> bool \<Rightarrow> store \<times> ResistVolume" where
  "ResistVolume_copy fresh st other copydata =
     (st @ [if copydata then (st ! values_ptr other)\<lparr>elem := fresh\<rparr> else st ! values_ptr other],
      other\<lparr>values_ptr := length st\<rparr>)"

subsection \<open>Exposure\<close>

record Exposure =
  focus :: real
  nominal_dose :: real
  correctable :: real

definition dose :: "Exposure \<Rightarrow> real" where
  "dose e = nominal_dose e * correctable e"

record ExposureResistModel =
  erm_wavelength :: real
  dill_a :: real
  dill_b :: real
  dill_c :: real
  erm_n :: real

record PebResistModel =
  ea :: real
  ln_ar :: real

record ResistWaferLayer =
  rl_thickness :: real
  rl_exposure :: ExposureResistModel
  rl_peb :: PebResistModel

record PostExposureBake =
  peb_time :: real
  peb_temp :: real

text \<open>
  \<^verbatim>\<open>latent_image\<close>: the result volume is a copy of the input (a new cube in the store), and
  its cube is then overwritten with \<^verbatim>\<open>arma::exp(-values*exposure->dose()*resist->exposure->c)\<close>.
\<close>

definition latent_image ::
  "store \<Rightarrow> ResistVolume \<Rightarrow> ResistWaferLayer \<Rightarrow> Exposure \<Rightarrow> store \<times> ResistVolume" where
  "latent_image st image_in_resist resist_layer exposure =
     (let vals = st ! values_ptr image_in_resist;
          (st1, result) = ResistVolume_copy (\<lambda>r c s. 0) st image_in_resist False
      in (st1[values_ptr result :=
                vals\<lparr>elem := (\<lambda>r c s. exp (- elem vals r c s * dose exposure
                                              * dill_c (rl_exposure resist_layer)))\<rparr>],
          result))"

subsection \<open>The bake kernel\<close>

text \<open>\<^verbatim>\<open>physc::R\<close> and \<^verbatim>\<open>physc::T0\<close>.\<close>

definition physc_R :: real where
  "physc_R = 1987204118 / 10 ^ 12"

definition physc_T0 :: real where
  "physc_T0 = - (27315 / 100)"

text \<open>
  \<^verbatim>\<open>PebResistModel::diffusivity\<close>: \<^verbatim>\<open>exp(ln_ar - ea/(R*tempk))\<close> with \<^verbatim>\<open>tempk = temp - T0\<close>.  At
  \<^verbatim>\<open>tempk = 0\<close> the quotient is a division by zero.
\<close>

definition diffusivity :: "PebResistModel \<Rightarrow> real \<Rightarrow> error + real" where
  "diffusivity m temp =
     (let tempk = temp - physc_T0
      in if physc_R * tempk = 0 then Inl NonFinite
         else Inr (exp (ln_ar m - ea m / (physc_R * tempk))))"

text \<open>\<^verbatim>\<open>PebResistModel::diffusion_length\<close>: \<^verbatim>\<open>sqrt(2.0 * diffusivity(temp) * time)\<close>.\<close>

definition diffusion_length :: "PebResistModel \<Rightarrow> real \<Rightarrow> real \<Rightarrow> error + real" where
  "diffusion_length m temp time =
     (case diffusivity m temp of
        Inl e \<Rightarrow> Inl e
      | Inr d \<Rightarrow> if 2 * d * time < 0 then Inl NonFinite else Inr (sqrt (2 * d * time)))"

text \<open>\<^verbatim>\<open>std::fmod(x, y)\<close> for \<open>y \<noteq> 0\<close>: \<open>x\<close> minus \<open>y\<close> times the quotient truncated towards zero.\<close>

definition trunc :: "real \<Rightarrow> int" where
  "trunc q = (if 0 \<le> q then \<lfloor>q\<rfloor> else \<lceil>q\<rceil>)"

definition fmod :: "real \<Rightarrow> real \<Rightarrow> real" where
  "fmod x y = x - y * of_int (trunc (x / y))"

text \<open>
  The two quantities below end in a conversion to an integer, where the rounding of the
  \<^verbatim>\<open>double\<close> operations decides the result; there the operations are rounded as IEEE 754
  binary64 rounds them, to the nearest representable number with ties to the even
  significand, each operation on its own.  \<open>ulp64 x\<close> is the spacing of the binary64 numbers
  at \<open>x\<close> (subnormal below \<open>2\<^sup>-\<^sup>1\<^sup>0\<^sup>2\<^sup>2\<close>), and \<open>dbl\<close> is the rounded result, or \<open>NonFinite\<close> when it
  is beyond the largest binary64 number.
\<close>

definition ulp64 :: "real \<Rightarrow> real" where
  "ulp64 x = 2 powr (of_int (max \<lfloor>log 2 \<bar>x\<bar>\<rfloor> (- 1022)) - 52)"

definition round_even :: "real \<Rightarrow> int" where
  "round_even y =
     (let f = \<lfloor>y\<rfloor>
      in if y - of_int f < 1 / 2 then f
         else if 1 / 2 < y - of_int f then f + 1
         else if even f then f else f + 1)"

definition rnd64 :: "real \<Rightarrow> real" where
  "rnd64 x = (if x = 0 then 0 else of_int (round_even (x / ulp64 x)) * ulp64 x)"

definition dbl :: "real \<Rightarrow> error + real" where
  "dbl x = (if 2 ^ 1024 \<le> \<bar>rnd64 x\<bar> then Inl NonFinite else Inr (rnd64 x))"

text \<open>
  \<^verbatim>\<open>std::ceil(3.0*sigma) - std::fmod(std::ceil(3.0*sigma), step) + step\<close>: the product, the
  difference and the sum are rounded; \<^verbatim>\<open>ceil\<close> and \<^verbatim>\<open>fmod\<close> of binary64 numbers are exact.
\<close>

definition sigma_on_grid :: "real \<Rightarrow> real \<Rightarrow> error + real" where
  "sigma_on_grid sigma step =
     (case dbl (3 * sigma) of
        Inl e \<Rightarrow> Inl e
      | Inr t \<Rightarrow>
          (let c = of_int \<lceil>t\<rceil>
           in case dbl (c - fmod c step) of
                Inl e \<Rightarrow> Inl e
              | Inr d \<Rightarrow> dbl (d + step)))"

text \<open>
  \<^verbatim>\<open>(uint32_t) (2*sigma_on_grid/step) + 1\<close>: the product and the quotient are rounded; the
  conversion truncates towards zero and is undefined outside the range of \<^verbatim>\<open>uint32_t\<close>
  (an infinite quotient included); the addition wraps.
\<close>

definition kernel_count :: "real \<Rightarrow> real \<Rightarrow> error + nat" where
  "kernel_count sog step =
     (case dbl (2 * sog) of
        Inl e \<Rightarrow> Inl Undefined
      | Inr t \<Rightarrow>
          (case dbl (t / step) of
             Inl e \<Rightarrow> Inl Undefined
           | Inr q \<Rightarrow>
               if q \<le> - 1 \<or> 2 ^ 32 \<le> q then Inl Undefined
               else Inr ((nat (trunc q) + 1) mod 2 ^ 32)))"

text \<open>
  \<^verbatim>\<open>PebResistModel::kernel\<close>.  For \<open>step = 0\<close> the kernel is \<open>[1]\<close>.  Otherwise the samples
  \<^verbatim>\<open>step/sigma/sqrt(2*M_PI)*exp(-x*x/2/sigma/sigma)\<close> at \<^verbatim>\<open>x = k*step - sigma_on_grid\<close> are
  divided by their sum.  The source divides by \<open>sigma\<close> and by the sum without a test.
\<close>

definition kernel_sample :: "real \<Rightarrow> real \<Rightarrow> real \<Rightarrow> nat \<Rightarrow> real" where
  "kernel_sample sigma step sog k =
     (let x = of_nat k * step - sog
      in step / sigma / sqrt (2 * pi) * exp (- x * x / 2 / sigma / sigma))"

definition kernel :: "PebResistModel \<Rightarrow> PostExposureBake \<Rightarrow> real \<Rightarrow> error + real list" where
  "kernel m peb step =
     (if step \<noteq> 0 then
        (case diffusion_length m (peb_temp peb) (peb_time peb) of
           Inl e \<Rightarrow> Inl e
         | Inr sigma \<Rightarrow>
             if sigma = 0 then Inl NonFinite
             else
               (case sigma_on_grid sigma step of
                  Inl e \<Rightarrow> Inl e
                | Inr sog \<Rightarrow>
                    (case kernel_count sog step of
                       Inl e \<Rightarrow> Inl e
                     | Inr count \<Rightarrow>
                         (let kern = map (kernel_sample sigma step sog) [0..<count]
                          in if sum_list kern = 0 then Inl NonFinite
                             else Inr (map (\<lambda>v. v / sum_list kern) kern)))))
      else Inr [1])"

subsection \<open>One-dimensional convolution (\<^verbatim>\<open>opl_conv.h\<close>)\<close>

datatype conv1d_type_t = SYMMETRIC | CIRCULAR

text \<open>\<^verbatim>\<open>kmin = -static_cast<int32_t>(std::floor(n_elem/2.0))\<close> for the kernel length.\<close>

definition kmin :: "real list \<Rightarrow> int" where
  "kmin kern = - int (length kern div 2)"

text \<open>
  The index of the symmetric convolution: \<^verbatim>\<open>w = abs(i + s)\<close>, reflected when \<^verbatim>\<open>w >= c\<close>.
\<close>

definition symmetric_index :: "nat \<Rightarrow> nat \<Rightarrow> int \<Rightarrow> nat" where
  "symmetric_index n i s =
     (let w = \<bar>int i + s\<bar>; c = int n
      in if c \<le> w then
           (if (w div (c - 1)) mod 2 \<noteq> 0 then nat ((c - 1) - w mod (c - 1))
            else nat (w mod (c - 1)))
         else nat w)"

text \<open>
  The index of the circular convolution: \<^verbatim>\<open>(array.n_elem + i + s) % array.n_elem\<close>.  The sum
  is formed in the unsigned type \<^verbatim>\<open>arma::uword\<close>, whose width \<open>uword_bits\<close> depends on the
  Armadillo configuration (32 or 64); a negative \<open>n + i + s\<close> wraps before the remainder is
  taken.
\<close>

definition circular_index :: "nat \<Rightarrow> nat \<Rightarrow> nat \<Rightarrow> int \<Rightarrow> nat" where
  "circular_index uword_bits n i s =
     nat (((int n + int i + s) mod 2 ^ uword_bits) mod int n)"

definition symmetric_conv1d :: "real list \<Rightarrow> real list \<Rightarrow> real list" where
  "symmetric_conv1d arr kern =
     (if 1 < length arr then
        map (\<lambda>i. \<Sum>k\<leftarrow>[0..<length kern].
                     arr ! symmetric_index (length arr) i (kmin kern + int k) * kern ! k)
            [0..<length arr]
      else if length arr = 1 then [arr ! 0]
      else [])"

definition circular_conv1d :: "nat \<Rightarrow> real list \<Rightarrow> real list \<Rightarrow> real list" where
  "circular_conv1d uword_bits arr kern =
     (if 1 < length arr then
        map (\<lambda>i. \<Sum>k\<leftarrow>[0..<length kern].
                     arr ! circular_index uword_bits (length arr) i (kmin kern + int k) * kern ! k)
            [0..<length arr]
      else if length arr = 1 then [arr ! 0]
      else [])"

definition conv1d :: "nat \<Rightarrow> real list \<Rightarrow> real list \<Rightarrow> conv1d_type_t \<Rightarrow> real list" where
  "conv1d uword_bits arr kern type =
     (case type of
        CIRCULAR \<Rightarrow> circular_conv1d uword_bits arr kern
      | SYMMETRIC \<Rightarrow> symmetric_conv1d arr kern)"

text \<open>
  The condition under which no index of the circular convolution wraps in \<^verbatim>\<open>arma::uword\<close>:
  on an array of more than one element, half the kernel length is at most the array
  length, and the sum \<open>n + i + s\<close> stays below \<open>2 ^ uword_bits\<close>.
\<close>

definition kernel_fits :: "nat \<Rightarrow> real list \<Rightarrow> nat \<Rightarrow> bool" where
  "kernel_fits uword_bits kern n =
     (1 < n \<longrightarrow> length kern div 2 \<le> n \<and> 2 * n + length kern \<le> 2 ^ uword_bits)"

subsection \<open>Post-exposure bake\<close>

text \<open>
  The three passes of \<^verbatim>\<open>peb_latent_image\<close>: every row of every slice with \<open>kernelx\<close>,
  then every column of every slice with \<open>kernely\<close>, both \<open>CIRCULAR\<close>; then every tube with
  \<open>kernelz\<close>, \<open>SYMMETRIC\<close>.
\<close>

definition peb_rows :: "nat \<Rightarrow> real list \<Rightarrow> cube \<Rightarrow> cube" where
  "peb_rows uword_bits kernelx c =
     c\<lparr>elem := (\<lambda>r col s. conv1d uword_bits (cube_row c r s) kernelx CIRCULAR ! col)\<rparr>"

definition peb_cols :: "nat \<Rightarrow> real list \<Rightarrow> cube \<Rightarrow> cube" where
  "peb_cols uword_bits kernely c =
     c\<lparr>elem := (\<lambda>r col s. conv1d uword_bits (cube_col c col s) kernely CIRCULAR ! r)\<rparr>"

definition peb_tubes :: "nat \<Rightarrow> real list \<Rightarrow> cube \<Rightarrow> cube" where
  "peb_tubes uword_bits kernelz c =
     c\<lparr>elem := (\<lambda>r col s. conv1d uword_bits (cube_tube c r col) kernelz SYMMETRIC ! s)\<rparr>"

definition peb_latent_image ::
  "nat \<Rightarrow> store \<Rightarrow> ResistVolume \<Rightarrow> ResistWaferLayer \<Rightarrow> PostExposureBake
   \<Rightarrow> error + store \<times> ResistVolume" where
  "peb_latent_image uword_bits st latent resist_layer peb =
     (let (st1, result) = ResistVolume_copy (\<lambda>r c s. 0) st latent False
      in case kernel (rl_peb resist_layer) peb (stepx latent) of
           Inl e \<Rightarrow> Inl e
         | Inr kernelx \<Rightarrow>
        (case kernel (rl_peb resist_layer) peb (stepy latent) of
           Inl e \<Rightarrow> Inl e
         | Inr kernely \<Rightarrow>
        (case kernel (rl_peb resist_layer) peb (stepz latent) of
           Inl e \<Rightarrow> Inl e
         | Inr kernelz \<Rightarrow>
             Inr (st1[values_ptr result :=
                        peb_tubes uword_bits kernelz
                          (peb_cols uword_bits kernely
                             (peb_rows uword_bits kernelx (st ! values_ptr latent)))],
                  result))))"


section \<open>Masks and diffraction (\<^verbatim>\<open>opl_capi.h\<close>, \<^verbatim>\<open>opl_capi.cpp\<close>, \<^verbatim>\<open>opl_sim.cpp\<close>)\<close>

subsection \<open>Regions, boxes and masks\<close>

text \<open>
  \<^verbatim>\<open>_etransmit\<close>: \<^verbatim>\<open>std::sqrt(transmit) * std::exp(j*phase*M_PI/180.0)\<close>.  The root of a
  negative transmittance is NaN.
\<close>

definition etransmit_of :: "real \<Rightarrow> real \<Rightarrow> error + complex" where
  "etransmit_of transmit ph =
     (if transmit < 0 then Inl NonFinite
      else Inr (complex_of_real (sqrt transmit)
                * exp (\<i> * complex_of_real ph * complex_of_real pi / 180)))"

text \<open>A \<^verbatim>\<open>Region\<close> is a polygon with a transmittance and a phase in degrees.\<close>

record Region =
  geometry :: AbstractGeometry
  transmittance :: real
  phase :: real

definition Region_new :: "Point2d list \<Rightarrow> real \<Rightarrow> real \<Rightarrow> error + Region" where
  "Region_new points t ph =
     (case PolygonGeometry points of
        Inl e \<Rightarrow> Inl e
      | Inr g \<Rightarrow> Inr \<lparr>geometry = g, transmittance = t, phase = ph\<rparr>)"

text \<open>
  A \<^verbatim>\<open>Box\<close> is a rectangle, kept as its diagonal from \<^verbatim>\<open>left_bottom\<close> to \<^verbatim>\<open>right_top\<close>,
  with a transmittance and a phase.  \<^verbatim>\<open>sizes()\<close> is \<^verbatim>\<open>dst - org\<close> of the diagonal.
\<close>

record Box =
  diag :: Edge2d
  box_transmittance :: real
  box_phase :: real

definition Box_sizes :: "Box \<Rightarrow> Point2d" where
  "Box_sizes b = Point2d_minus (dst (diag b)) (org (diag b))"

record Mask =
  mask_boundary :: Box
  mask_regions :: "Region list"
  mask_sizes :: Point2d

text \<open>
  \<^verbatim>\<open>Mask::_make_region\<close>: a copy of the region, forced to the \<open>CW\<close> bypass, with every edge
  moved by the centre of the boundary.
\<close>

definition make_region :: "Region \<Rightarrow> Point2d \<Rightarrow> error + Region" where
  "make_region region center_offset =
     (case set_bypass CW (geometry region) of
        Inl e \<Rightarrow> Inl e
      | Inr (corrected, g) \<Rightarrow>
          Inr (region\<lparr>geometry :=
                 g\<lparr>edges := map (\<lambda>edge. \<lparr>org = Point2d_minus (org edge) center_offset,
                                           dst = Point2d_minus (dst edge) center_offset\<rparr>)
                                (edges g)\<rparr>\<rparr>))"

fun make_regions :: "Region list \<Rightarrow> Point2d \<Rightarrow> error + Region list" where
  "make_regions [] center_offset = Inr []"
| "make_regions (region # rest) center_offset =
     (case make_region region center_offset of
        Inl e \<Rightarrow> Inl e
      | Inr r \<Rightarrow>
          (case make_regions rest center_offset of
             Inl e \<Rightarrow> Inl e
           | Inr rs \<Rightarrow> Inr (r # rs)))"

text \<open>\<^verbatim>\<open>Mask::Mask(regions, boundary)\<close>.\<close>

definition Mask_new :: "Region list \<Rightarrow> Box \<Rightarrow> error + Mask" where
  "Mask_new regions boundary =
     (let lb0 = org (diag boundary);
          rt0 = dst (diag boundary);
          center_offset = Point2d_plus lb0 (Point2d_div (Point2d_minus rt0 lb0) 2)
      in case make_regions regions center_offset of
           Inl e \<Rightarrow> Inl e
         | Inr rs \<Rightarrow>
             (let b = \<lparr>diag = \<lparr>org = Point2d_minus lb0 center_offset,
                                dst = Point2d_minus rt0 center_offset\<rparr>,
                       box_transmittance = box_transmittance boundary,
                       box_phase = box_phase boundary\<rparr>
              in Inr \<lparr>mask_boundary = b, mask_regions = rs, mask_sizes = Box_sizes b\<rparr>))"

definition is_opaque :: "Mask \<Rightarrow> bool" where
  "is_opaque m = (box_transmittance (mask_boundary m) = 0)"

definition is_bad :: "Mask \<Rightarrow> bool" where
  "is_bad m = (p_x (mask_sizes m) = 0 \<and> p_y (mask_sizes m) = 0)"

subsection \<open>Source shape and imaging tool\<close>

text \<open>
  The discretised source as \<^verbatim>\<open>SourceShape\<close> stores it: the grid of direction cosines, the
  (row, column) indices of the non-zero points, and the limits of the non-zero support.
  The models that fill it are opaque callables and enter as data.
\<close>

record SourceShape =
  ss_cx :: "real list"
  ss_cy :: "real list"
  non_zeros :: "(nat \<times> nat) list"
  sx_min :: real
  sx_max :: real
  sy_min :: real
  sy_max :: real

record ImagingTool =
  it_source_shape :: SourceShape
  it_wavelength :: real
  it_numeric_aperture :: real

subsection \<open>The diffraction grid\<close>

text \<open>
  \<^verbatim>\<open>Diffraction\<close>.  The matrices \<open>d_values\<close> and \<open>d_cxy\<close> are kept as Armadillo stores them,
  column by column: element \<open>(r, c)\<close> is at the linear index \<open>c \<cdot> d_rows + r\<close>.
\<close>

record Diffraction =
  d_values :: "complex list"
  d_rows :: nat
  d_cols :: nat
  d_frqx :: "real list"
  d_frqy :: "real list"
  d_kx :: "int list"
  d_ky :: "int list"
  d_cxy :: "real list"
  d_cx :: "real list"
  d_cy :: "real list"
  d_source_shape :: SourceShape
  d_pitch :: Point2d
  d_numeric_aperture :: real
  d_wavelength :: real

text \<open>
  \<^verbatim>\<open>Diffraction::_calc_size\<close>.  The two bounds are converted to \<^verbatim>\<open>int32_t\<close>, which is
  undefined outside its range.
\<close>

definition in_int32 :: "int \<Rightarrow> bool" where
  "in_int32 v = (- (2 ^ 31) \<le> v \<and> v < 2 ^ 31)"

definition calc_size :: "real \<Rightarrow> real \<Rightarrow> real \<Rightarrow> real \<Rightarrow> real \<Rightarrow> error + int \<times> int" where
  "calc_size na wvl pitch cs_min cs_max =
     (if cs_max < cs_min then Inl InvalidArgument
      else if wvl = 0 then Inl NonFinite
      else
        (let k_min = - \<lfloor>na * (1 - cs_min) / wvl * pitch\<rfloor>;
             k_max = \<lfloor>na * (1 + cs_max) / wvl * pitch\<rfloor>
         in if in_int32 k_min \<and> in_int32 k_max then Inr (k_min, k_max) else Inl Undefined))"

text \<open>
  The extent \<^verbatim>\<open>uint32_t cols = lim.second - lim.first + 1\<close>; a negative difference wraps.
\<close>

definition extent :: "int \<times> int \<Rightarrow> nat" where
  "extent limits = nat ((snd limits - fst limits + 1) mod 2 ^ 32)"

text \<open>
  \<^verbatim>\<open>Diffraction::_init_vectors\<close> on vectors of \<open>n\<close> zeros: with a zero pitch only element 0
  is written (with zeros), otherwise \<^verbatim>\<open>k(i) = k_min + i\<close>, \<^verbatim>\<open>frq(i) = k(i) / pitch\<close> and
  \<^verbatim>\<open>dcos(i) = frq(i) * wavelength\<close>.
\<close>

definition init_k :: "real \<Rightarrow> int \<times> int \<Rightarrow> nat \<Rightarrow> int list" where
  "init_k pitch limits n =
     (if pitch = 0 then replicate n 0 else map (\<lambda>i. fst limits + int i) [0..<n])"

definition init_frq :: "real \<Rightarrow> int \<times> int \<Rightarrow> nat \<Rightarrow> real list" where
  "init_frq pitch limits n =
     (if pitch = 0 then replicate n 0 else map (\<lambda>k. real_of_int k / pitch) (init_k pitch limits n))"

definition init_dcos :: "real \<Rightarrow> real \<Rightarrow> int \<times> int \<Rightarrow> nat \<Rightarrow> real list" where
  "init_dcos pitch wvl limits n =
     (if pitch = 0 then replicate n 0 else map (\<lambda>f. f * wvl) (init_frq pitch limits n))"

text \<open>\<^verbatim>\<open>Diffraction::_init_cosines\<close>: \<^verbatim>\<open>cxy(r, c) = sqrt(cx(c)*cx(c) + cy(r)*cy(r))\<close>.\<close>

definition init_cosines :: "real list \<Rightarrow> real list \<Rightarrow> real list" where
  "init_cosines cx cy =
     concat (map (\<lambda>c. map (\<lambda>r. sqrt (cx ! c * cx ! c + cy ! r * cy ! r)) [0..<length cy])
                 [0..<length cx])"

text \<open>\<^verbatim>\<open>Diffraction::Diffraction(mask, imaging_tool)\<close>.\<close>

definition Diffraction_new :: "Mask \<Rightarrow> ImagingTool \<Rightarrow> error + Diffraction" where
  "Diffraction_new msk tool =
     (let na = it_numeric_aperture tool;
          wvl = it_wavelength tool;
          src = it_source_shape tool;
          pitch = mask_sizes msk
      in case calc_size na wvl (p_x pitch) (sx_min src) (sx_max src) of
           Inl e \<Rightarrow> Inl e
         | Inr lim_cols \<Rightarrow>
        (case calc_size na wvl (p_y pitch) (sy_min src) (sy_max src) of
           Inl e \<Rightarrow> Inl e
         | Inr lim_rows \<Rightarrow>
             (let cols = extent lim_cols;
                  rows = extent lim_rows;
                  cx = init_dcos (p_x pitch) wvl lim_cols cols;
                  cy = init_dcos (p_y pitch) wvl lim_rows rows
              in Inr \<lparr>d_values = replicate (rows * cols) 0,
                      d_rows = rows, d_cols = cols,
                      d_frqx = init_frq (p_x pitch) lim_cols cols,
                      d_frqy = init_frq (p_y pitch) lim_rows rows,
                      d_kx = init_k (p_x pitch) lim_cols cols,
                      d_ky = init_k (p_y pitch) lim_rows rows,
                      d_cxy = init_cosines cx cy,
                      d_cx = cx, d_cy = cy,
                      d_source_shape = src, d_pitch = pitch,
                      d_numeric_aperture = na, d_wavelength = wvl\<rparr>)))"

subsection \<open>Adding a region\<close>

text \<open>
  The closed form of a one-dimensional region at entry \<open>i\<close>: the edge length for order 0,
  \<^verbatim>\<open>-(exp(-w*dst) - exp(-w*org)) / w\<close> with \<^verbatim>\<open>w = 2*M_PI*j*frq(i)\<close> otherwise.
\<close>

definition value_1d :: "int \<Rightarrow> real \<Rightarrow> real \<Rightarrow> real \<Rightarrow> complex" where
  "value_1d k frq dstv orgv =
     (if k = 0 then complex_of_real (dstv - orgv)
      else
        (let w = 2 * complex_of_real pi * \<i> * complex_of_real frq
         in - (exp (- w * complex_of_real dstv) - exp (- w * complex_of_real orgv)) / w))"

text \<open>
  \<^verbatim>\<open>Diffraction::_add_1d_region\<close>.  \<^verbatim>\<open>values(i)\<close> is the linear, bounds-checked access; the
  loop runs over the order vector of the region's axis.
\<close>

definition add_1d_region :: "Diffraction \<Rightarrow> Region \<Rightarrow> complex \<Rightarrow> error + Diffraction" where
  "add_1d_region d region factor =
     (case edges (geometry region) of
        [] \<Rightarrow> Inl OutOfRange
      | r # rest \<Rightarrow>
          if axis (geometry region) = DIM_2D then Inl RuntimeError
          else
            (let ax = dimension_value (axis (geometry region));
                 dstv = Point2d_index (dst r) ax;
                 orgv = Point2d_index (org r) ax;
                 k = (if axis (geometry region) = DIM_1D_X then d_kx d else d_ky d);
                 frq = (if axis (geometry region) = DIM_1D_X then d_frqx d else d_frqy d)
             in if length (d_values d) < length k then Inl OutOfRange
                else Inr (d\<lparr>d_values :=
                            foldl (\<lambda>vals i. vals[i := vals ! i
                                                     + factor * value_1d (k ! i) (frq ! i) dstv orgv])
                                  (d_values d) [0..<length k]\<rparr>)))"

text \<open>
  \<^verbatim>\<open>Diffraction::_calc_2d_region\<close>, one edge.  It is called with \<open>frqx = kx / pitch.x\<close> and
  \<open>frqy = ky / pitch.y\<close>, so \<open>wx\<close> and \<open>wy\<close> are non-zero in the branches that divide by them.
\<close>

definition edge_value_2d :: "Edge2d \<Rightarrow> int \<Rightarrow> int \<Rightarrow> real \<Rightarrow> real \<Rightarrow> complex" where
  "edge_value_2d e kx ky frqx frqy =
     (let dx = Edge2d_dx e in
      if dx = 0 then 0
      else
        (let dy = Edge2d_dy e;
             s = dy / dx;
             b = p_y (dst e) - s * p_x (dst e);
             wx = 2 * complex_of_real pi * \<i> * complex_of_real frqx;
             wy = 2 * complex_of_real pi * \<i> * complex_of_real frqy;
             x0 = complex_of_real (p_x (org e));
             x1 = complex_of_real (p_x (dst e));
             cs = complex_of_real s;
             cb = complex_of_real b;
             cdx = complex_of_real dx
         in if kx = 0 \<and> ky = 0 then complex_of_real (Edge2d_area e)
            else if kx = 0 \<and> ky \<noteq> 0 then
              (if dy = 0 then cdx / wy * (1 - exp (- wy * cb))
               else cdx / wy + (exp (- wy * cb) / cs / wy / wy)
                                * (exp (- cs * wy * x1) - exp (- cs * wy * x0)))
            else if kx \<noteq> 0 \<and> ky = 0 then
              (if dy = 0 then cb / wx * (exp (- wx * x0) - exp (- wx * x1))
               else (cs + wx * cb) * (exp (- wx * x0) - exp (- wx * x1)) / wx / wx
                    + cs * (exp (- wx * x0) * x0 - exp (- wx * x1) * x1) / wx)
            else
              (if dy = 0 then
                 (1 - exp (- wy * cb)) * (exp (- wx * x0) - exp (- wx * x1)) / wx / wy
               else if wx + cs * wy = 0 then
                 (exp (- wx * x0) - exp (- wx * x1)) / wx / wy - cdx * exp (- wy * cb) / wy
               else
                 (exp (- wx * x0) - exp (- wx * x1)) / wx / wy
                 + exp (- wy * cb) / wy
                   * (exp (- (wx + cs * wy) * x1) - exp (- (wx + cs * wy) * x0))
                   / (wx + cs * wy))))"

definition calc_2d_region :: "Region \<Rightarrow> int \<Rightarrow> int \<Rightarrow> real \<Rightarrow> real \<Rightarrow> complex" where
  "calc_2d_region region kx ky frqx frqy =
     foldl (\<lambda>result e. result + edge_value_2d e kx ky frqx frqy) 0 (edges (geometry region))"

definition within_circle3 :: "real \<Rightarrow> real \<Rightarrow> real \<Rightarrow> bool" where
  "within_circle3 dx dy r =
     (let adx = \<bar>dx\<bar>; ady = \<bar>dy\<bar>
      in if adx + ady \<le> r then True
         else if r < adx \<or> r < ady then False
         else if adx * adx + ady * ady \<le> r * r then True
         else False)"

definition within_circle :: "real \<Rightarrow> real \<Rightarrow> real \<Rightarrow> real \<Rightarrow> real \<Rightarrow> bool" where
  "within_circle x y cx cy r = within_circle3 (x - cx) (y - cy) r"

text \<open>
  \<^verbatim>\<open>Diffraction::_add_2d_region\<close>.  The loops run over the non-zero source points, then the
  columns, then the rows; the state is the value matrix and the matrix of flags
  \<^verbatim>\<open>calculated\<close>.  Reading a source grid vector beyond its end is refused by Armadillo.
\<close>

fun source_points :: "SourceShape \<Rightarrow> real \<Rightarrow> (nat \<times> nat) list \<Rightarrow> error + (real \<times> real) list" where
  "source_points src na [] = Inr []"
| "source_points src na ((row, col) # rest) =
     (if length (ss_cx src) \<le> col \<or> length (ss_cy src) \<le> row then Inl OutOfRange
      else (case source_points src na rest of
              Inl e \<Rightarrow> Inl e
            | Inr ps \<Rightarrow> Inr ((na * ss_cx src ! col, na * ss_cy src ! row) # ps)))"

definition add_2d_step ::
  "Diffraction \<Rightarrow> Region \<Rightarrow> complex \<Rightarrow> complex list \<times> bool list \<Rightarrow> (real \<times> real) \<times> nat \<times> nat
   \<Rightarrow> complex list \<times> bool list" where
  "add_2d_step d region factor state visit =
     (case state of (vals, calculated) \<Rightarrow>
      case visit of ((scx, scy), c, r) \<Rightarrow>
        (let idx = c * d_rows d + r
         in if \<not> calculated ! idx \<and>
               (d_cxy d ! idx \<le> d_numeric_aperture d \<or>
                within_circle (d_cx d ! c) (d_cy d ! r) scx scy (d_numeric_aperture d))
            then (vals[idx := vals ! idx
                         + factor * calc_2d_region region (d_kx d ! c) (d_ky d ! r)
                                      (d_frqx d ! c) (d_frqy d ! r)],
                  calculated[idx := True])
            else (vals, calculated)))"

definition visits_2d :: "Diffraction \<Rightarrow> (real \<times> real) list \<Rightarrow> ((real \<times> real) \<times> nat \<times> nat) list" where
  "visits_2d d points =
     concat (map (\<lambda>p. concat (map (\<lambda>c. map (\<lambda>r. (p, c, r)) [0..<length (d_ky d)])
                                   [0..<length (d_kx d)]))
                 points)"

definition add_2d_region :: "Diffraction \<Rightarrow> Region \<Rightarrow> complex \<Rightarrow> error + Diffraction" where
  "add_2d_region d region factor =
     (case source_points (d_source_shape d) (d_numeric_aperture d)
             (non_zeros (d_source_shape d)) of
        Inl e \<Rightarrow> Inl e
      | Inr points \<Rightarrow>
          Inr (d\<lparr>d_values :=
                  fst (foldl (add_2d_step d region factor)
                         (d_values d, replicate (length (d_values d)) False)
                         (visits_2d d points))\<rparr>))"

text \<open>
  \<^verbatim>\<open>Diffraction::add_region\<close>: the factor is divided by the pitch of the region's axis, or
  by both pitches for a two-dimensional region.  The source divides without a test.
\<close>

definition add_region :: "Diffraction \<Rightarrow> Region \<Rightarrow> complex \<Rightarrow> error + Diffraction" where
  "add_region d region factor =
     (if axis (geometry region) = DIM_2D then
        (if p_x (d_pitch d) = 0 \<or> p_y (d_pitch d) = 0 then Inl NonFinite
         else add_2d_region d region
                (factor / complex_of_real (p_x (d_pitch d)) / complex_of_real (p_y (d_pitch d))))
      else
        (let p = Point2d_index (d_pitch d) (dimension_value (axis (geometry region)))
         in if p = 0 then Inl NonFinite
            else add_1d_region d region (factor / complex_of_real p)))"

subsection \<open>The diffraction stage\<close>

text \<open>The loop of \<^verbatim>\<open>diffraction\<close> over the regions, with the background transmission \<open>tb\<close>.\<close>

fun add_regions :: "Diffraction \<Rightarrow> complex \<Rightarrow> Region list \<Rightarrow> error + Diffraction" where
  "add_regions d tb [] = Inr d"
| "add_regions d tb (region # rest) =
     (case etransmit_of (transmittance region) (phase region) of
        Inl e \<Rightarrow> Inl e
      | Inr tr \<Rightarrow>
          (case add_region d region (tr - tb) of
             Inl e \<Rightarrow> Inl e
           | Inr d1 \<Rightarrow> add_regions d1 tb rest))"

text \<open>
  \<^verbatim>\<open>values->elem(arma::find(*cxy == 0.0)) += factor\<close>: the background is added at every
  linear index where the direction-cosine magnitude is exactly 0.
\<close>

definition add_background :: "complex \<Rightarrow> Diffraction \<Rightarrow> Diffraction" where
  "add_background factor d =
     d\<lparr>d_values := map (\<lambda>i. if d_cxy d ! i = 0 then d_values d ! i + factor else d_values d ! i)
                        [0..<length (d_values d)]\<rparr>"

definition diffraction :: "ImagingTool \<Rightarrow> Mask \<Rightarrow> error + Diffraction" where
  "diffraction tool msk =
     (if is_bad msk then Inl InvalidArgument
      else case Diffraction_new msk tool of
             Inl e \<Rightarrow> Inl e
           | Inr d0 \<Rightarrow>
          (case etransmit_of (box_transmittance (mask_boundary msk))
                  (box_phase (mask_boundary msk)) of
             Inl e \<Rightarrow> Inl e
           | Inr tb \<Rightarrow>
               (case add_regions d0 tb (mask_regions msk) of
                  Inl e \<Rightarrow> Inl e
                | Inr d1 \<Rightarrow>
                    if \<not> is_opaque msk then Inr (add_background tb d1) else Inr d1)))"

text \<open>
  The contribution of one region: what \<^verbatim>\<open>add_region\<close> writes into a grid whose values are
  all 0.
\<close>

definition region_term :: "Diffraction \<Rightarrow> complex \<Rightarrow> Region \<Rightarrow> complex list" where
  "region_term d0 tb region =
     (case etransmit_of (transmittance region) (phase region) of
        Inl e \<Rightarrow> []
      | Inr tr \<Rightarrow>
          (case add_region (d0\<lparr>d_values := replicate (length (d_values d0)) 0\<rparr>) region (tr - tb) of
             Inl e \<Rightarrow> []
           | Inr d \<Rightarrow> d_values d))"

subsection \<open>The line mask and the coherent source of the plugins\<close>

text \<open>
  \<^verbatim>\<open>plugins/src/masks/line1D.c\<close>: the boundary runs from \<open>-pitch/2\<close> to \<open>pitch/2\<close> with
  transmittance 1 and phase 0, the single region from \<open>-feature_width/2\<close> to
  \<open>feature_width/2\<close> with transmittance 0 and phase 0; the \<open>y\<close> coordinates stay at the 0
  of \<^verbatim>\<open>calloc\<close>.  The mask is then built by the \<^verbatim>\<open>Region\<close> and \<^verbatim>\<open>Mask\<close> constructors.
\<close>

definition line1D :: "real \<Rightarrow> real \<Rightarrow> error + Mask" where
  "line1D feature_width pitch =
     (case Region_new [\<lparr>p_x = - feature_width / 2, p_y = 0\<rparr>,
                       \<lparr>p_x = feature_width / 2, p_y = 0\<rparr>] 0 0 of
        Inl e \<Rightarrow> Inl e
      | Inr region \<Rightarrow>
          Mask_new [region]
            \<lparr>diag = \<lparr>org = \<lparr>p_x = - pitch / 2, p_y = 0\<rparr>, dst = \<lparr>p_x = pitch / 2, p_y = 0\<rparr>\<rparr>,
             box_transmittance = 1, box_phase = 0\<rparr>)"

text \<open>The mask that \<open>line1D 250 800\<close> returns.\<close>

definition line_mask :: Mask where
  "line_mask =
     \<lparr>mask_boundary =
        \<lparr>diag = \<lparr>org = \<lparr>p_x = - 400, p_y = 0\<rparr>, dst = \<lparr>p_x = 400, p_y = 0\<rparr>\<rparr>,
         box_transmittance = 1, box_phase = 0\<rparr>,
      mask_regions =
        [\<lparr>geometry = \<lparr>edges = [\<lparr>org = \<lparr>p_x = - 125, p_y = 0\<rparr>, dst = \<lparr>p_x = 125, p_y = 0\<rparr>\<rparr>],
                       axis = DIM_1D_X\<rparr>,
          transmittance = 0, phase = 0\<rparr>],
      mask_sizes = \<lparr>p_x = 800, p_y = 0\<rparr>\<rparr>"

text \<open>
  \<^verbatim>\<open>plugins/src/source_shapes/coherent.c\<close> with both tilts 0, on the source grid of step 1
  (direction cosines \<open>-1, 0, 1\<close>): the only non-zero point is the origin, at row 1 and
  column 1, so all four limits of the support are 0.
\<close>

definition coherent_source :: SourceShape where
  "coherent_source =
     \<lparr>ss_cx = [- 1, 0, 1], ss_cy = [- 1, 0, 1], non_zeros = [(1, 1)],
      sx_min = 0, sx_max = 0, sy_min = 0, sy_max = 0\<rparr>"

text \<open>The imaging tool at wavelength 248 nm and numerical aperture 0.6.\<close>

definition line_tool :: "SourceShape \<Rightarrow> ImagingTool" where
  "line_tool src =
     \<lparr>it_source_shape = src, it_wavelength = 248, it_numeric_aperture = 6 / 10\<rparr>"

text \<open>
  The empty grid of the line mask under that tool: the orders \<open>-1, 0, 1\<close> along \<open>x\<close> and
  the single order 0 along \<open>y\<close>.
\<close>

definition line_grid :: "SourceShape \<Rightarrow> Diffraction" where
  "line_grid src =
     \<lparr>d_values = [0, 0, 0], d_rows = 1, d_cols = 3,
      d_frqx = [- 1 / 800, 0, 1 / 800], d_frqy = [0],
      d_kx = [- 1, 0, 1], d_ky = [0],
      d_cxy = [248 / 800, 0, 248 / 800],
      d_cx = [- 248 / 800, 0, 248 / 800], d_cy = [0],
      d_source_shape = src, d_pitch = \<lparr>p_x = 800, p_y = 0\<rparr>,
      d_numeric_aperture = 6 / 10, d_wavelength = 248\<rparr>"

text \<open>
  A mask in the plane: a square region of side 200 with transmittance 0, centred on a
  boundary of 800 by 800 with transmittance 1, as the \<^verbatim>\<open>Region\<close> and \<^verbatim>\<open>Mask\<close> constructors
  build it (the bypass of the region made clockwise), and its empty grid under the same
  tool, with the orders \<open>-1, 0, 1\<close> along both axes.
\<close>

definition square_mask :: Mask where
  "square_mask =
     \<lparr>mask_boundary =
        \<lparr>diag = \<lparr>org = \<lparr>p_x = - 400, p_y = - 400\<rparr>, dst = \<lparr>p_x = 400, p_y = 400\<rparr>\<rparr>,
         box_transmittance = 1, box_phase = 0\<rparr>,
      mask_regions =
        [\<lparr>geometry =
            \<lparr>edges =
               [\<lparr>org = \<lparr>p_x = - 100, p_y = - 100\<rparr>, dst = \<lparr>p_x = - 100, p_y = 100\<rparr>\<rparr>,
                \<lparr>org = \<lparr>p_x = - 100, p_y = 100\<rparr>, dst = \<lparr>p_x = 100, p_y = 100\<rparr>\<rparr>,
                \<lparr>org = \<lparr>p_x = 100, p_y = 100\<rparr>, dst = \<lparr>p_x = 100, p_y = - 100\<rparr>\<rparr>,
                \<lparr>org = \<lparr>p_x = 100, p_y = - 100\<rparr>, dst = \<lparr>p_x = - 100, p_y = - 100\<rparr>\<rparr>],
             axis = DIM_2D\<rparr>,
          transmittance = 0, phase = 0\<rparr>],
      mask_sizes = \<lparr>p_x = 800, p_y = 800\<rparr>\<rparr>"

definition square_grid :: "SourceShape \<Rightarrow> Diffraction" where
  "square_grid src =
     \<lparr>d_values = replicate 9 0, d_rows = 3, d_cols = 3,
      d_frqx = [- 1 / 800, 0, 1 / 800], d_frqy = [- 1 / 800, 0, 1 / 800],
      d_kx = [- 1, 0, 1], d_ky = [- 1, 0, 1],
      d_cxy = init_cosines [- 248 / 800, 0, 248 / 800] [- 248 / 800, 0, 248 / 800],
      d_cx = [- 248 / 800, 0, 248 / 800], d_cy = [- 248 / 800, 0, 248 / 800],
      d_source_shape = src, d_pitch = \<lparr>p_x = 800, p_y = 800\<rparr>,
      d_numeric_aperture = 6 / 10, d_wavelength = 248\<rparr>"

subsection \<open>The closed forms of the specification\<close>

text \<open>
  The specification gives the contribution of a region as the weight
  \<open>(t\<^sub>r - t\<^sub>b) / area_norm\<close> times a closed form.  For a one-dimensional region and the
  order \<open>k\<close> of frequency \<open>f\<close> the closed form is the edge length when \<open>k = 0\<close> and
  \<open>-(exp(-w\<cdot>dst) - exp(-w\<cdot>org)) / w\<close> with \<open>w = 2\<pi>j\<cdot>f\<close> otherwise.  For a region in the plane
  and the zero order it is the sum over the edges of the trapezoid
  \<open>(x\<^sub>1 - x\<^sub>0)\<cdot>(y\<^sub>1 + y\<^sub>0) / 2\<close>, which is 0 on a vertical edge.  These two definitions are
  written from the specification, not from the source.
\<close>

definition spec_order_1d :: "int \<Rightarrow> real \<Rightarrow> real \<Rightarrow> real \<Rightarrow> complex" where
  "spec_order_1d k f dstv orgv =
     (if k = 0 then complex_of_real (dstv - orgv)
      else - (exp (- (2 * complex_of_real pi * \<i> * complex_of_real f) * complex_of_real dstv)
              - exp (- (2 * complex_of_real pi * \<i> * complex_of_real f) * complex_of_real orgv))
           / (2 * complex_of_real pi * \<i> * complex_of_real f))"

definition spec_zero_order_2d :: "Edge2d list \<Rightarrow> real" where
  "spec_zero_order_2d es =
     (\<Sum>e\<leftarrow>es. (p_x (dst e) - p_x (org e)) * (p_y (dst e) + p_y (org e)) / 2)"

subsection \<open>Element-wise sums of value vectors\<close>

text \<open>The values \<open>xs\<close> with the vector \<open>u\<close> added element by element.\<close>

definition vadd :: "complex list \<Rightarrow> complex list \<Rightarrow> complex list" where
  "vadd xs u = map (\<lambda>i. xs ! i + u ! i) [0..<length xs]"

section \<open>Properties of the geometry\<close>

subsection \<open>Orientation\<close>

lemma Edge2d_area_flip: "Edge2d_area (Edge2d_flip e) = - Edge2d_area e"
  by (simp add: Edge2d_area_def Edge2d_flip_def Edge2d_dx_def field_simps)

lemma foldl_area_shift:
  "foldl (\<lambda>result edge. result + Edge2d_area edge) a es = a + sum_list (map Edge2d_area es)"
  by (induction es arbitrary: a) simp_all

lemma sum_area_reversed:
  "sum_list (map (Edge2d_area \<circ> Edge2d_flip) (rev es)) = - sum_list (map Edge2d_area es)"
proof (induction es)
  case Nil
  show ?case by simp
next
  case (Cons e es)
  then show ?case by (simp add: Edge2d_area_flip)
qed

lemma length_chain_edges: "length (chain_edges p ps) = length ps"
  by (induction ps arbitrary: p) simp_all

lemma PolygonGeometry_well_formed:
  assumes "PolygonGeometry points = Inr g"
  shows "well_formed g"
  using assms
  by (auto simp: PolygonGeometry_def well_formed_def Let_def is_2d_possible_def
      length_chain_edges split: if_splits)

lemma signed_area_defined:
  assumes "well_formed g"
  obtains a where "signed_area g = Inr a"
proof (cases "axis g = DIM_2D")
  case True
  then show ?thesis using that by (simp add: signed_area_def)
next
  case False
  with assms obtain e where "edges g = [e]"
    by (auto simp: well_formed_def length_Suc_conv)
  with False show ?thesis using that by (simp add: signed_area_def)
qed

lemma signed_area_reversed:
  assumes "well_formed g" and "signed_area g = Inr a"
  shows "signed_area (g\<lparr>edges := map Edge2d_flip (rev (edges g))\<rparr>) = Inr (- a)"
proof (cases "axis g = DIM_2D")
  case True
  with assms(2) show ?thesis
    by (simp add: signed_area_def foldl_area_shift sum_area_reversed)
next
  case False
  with assms(1) obtain e where "edges g = [e]"
    by (auto simp: well_formed_def length_Suc_conv)
  with False assms(2) show ?thesis
    by (auto simp: signed_area_def Edge2d_flip_def)
qed

lemma area_after_bypass_value:
  assumes "well_formed g" and "signed_area g = Inr a"
  shows "area_after_bypass d g = Inr (if rotation_value d * a < 0 then - a else a)"
  using assms signed_area_reversed [OF assms]
  by (simp add: area_after_bypass_def set_bypass_def)

text \<open>
  C9 (as amended).  For every well-formed polygon, one- or two-dimensional, the signed area
  after \<^verbatim>\<open>set_bypass(CW)\<close> is \<open>\<ge> 0\<close> and after \<^verbatim>\<open>set_bypass(CCW)\<close> it is \<open>\<le> 0\<close>
  (\<^verbatim>\<open>CW = 1\<close>, \<^verbatim>\<open>CCW = -1\<close>, and the edge area \<open>dx \<cdot> (y\<^sub>0 + y\<^sub>1) / 2\<close> is positive for a
  clockwise chain).  The call reverses the edge order and flips every edge exactly when
  \<open>direction \<cdot> area < 0\<close>, and leaves the polygon alone otherwise.
\<close>

theorem set_bypass_orientation:
  assumes "well_formed g"
  shows "(\<exists>a. signed_area g = Inr a \<and>
              set_bypass d g =
                Inr (rotation_value d * a < 0,
                     if rotation_value d * a < 0
                     then g\<lparr>edges := map Edge2d_flip (rev (edges g))\<rparr> else g)) \<and>
         (\<exists>a'. area_after_bypass CW g = Inr a' \<and> 0 \<le> a') \<and>
         (\<exists>a'. area_after_bypass CCW g = Inr a' \<and> a' \<le> 0)"
proof -
  from assms obtain a where a: "signed_area g = Inr a"
    by (rule signed_area_defined)
  have first: "set_bypass d g =
      Inr (rotation_value d * a < 0,
           if rotation_value d * a < 0
           then g\<lparr>edges := map Edge2d_flip (rev (edges g))\<rparr> else g)"
    using a by (simp add: set_bypass_def)
  have cw: "area_after_bypass CW g = Inr (if a < 0 then - a else a)"
    using area_after_bypass_value [OF assms a, of CW] by simp
  have ccw: "area_after_bypass CCW g = Inr (if 0 < a then - a else a)"
    using area_after_bypass_value [OF assms a, of CCW] by simp
  from a first cw ccw show ?thesis by auto
qed

theorem set_bypass_orientation_witness:
  "well_formed \<lparr>edges = [\<lparr>org = \<lparr>p_x = 1, p_y = 0\<rparr>, dst = \<lparr>p_x = 0, p_y = 0\<rparr>\<rparr>],
                 axis = DIM_1D_X\<rparr> \<and>
   (\<exists>a'. area_after_bypass CW
            \<lparr>edges = [\<lparr>org = \<lparr>p_x = 1, p_y = 0\<rparr>, dst = \<lparr>p_x = 0, p_y = 0\<rparr>\<rparr>],
             axis = DIM_1D_X\<rparr> = Inr a' \<and> 0 \<le> a')"
  using set_bypass_orientation
    [of "\<lparr>edges = [\<lparr>org = \<lparr>p_x = 1, p_y = 0\<rparr>, dst = \<lparr>p_x = 0, p_y = 0\<rparr>\<rparr>],
           axis = DIM_1D_X\<rparr>" CW]
  by (simp add: well_formed_def)

text \<open>
  The claim as first stated (area \<open>\<le> 0\<close> after \<^verbatim>\<open>set_bypass(CW)\<close>) fails on the one-edge
  polygon built from the points \<open>(0, 0)\<close> and \<open>(1, 0)\<close>: its edge runs from \<open>(1, 0)\<close> to
  \<open>(0, 0)\<close>, \<^verbatim>\<open>set_bypass(CW)\<close> turns it around, and the signed area is then \<open>1\<close>.
\<close>

theorem set_bypass_cw_counterexample:
  "PolygonGeometry [\<lparr>p_x = 0, p_y = 0\<rparr>, \<lparr>p_x = 1, p_y = 0\<rparr>] =
     Inr \<lparr>edges = [\<lparr>org = \<lparr>p_x = 1, p_y = 0\<rparr>, dst = \<lparr>p_x = 0, p_y = 0\<rparr>\<rparr>],
          axis = DIM_1D_X\<rparr> \<and>
   area_after_bypass CW
     \<lparr>edges = [\<lparr>org = \<lparr>p_x = 1, p_y = 0\<rparr>, dst = \<lparr>p_x = 0, p_y = 0\<rparr>\<rparr>],
      axis = DIM_1D_X\<rparr> = Inr 1 \<and>
   \<not> (1::real) \<le> 0"
  by (simp add: PolygonGeometry_def is_1d_possible_def Edge2d_is_horizontal_def
      Edge2d_is_vertical_def area_after_bypass_def set_bypass_def signed_area_def
      Point2d_index_def Edge2d_flip_def)

subsection \<open>Equality of points in space\<close>

text \<open>
  C10.  \<^verbatim>\<open>Point3d::operator==\<close> holds exactly when the \<open>x\<close> and the \<open>y\<close> coordinates agree:
  two points that differ only in \<open>z\<close> compare equal, and \<^verbatim>\<open>operator!=\<close> is false for them.
  \<^verbatim>\<open>Edge3d::operator==\<close> and \<^verbatim>\<open>Triangle3d::operator==\<close> are built on it and ignore \<open>z\<close> as
  well.
\<close>

theorem Point3d_eq_ignores_z:
  "(Point3d_eq p q \<longleftrightarrow> q_x p = q_x q \<and> q_y p = q_y q) \<and>
   Point3d_eq (p\<lparr>q_z := z1\<rparr>) (p\<lparr>q_z := z2\<rparr>) \<and>
   \<not> Point3d_neq (p\<lparr>q_z := z1\<rparr>) (p\<lparr>q_z := z2\<rparr>) \<and>
   (Edge3d_eq e f \<longleftrightarrow>
      q_x (org3 e) = q_x (org3 f) \<and> q_y (org3 e) = q_y (org3 f) \<and>
      q_x (dst3 e) = q_x (dst3 f) \<and> q_y (dst3 e) = q_y (dst3 f)) \<and>
   Triangle3d_eq t u =
     Inr (q_x (tri_a t) = q_x (tri_a u) \<and> q_y (tri_a t) = q_y (tri_a u) \<and>
          q_x (tri_b t) = q_x (tri_b u) \<and> q_y (tri_b t) = q_y (tri_b u) \<and>
          q_x (tri_c t) = q_x (tri_c u) \<and> q_y (tri_c t) = q_y (tri_c u))"
  by (auto simp: Point3d_eq_def Point3d_neq_def Edge3d_eq_def Triangle3d_eq_def
      Triangle3d_index_def)

theorem Point3d_eq_ignores_z_witness:
  "Point3d_eq \<lparr>q_x = 1, q_y = 2, q_z = 3\<rparr> \<lparr>q_x = 1, q_y = 2, q_z = 4\<rparr> \<and>
   \<not> Point3d_neq \<lparr>q_x = 1, q_y = 2, q_z = 3\<rparr> \<lparr>q_x = 1, q_y = 2, q_z = 4\<rparr> \<and>
   Triangle3d_eq
     \<lparr>tri_a = \<lparr>q_x = 0, q_y = 0, q_z = 0\<rparr>, tri_b = \<lparr>q_x = 1, q_y = 0, q_z = 0\<rparr>,
      tri_c = \<lparr>q_x = 0, q_y = 1, q_z = 0\<rparr>\<rparr>
     \<lparr>tri_a = \<lparr>q_x = 0, q_y = 0, q_z = 5\<rparr>, tri_b = \<lparr>q_x = 1, q_y = 0, q_z = 6\<rparr>,
      tri_c = \<lparr>q_x = 0, q_y = 1, q_z = 7\<rparr>\<rparr> = Inr True"
  using Point3d_eq_ignores_z
    [of "\<lparr>q_x = 1, q_y = 2, q_z = 3\<rparr>" "\<lparr>q_x = 1, q_y = 2, q_z = 4\<rparr>" 3 4
        "\<lparr>org3 = \<lparr>q_x = 1, q_y = 2, q_z = 3\<rparr>, dst3 = \<lparr>q_x = 1, q_y = 2, q_z = 3\<rparr>\<rparr>"
        "\<lparr>org3 = \<lparr>q_x = 1, q_y = 2, q_z = 3\<rparr>, dst3 = \<lparr>q_x = 1, q_y = 2, q_z = 3\<rparr>\<rparr>"
        "\<lparr>tri_a = \<lparr>q_x = 0, q_y = 0, q_z = 0\<rparr>, tri_b = \<lparr>q_x = 1, q_y = 0, q_z = 0\<rparr>,
          tri_c = \<lparr>q_x = 0, q_y = 1, q_z = 0\<rparr>\<rparr>"
        "\<lparr>tri_a = \<lparr>q_x = 0, q_y = 0, q_z = 5\<rparr>, tri_b = \<lparr>q_x = 1, q_y = 0, q_z = 6\<rparr>,
          tri_c = \<lparr>q_x = 0, q_y = 1, q_z = 7\<rparr>\<rparr>"]
  by simp


section \<open>Properties of the wafer stack\<close>

subsection \<open>Stack invariants\<close>

lemma push_fails_iff:
  "fst (push layer ws) = Some InvalidArgument \<longleftrightarrow>
     (layers ws = [] \<and> \<not> is_substrate layer) \<or> environment ws \<noteq> None \<or>
     (resist ws \<noteq> None \<and> is_resist layer) \<or>
     (resist ws \<noteq> None \<and> \<not> is_environment layer)"
  by (auto simp: push_def Let_def)

lemma push_failure_keeps_stack:
  assumes "fst (push layer ws) \<noteq> None"
  shows "push layer ws = (Some InvalidArgument, ws)"
  using assms by (auto simp: push_def Let_def split: if_splits)

lemma push_success_inserts:
  assumes "fst (push layer ws) = None"
  shows "layers (snd (push layer ws)) = layer # layers ws"
  using assms by (auto simp: push_def Let_def split: if_splits)

lemma int_less_pow2: "n < 2 ^ k \<Longrightarrow> int n < 2 ^ k"
  using of_nat_less_iff [of n "2 ^ k", where ?'a = int] by simp

lemma reflectivity_guard_nonempty:
  assumes "layers ws \<noteq> []" and "length (layers ws) < 2 ^ size_bits"
  shows "reflectivity_guard size_bits indx ws \<longleftrightarrow> indx = 0 \<or> length (layers ws) - 1 < indx"
proof -
  from assms(1) have pos: "0 < length (layers ws)" by simp
  have "int (length (layers ws)) - 1 < 2 ^ size_bits"
    using int_less_pow2 [OF assms(2)] by linarith
  moreover from pos have "0 \<le> int (length (layers ws)) - 1" by simp
  ultimately have "(int (length (layers ws)) - 1) mod 2 ^ size_bits = int (length (layers ws)) - 1"
    by simp
  then show ?thesis
    using pos by (auto simp: reflectivity_guard_def)
qed

lemma reflectivity_out_of_range_iff:
  "fst (reflectivity calc_bottom size_bits indx wavelength ws) = Inl OutOfRange \<longleftrightarrow>
     reflectivity_guard size_bits indx ws"
  by (auto simp: reflectivity_def Let_def split: prod.splits)

text \<open>
  \<^verbatim>\<open>push\<close> throws, and leaves the stack as it was, exactly when the first layer is not a
  substrate, the environment is already set, a second resist is pushed, or a layer other
  than the environment is pushed while a resist is set; otherwise the layer goes to the
  front of the layer list.  \<^verbatim>\<open>reflectivity\<close> throws \<^verbatim>\<open>std::out_of_range\<close> for index 0 and,
  on a stack that has a last layer, for every index beyond it, and in no other case.
\<close>

lemma push_and_reflectivity_errors:
  "(fst (push layer ws) = Some InvalidArgument \<longleftrightarrow>
      (layers ws = [] \<and> \<not> is_substrate layer) \<or> environment ws \<noteq> None \<or>
      (resist ws \<noteq> None \<and> is_resist layer) \<or>
      (resist ws \<noteq> None \<and> \<not> is_environment layer)) \<and>
   (fst (push layer ws) \<noteq> None \<longrightarrow> push layer ws = (Some InvalidArgument, ws)) \<and>
   (fst (push layer ws) = None \<longrightarrow> layers (snd (push layer ws)) = layer # layers ws) \<and>
   (indx = 0 \<longrightarrow>
      reflectivity calc_bottom size_bits indx wavelength ws = (Inl OutOfRange, ws)) \<and>
   (layers ws \<noteq> [] \<and> length (layers ws) < 2 ^ size_bits \<longrightarrow>
      (fst (reflectivity calc_bottom size_bits indx wavelength ws) = Inl OutOfRange \<longleftrightarrow>
         indx = 0 \<or> length (layers ws) - 1 < indx))"
proof -
  have zero: "indx = 0 \<longrightarrow>
      reflectivity calc_bottom size_bits indx wavelength ws = (Inl OutOfRange, ws)"
    by (simp add: reflectivity_def reflectivity_guard_def)
  show ?thesis
    using push_fails_iff [of layer ws] push_failure_keeps_stack [of layer ws]
      push_success_inserts [of layer ws] zero
      reflectivity_out_of_range_iff [of calc_bottom size_bits indx wavelength ws]
      reflectivity_guard_nonempty [of ws size_bits indx]
    by blast
qed

lemma push_and_reflectivity_errors_example:
  "fst (push \<lparr>layer_type = SUBSTRATE_LAYER, thickness = 0, refraction = (\<lambda>w. 1)\<rparr>
          WaferStack_new) = None \<and>
   layers (snd (push \<lparr>layer_type = SUBSTRATE_LAYER, thickness = 0, refraction = (\<lambda>w. 1)\<rparr>
          WaferStack_new)) =
     [\<lparr>layer_type = SUBSTRATE_LAYER, thickness = 0, refraction = (\<lambda>w. 1)\<rparr>] \<and>
   fst (reflectivity (\<lambda>ls c w. []) 64 0 248
          (snd (push \<lparr>layer_type = SUBSTRATE_LAYER, thickness = 0, refraction = (\<lambda>w. 1)\<rparr>
             WaferStack_new))) = Inl OutOfRange"
  using push_and_reflectivity_errors
    [of "\<lparr>layer_type = SUBSTRATE_LAYER, thickness = 0, refraction = (\<lambda>w. 1)\<rparr>"
        WaferStack_new 0 "\<lambda>ls c w. []" 64 248]
  by (simp add: push_def WaferStack_new_def is_substrate_def is_environment_def is_resist_def
      reflectivity_def reflectivity_guard_def)

text \<open>On an empty stack \<^verbatim>\<open>size()-1\<close> wraps, and the guard lets every index but 0 through.\<close>

lemma reflectivity_guard_empty:
  assumes "layers ws = []" and "indx < 2 ^ size_bits"
  shows "reflectivity_guard size_bits indx ws \<longleftrightarrow> indx = 0"
proof -
  have wrap: "(- 1 :: int) mod 2 ^ size_bits = 2 ^ size_bits - 1"
    by (simp add: zmod_minus1)
  have "\<not> 2 ^ size_bits - 1 < int indx"
    using int_less_pow2 [OF assms(2)] by linarith
  with wrap assms(1) show ?thesis
    by (simp add: reflectivity_guard_def)
qed

text \<open>
  C8 (the code at the failing input).  On the stack the default constructor builds, which
  has no layer, every index from 1 on is beyond the last layer, yet \<^verbatim>\<open>reflectivity\<close> does
  not throw: the guard compares the index with the wrapped \<^verbatim>\<open>size()-1\<close>, lets it through,
  and the next statement reads \<^verbatim>\<open>_layers[indx-1]\<close> of the empty vector.
\<close>

theorem reflectivity_unguarded_on_empty_stack:
  assumes "0 < indx" and "indx < 2 ^ size_bits"
  shows "reflectivity calc_bottom size_bits indx wavelength WaferStack_new
           = (Inl Undefined, WaferStack_new) \<and>
         length (layers WaferStack_new) - 1 < indx \<and>
         fst (reflectivity calc_bottom size_bits indx wavelength WaferStack_new)
           \<noteq> Inl OutOfRange"
proof -
  have empty: "layers WaferStack_new = []" by (simp add: WaferStack_new_def)
  have "\<not> reflectivity_guard size_bits indx WaferStack_new"
    using reflectivity_guard_empty [OF empty assms(2)] assms(1) by simp
  then have "reflectivity calc_bottom size_bits indx wavelength WaferStack_new
               = (Inl Undefined, WaferStack_new)"
    by (simp add: reflectivity_def empty)
  then show ?thesis using assms(1) by (simp add: empty)
qed

theorem reflectivity_unguarded_on_empty_stack_witness:
  "reflectivity (\<lambda>ls c w. []) 64 1 248 WaferStack_new = (Inl Undefined, WaferStack_new) \<and>
   fst (reflectivity (\<lambda>ls c w. []) 64 1 248 WaferStack_new) \<noteq> Inl OutOfRange"
  using reflectivity_unguarded_on_empty_stack [of 1 64 "\<lambda>ls c w. []" 248]
  by simp

subsection \<open>Reflection caches\<close>

lemma top_query_repeatable:
  "fst (effective_top_reflection calc_top cx cy wl
          (snd (effective_top_reflection calc_top cx cy wl ws))) =
   fst (effective_top_reflection calc_top cx cy wl ws)"
  by (auto simp: effective_top_reflection_def Let_def split: option.splits)











text \<open>
  The private \<^verbatim>\<open>effective_top_reflection\<close> shares the stamp with the bottom-looking query
  and clears only its own cache.  Were it called between two wavelengths of the other
  query, it would return the vector of the old wavelength; no caller exists.
\<close>

lemma private_top_query_shares_stamp:
  assumes "wl1 \<noteq> wl2" and "cached_wavelength ws \<noteq> wl1"
  shows "fst (effective_top_reflection calc_top cx cy wl2
            (snd (effective_bottom_reflection calc_bottom cx cy wl2
               (snd (effective_top_reflection calc_top cx cy wl1 ws))))) =
         calc_top (layers ws) (sqrt (cx * cx + cy * cy)) wl1"
  using assms
  by (auto simp: effective_top_reflection_def effective_bottom_reflection_def Let_def
      split: option.splits)


section \<open>Properties of exposure and bake\<close>

subsection \<open>Exposure\<close>

lemma latent_image_result:
  assumes "values_ptr img < length st"
  shows "latent_image st img resist_layer exposure =
     (st @ [(st ! values_ptr img)
              \<lparr>elem := (\<lambda>r c s. exp (- elem (st ! values_ptr img) r c s * dose exposure
                                       * dill_c (rl_exposure resist_layer)))\<rparr>],
      img\<lparr>values_ptr := length st\<rparr>)"
  by (simp add: latent_image_def ResistVolume_copy_def Let_def)

text \<open>
  C6.  \<^verbatim>\<open>latent_image\<close> returns a volume whose cube is a new allocation (its address is not
  one of the store before the call, and every cube of that store, the input among them, is
  left as it was).  The new cube has the extents of the input and holds
  \<open>exp (- I \<cdot> dose\<^sub>e\<^sub>f\<^sub>f \<cdot> C)\<close> element by element, with
  \<open>dose\<^sub>e\<^sub>f\<^sub>f = nominal_dose \<cdot> correctable\<close>; where \<open>I \<ge> 0\<close>, \<open>dose\<^sub>e\<^sub>f\<^sub>f \<ge> 0\<close> and \<open>C \<ge> 0\<close>
  the value lies in \<open>[0, 1]\<close>.
\<close>

theorem latent_image_dill:
  assumes "values_ptr img < length st"
  shows "values_ptr (snd (latent_image st img resist_layer exposure)) = length st \<and>
     length (fst (latent_image st img resist_layer exposure)) = Suc (length st) \<and>
     (\<forall>p<length st. fst (latent_image st img resist_layer exposure) ! p = st ! p) \<and>
     (let out = fst (latent_image st img resist_layer exposure) ! length st;
          inp = st ! values_ptr img
      in n_rows out = n_rows inp \<and> n_cols out = n_cols inp \<and> n_slices out = n_slices inp \<and>
         (\<forall>r c s. elem out r c s =
              exp (- (elem inp r c s * (nominal_dose exposure * correctable exposure)
                      * dill_c (rl_exposure resist_layer)))) \<and>
         (0 \<le> nominal_dose exposure * correctable exposure \<and>
          0 \<le> dill_c (rl_exposure resist_layer) \<longrightarrow>
            (\<forall>r c s. 0 \<le> elem inp r c s \<longrightarrow> 0 \<le> elem out r c s \<and> elem out r c s \<le> 1)))"
  unfolding latent_image_result [OF assms] Let_def
  by (auto simp: nth_append dose_def mult_nonneg_nonneg)

theorem latent_image_dill_witness:
  "values_ptr \<lparr>values_ptr = 0, rv_x = [0], rv_y = [0], rv_z = [0],
                stepx = 0, stepy = 0, stepz = 0\<rparr>
     < length [\<lparr>n_rows = 1, n_cols = 1, n_slices = 1, elem = (\<lambda>r c s. 2)\<rparr>] \<and>
   elem (fst (latent_image
                [\<lparr>n_rows = 1, n_cols = 1, n_slices = 1, elem = (\<lambda>r c s. 2)\<rparr>]
                \<lparr>values_ptr = 0, rv_x = [0], rv_y = [0], rv_z = [0],
                 stepx = 0, stepy = 0, stepz = 0\<rparr>
                \<lparr>rl_thickness = 8,
                 rl_exposure = \<lparr>erm_wavelength = 248, dill_a = 0, dill_b = 0,
                                dill_c = 1 / 10, erm_n = 1\<rparr>,
                 rl_peb = \<lparr>ea = 0, ln_ar = 0\<rparr>\<rparr>
                \<lparr>focus = 0, nominal_dose = 3, correctable = 1\<rparr>) ! 1) 0 0 0
     = exp (- (3 / 5)) \<and>
   fst (latent_image
          [\<lparr>n_rows = 1, n_cols = 1, n_slices = 1, elem = (\<lambda>r c s. 2)\<rparr>]
          \<lparr>values_ptr = 0, rv_x = [0], rv_y = [0], rv_z = [0],
           stepx = 0, stepy = 0, stepz = 0\<rparr>
          \<lparr>rl_thickness = 8,
           rl_exposure = \<lparr>erm_wavelength = 248, dill_a = 0, dill_b = 0,
                          dill_c = 1 / 10, erm_n = 1\<rparr>,
           rl_peb = \<lparr>ea = 0, ln_ar = 0\<rparr>\<rparr>
          \<lparr>focus = 0, nominal_dose = 3, correctable = 1\<rparr>) ! 0
     = \<lparr>n_rows = 1, n_cols = 1, n_slices = 1, elem = (\<lambda>r c s. 2)\<rparr>"
  using latent_image_dill
    [of "\<lparr>values_ptr = 0, rv_x = [0], rv_y = [0], rv_z = [0],
          stepx = 0, stepy = 0, stepz = 0\<rparr>"
        "[\<lparr>n_rows = 1, n_cols = 1, n_slices = 1, elem = (\<lambda>r c s. 2)\<rparr>]"
        "\<lparr>rl_thickness = 8,
          rl_exposure = \<lparr>erm_wavelength = 248, dill_a = 0, dill_b = 0,
                         dill_c = 1 / 10, erm_n = 1\<rparr>,
          rl_peb = \<lparr>ea = 0, ln_ar = 0\<rparr>\<rparr>"
        "\<lparr>focus = 0, nominal_dose = 3, correctable = 1\<rparr>"]
  by (simp add: Let_def)


subsection \<open>The bake kernel\<close>

text \<open>Rounding to binary64 in a known binade.\<close>

lemma ulp64_range:
  assumes "2 ^ k \<le> \<bar>x\<bar>" and "\<bar>x\<bar> < 2 ^ Suc k"
  shows "ulp64 x = 2 ^ k / 2 ^ 52"
proof -
  have pos: "0 < \<bar>x\<bar>"
    using assms(1) by (smt (verit) zero_less_power)
  have lo: "real k \<le> log 2 \<bar>x\<bar>"
    using assms(1) pos by (simp add: le_log_iff powr_realpow)
  have hi: "log 2 \<bar>x\<bar> < real k + 1"
  proof -
    have "\<bar>x\<bar> < 2 powr (real k + 1)"
      using assms(2) by (simp add: powr_add powr_realpow)
    then show ?thesis using pos by (simp add: log_less_iff)
  qed
  have "\<lfloor>log 2 \<bar>x\<bar>\<rfloor> = int k"
    using lo hi by (intro floor_unique) simp_all
  then have "ulp64 x = 2 powr (real k - 52)"
    by (simp add: ulp64_def)
  also have "\<dots> = 2 powr real k / 2 powr 52"
    by (simp add: powr_diff)
  also have "\<dots> = 2 ^ k / 2 ^ 52"
    by (simp add: powr_realpow)
  finally show ?thesis .
qed

lemma round_even_near:
  assumes "of_int n - 1 / 2 < y" and "y < of_int n + 1 / 2"
  shows "round_even y = n"
proof (cases "of_int n \<le> y")
  case True
  then have "\<lfloor>y\<rfloor> = n" using assms(2) by (intro floor_unique) simp_all
  then show ?thesis using assms(2) by (simp add: round_even_def Let_def)
next
  case False
  then have f: "\<lfloor>y\<rfloor> = n - 1" using assms(1) by (intro floor_unique) simp_all
  have "1 / 2 < y - of_int (n - 1)" using assms(1) by simp
  then show ?thesis unfolding round_even_def Let_def f by simp
qed

lemma rnd64_near:
  assumes "2 ^ k \<le> \<bar>x\<bar>" and "\<bar>x\<bar> < 2 ^ Suc k"
    and "of_int n - 1 / 2 < x * 2 ^ 52 / 2 ^ k" and "x * 2 ^ 52 / 2 ^ k < of_int n + 1 / 2"
  shows "rnd64 x = of_int n * 2 ^ k / 2 ^ 52"
proof -
  have nz: "x \<noteq> 0" using assms(1) by (smt (verit) zero_less_power abs_zero)
  have u: "ulp64 x = 2 ^ k / 2 ^ 52" by (rule ulp64_range [OF assms(1,2)])
  have q: "x / ulp64 x = x * 2 ^ 52 / 2 ^ k" by (simp add: u)
  have "round_even (x / ulp64 x) = n"
    unfolding q by (rule round_even_near [OF assms(3,4)])
  then show ?thesis using nz by (simp add: rnd64_def u)
qed

lemma rnd64_exact:
  assumes "2 ^ k \<le> \<bar>x\<bar>" and "\<bar>x\<bar> < 2 ^ Suc k" and "x * 2 ^ 52 / 2 ^ k = of_int n"
  shows "rnd64 x = x"
proof -
  have "rnd64 x = of_int n * 2 ^ k / 2 ^ 52"
    by (rule rnd64_near [OF assms(1,2)]) (use assms(3) in simp_all)
  also have "\<dots> = x" using assms(3) [symmetric] by simp
  finally show ?thesis .
qed

lemma dbl_small:
  "dbl 0 = Inr 0" "dbl 2 = Inr 2" "dbl 3 = Inr 3" "dbl 4 = Inr 4" "dbl 8 = Inr 8"
proof -
  show "dbl 0 = Inr 0" by (simp add: dbl_def rnd64_def)
  have "rnd64 2 = 2" by (rule rnd64_exact [of 1 2 "2 ^ 52"]) simp_all
  then show "dbl 2 = Inr 2" by (simp add: dbl_def)
  have "rnd64 3 = 3" by (rule rnd64_exact [of 1 3 "3 * 2 ^ 51"]) simp_all
  then show "dbl 3 = Inr 3" by (simp add: dbl_def)
  have "rnd64 4 = 4" by (rule rnd64_exact [of 2 4 "2 ^ 52"]) simp_all
  then show "dbl 4 = Inr 4" by (simp add: dbl_def)
  have "rnd64 8 = 8" by (rule rnd64_exact [of 3 8 "2 ^ 52"]) simp_all
  then show "dbl 8 = Inr 8" by (simp add: dbl_def)
qed

lemma dbl_of_rnd64:
  assumes "rnd64 x = y" and "\<bar>y\<bar> < 2 ^ 1024"
  shows "dbl x = Inr y"
  using assms by (simp add: dbl_def)

lemma sigma_on_grid_steps:
  assumes "dbl (3 * sigma) = Inr t" and "of_int \<lceil>t\<rceil> = c" and "fmod c step = fm"
    and "dbl (c - fm) = Inr d" and "dbl (d + step) = Inr sog"
  shows "sigma_on_grid sigma step = Inr sog"
  using assms by (simp add: sigma_on_grid_def Let_def)

lemma kernel_count_steps:
  assumes "dbl (2 * sog) = Inr t" and "dbl (t / step) = Inr q"
    and "- 1 < q" and "q < 2 ^ 32" and "trunc q = n"
  shows "kernel_count sog step = Inr ((nat n + 1) mod 2 ^ 32)"
  using assms by (simp add: kernel_count_def)

lemma sigma_on_grid_1_4: "sigma_on_grid 1 4 = Inr 4"
proof (rule sigma_on_grid_steps)
  show "dbl (3 * 1) = Inr 3" by (simp add: dbl_small)
  show "of_int \<lceil>3 :: real\<rceil> = (3 :: real)" by simp
  show "fmod 3 4 = 3" by (simp add: fmod_def trunc_def)
  show "dbl (3 - 3) = Inr 0" by (simp add: dbl_small)
  show "dbl (0 + 4) = Inr 4" by (simp add: dbl_small)
qed

lemma kernel_count_4_4: "kernel_count 4 4 = Inr 3"
proof -
  have "kernel_count 4 4 = Inr ((nat 2 + 1) mod 2 ^ 32)"
  proof (rule kernel_count_steps)
    show "dbl (2 * 4) = Inr 8" by (simp add: dbl_small)
    show "dbl (8 / 4) = Inr 2" by (simp add: dbl_small)
    show "- 1 < (2 :: real)" by simp
    show "(2 :: real) < 2 ^ 32" by simp
    show "trunc 2 = 2" by (simp add: trunc_def)
  qed
  then show ?thesis by simp
qed

lemma even_length_grid:
  "sigma_on_grid 10 (4691249611844267 / 2 ^ 51) = Inr (125 / 4)"
proof (rule sigma_on_grid_steps)
  have r30: "rnd64 30 = 30"
    by (rule rnd64_exact [of 4 30 "30 * 2 ^ 48"]) simp_all
  have "dbl 30 = Inr 30"
    by (rule dbl_of_rnd64 [OF r30]) simp
  then show "dbl (3 * 10) = Inr 30" by simp
  show "of_int \<lceil>30 :: real\<rceil> = (30 :: real)" by simp
  have fl: "\<lfloor>(30::real) / (4691249611844267 / 2 ^ 51)\<rfloor> = 14"
    by (intro floor_unique) simp_all
  show "fmod 30 (4691249611844267 / 2 ^ 51) = 938249922368851 / 2 ^ 50"
    unfolding fmod_def trunc_def using fl by simp
  have rd: "rnd64 (30 - 938249922368851 / 2 ^ 50) = 8209686820727467 / 2 ^ 48"
    using rnd64_near [of 4 "30 - 938249922368851 / 2 ^ 50" 8209686820727467] by simp
  show "dbl (30 - 938249922368851 / 2 ^ 50) = Inr (8209686820727467 / 2 ^ 48)"
    by (rule dbl_of_rnd64 [OF rd]) simp
  have rs: "rnd64 (8209686820727467 / 2 ^ 48 + 4691249611844267 / 2 ^ 51) = 125 / 4"
    using rnd64_near [of 4 "8209686820727467 / 2 ^ 48 + 4691249611844267 / 2 ^ 51"
                         8796093022208000] by simp
  show "dbl (8209686820727467 / 2 ^ 48 + 4691249611844267 / 2 ^ 51) = Inr (125 / 4)"
    by (rule dbl_of_rnd64 [OF rs]) simp
qed

lemma even_length_count:
  "kernel_count (125 / 4) (4691249611844267 / 2 ^ 51) = Inr 30"
proof -
  have "kernel_count (125 / 4) (4691249611844267 / 2 ^ 51) = Inr ((nat 29 + 1) mod 2 ^ 32)"
  proof (rule kernel_count_steps)
    have rt: "rnd64 (125 / 2) = 125 / 2"
      by (rule rnd64_exact [of 5 "125 / 2" "125 * 2 ^ 46"]) simp_all
    have "dbl (125 / 2) = Inr (125 / 2)"
      by (rule dbl_of_rnd64 [OF rt]) simp
    then show "dbl (2 * (125 / 4)) = Inr (125 / 2)" by simp
    have rq: "rnd64 (125 / 2 / (4691249611844267 / 2 ^ 51)) = 8444249301319679 / 2 ^ 48"
      using rnd64_near [of 4 "125 / 2 / (4691249611844267 / 2 ^ 51)" 8444249301319679] by simp
    show "dbl (125 / 2 / (4691249611844267 / 2 ^ 51)) = Inr (8444249301319679 / 2 ^ 48)"
      by (rule dbl_of_rnd64 [OF rq]) simp
    show "- 1 < (8444249301319679 :: real) / 2 ^ 48" by simp
    show "(8444249301319679 :: real) / 2 ^ 48 < 2 ^ 32" by simp
    have "\<lfloor>(8444249301319679 :: real) / 2 ^ 48\<rfloor> = 29"
      by (intro floor_unique) simp_all
    then show "trunc (8444249301319679 / 2 ^ 48) = 29" by (simp add: trunc_def)
  qed
  then show ?thesis by simp
qed


lemma kernel_sample_pos:
  assumes "0 < sigma" and "0 < step"
  shows "0 < kernel_sample sigma step sog k"
  using assms by (simp add: kernel_sample_def Let_def)

lemma sum_list_all_pos:
  fixes xs :: "real list"
  assumes "xs \<noteq> []" and "\<And>x. x \<in> set xs \<Longrightarrow> 0 < x"
  shows "0 < sum_list xs"
  using assms
proof (induction xs)
  case Nil
  then show ?case by simp
next
  case (Cons x xs)
  show ?case
  proof (cases "xs = []")
    case True
    with Cons.prems show ?thesis by simp
  next
    case False
    with Cons have "0 < sum_list xs" by simp
    moreover from Cons.prems have "0 < x" by simp
    ultimately show ?thesis by simp
  qed
qed

lemma sum_list_normalised:
  fixes xs :: "real list"
  assumes "sum_list xs \<noteq> 0"
  shows "sum_list (map (\<lambda>v. v / sum_list xs) xs) = 1"
proof -
  have "sum_list (map (\<lambda>v. v * (1 / sum_list xs)) xs) = sum_list xs * (1 / sum_list xs)"
    using sum_list_mult_const [of "\<lambda>v. v" "1 / sum_list xs" xs] by simp
  with assms show ?thesis by simp
qed

lemma diffusion_length_pos:
  assumes "0 < time" and "temp \<noteq> physc_T0"
  shows "diffusion_length m temp time =
           Inr (sqrt (2 * exp (ln_ar m - ea m / (physc_R * (temp - physc_T0))) * time)) \<and>
         0 < sqrt (2 * exp (ln_ar m - ea m / (physc_R * (temp - physc_T0))) * time)"
proof -
  have "physc_R * (temp - physc_T0) \<noteq> 0"
    using assms(2) by (simp add: physc_R_def)
  moreover have "0 < 2 * exp (ln_ar m - ea m / (physc_R * (temp - physc_T0))) * time"
    using assms(1) by simp
  ultimately show ?thesis
    by (simp add: diffusion_length_def diffusivity_def Let_def)
qed

lemma kernel_zero_time:
  assumes "step \<noteq> 0" and "peb_time peb = 0"
  shows "kernel m peb step = Inl NonFinite"
proof (cases "diffusivity m (peb_temp peb)")
  case (Inl e)
  then have "e = NonFinite"
    by (auto simp: diffusivity_def Let_def split: if_splits)
  with Inl show ?thesis
    using assms by (simp add: kernel_def diffusion_length_def)
next
  case (Inr d)
  then have "diffusion_length m (peb_temp peb) (peb_time peb) = Inr 0"
    using assms(2) by (simp add: diffusion_length_def)
  then show ?thesis
    using assms(1) by (simp add: kernel_def)
qed

lemma kernel_even_length:
  "\<exists>k. kernel \<lparr>ea = 0, ln_ar = 0\<rparr> \<lparr>peb_time = 50, peb_temp = 110\<rparr>
            (4691249611844267 / 2 ^ 51) = Inr k \<and> length k = 30"
proof -
  define step :: real where "step = 4691249611844267 / 2 ^ 51"
  have sp: "0 < step" "step \<noteq> 0" by (simp_all add: step_def)
  have "sqrt (10 * 10) = \<bar>10 :: real\<bar>" by (rule real_sqrt_abs2)
  then have root: "sqrt 100 = (10 :: real)" by simp
  have dl: "diffusion_length \<lparr>ea = 0, ln_ar = 0\<rparr> 110 50 = Inr 10"
    by (simp add: diffusion_length_def diffusivity_def physc_R_def physc_T0_def Let_def root)
  have sog: "sigma_on_grid 10 step = Inr (125 / 4)"
    unfolding step_def by (rule even_length_grid)
  have cnt: "kernel_count (125 / 4) step = Inr 30"
    unfolding step_def by (rule even_length_count)
  define kern where "kern = map (kernel_sample 10 step (125 / 4)) [0..<30]"
  have ne: "kern \<noteq> []" by (simp add: kern_def)
  have "0 < sum_list kern"
    using ne by (rule sum_list_all_pos) (auto simp: kern_def kernel_sample_pos sp(1))
  then have nz: "sum_list kern \<noteq> 0" by simp
  have "kernel \<lparr>ea = 0, ln_ar = 0\<rparr> \<lparr>peb_time = 50, peb_temp = 110\<rparr> step
          = Inr (map (\<lambda>v. v / sum_list kern) kern)"
    using sp(2) nz by (simp add: kernel_def dl sog cnt Let_def kern_def)
  moreover have "length (map (\<lambda>v. v / sum_list kern) kern) = 30"
    by (simp add: kern_def)
  ultimately show ?thesis
    unfolding step_def by blast
qed

text \<open>
  C5 (the code at the failing inputs).  With a bake time of 0 and any step other than 0 the
  diffusion length is 0 and the source divides by it: every sample is \<open>\<infinity> \<cdot> 0\<close> or \<open>0 / 0\<close>, so
  no kernel summing to 1 is returned; only \<open>step = 0\<close> has a branch of its own.  And with
  the step \<open>2.0833333333333335\<close> (500/240 as a \<^verbatim>\<open>double\<close>) and a diffusion length of 10 the
  quotient \<^verbatim>\<open>2*sigma_on_grid/step\<close> rounds to \<open>29.999999999999996\<close>, which truncates to 29:
  the kernel has 30 samples, an even number.
\<close>

theorem kernel_degenerate_inputs:
  "(step \<noteq> 0 \<and> peb_time peb = 0 \<longrightarrow> kernel m peb step = Inl NonFinite) \<and>
   (\<exists>k. kernel \<lparr>ea = 0, ln_ar = 0\<rparr> \<lparr>peb_time = 50, peb_temp = 110\<rparr>
            (4691249611844267 / 2 ^ 51) = Inr k \<and> length k = 30 \<and> even (length k))"
proof -
  from kernel_even_length obtain k where
    k: "kernel \<lparr>ea = 0, ln_ar = 0\<rparr> \<lparr>peb_time = 50, peb_temp = 110\<rparr>
            (4691249611844267 / 2 ^ 51) = Inr k" "length k = 30"
    by blast
  then have "even (length k)" by simp
  with k show ?thesis
    using kernel_zero_time [of step peb m] by blast
qed

theorem kernel_degenerate_inputs_witness:
  "kernel \<lparr>ea = 30, ln_ar = 50\<rparr> \<lparr>peb_time = 0, peb_temp = 110\<rparr> 5 = Inl NonFinite"
  using kernel_degenerate_inputs [of 5 "\<lparr>peb_time = 0, peb_temp = 110\<rparr>" "\<lparr>ea = 30, ln_ar = 50\<rparr>"]
  by simp

subsection \<open>Circular convolution\<close>

lemma shift_mod_inj:
  fixes n t :: nat
  assumes "i < n" "j < n" "(i + t) mod n = (j + t) mod n"
  shows "i = j"
proof -
  have "(int i + int t) mod int n = (int j + int t) mod int n"
    using assms(3) by (metis of_nat_add of_nat_mod)
  then have "int i mod int n = int j mod int n"
    by algebra
  with assms(1,2) show ?thesis by simp
qed

lemma shift_mod_bij:
  fixes n t :: nat
  shows "bij_betw (\<lambda>i. (i + t) mod n) {..<n} {..<n}"
proof (cases "n = 0")
  case True
  then show ?thesis by (simp add: bij_betw_def)
next
  case False
  have inj: "inj_on (\<lambda>i. (i + t) mod n) {..<n}"
    by (rule inj_onI) (auto dest: shift_mod_inj)
  have sub: "(\<lambda>i. (i + t) mod n) ` {..<n} \<subseteq> {..<n}"
    using False by auto
  have "(\<lambda>i. (i + t) mod n) ` {..<n} = {..<n}"
    using endo_inj_surj [OF _ sub inj] by simp
  with inj show ?thesis by (simp add: bij_betw_def)
qed

lemma sum_shifted:
  fixes f :: "nat \<Rightarrow> real"
  shows "(\<Sum>i<n. f ((i + t) mod n)) = (\<Sum>i<n. f i)"
  by (rule sum.reindex_bij_betw [OF shift_mod_bij])

lemma circular_index_shift:
  assumes "0 < n" and "0 \<le> int n + s" and "int n + int i + s < 2 ^ w"
  shows "circular_index w n i s = (i + nat (int n + s)) mod n"
proof -
  have eq: "int n + int i + s = int (i + nat (int n + s))"
    using assms(2) by simp
  have "0 \<le> int n + int i + s" using assms(2) by simp
  then have "(int n + int i + s) mod 2 ^ w = int n + int i + s"
    using assms(3) by simp
  then show ?thesis
    unfolding circular_index_def eq
    by (metis nat_int of_nat_mod eq)
qed

lemma sum_list_upt: "(\<Sum>i\<leftarrow>[0..<n]. f i) = (\<Sum>i<n. f i)"
  by (simp add: interv_sum_list_conv_sum_set_nat lessThan_atLeast0)

lemma sum_list_nth_real:
  fixes xs :: "real list"
  shows "sum_list xs = (\<Sum>i<length xs. xs ! i)"
  by (simp add: sum_list_sum_nth lessThan_atLeast0)

lemma circular_conv1d_length: "length (circular_conv1d w arr kern) = length arr"
  by (cases arr) (auto simp: circular_conv1d_def)

lemma circular_conv1d_sum_long:
  assumes "1 < length arr" and "kernel_fits w kern (length arr)"
  shows "sum_list (circular_conv1d w arr kern) = sum_list kern * sum_list arr"
proof -
  define n where "n = length arr"
  define m where "m = length kern"
  from assms have n1: "1 < n" and half: "m div 2 \<le> n" and top: "2 * n + m \<le> 2 ^ w"
    by (simp_all add: kernel_fits_def n_def m_def)
  have top': "int (2 * n + m) \<le> 2 ^ w"
    using top by (metis of_nat_le_iff of_nat_numeral of_nat_power)
  have idx: "circular_index w n i (kmin kern + int k) = (i + nat (int n + (kmin kern + int k))) mod n"
    if "i < n" and "k < m" for i k
  proof (rule circular_index_shift)
    show "0 < n" using n1 by simp
    show "0 \<le> int n + (kmin kern + int k)"
      using half by (simp add: kmin_def m_def)
    show "int n + int i + (kmin kern + int k) < 2 ^ w"
      using that top' by (simp add: kmin_def m_def)
  qed
  have "sum_list (circular_conv1d w arr kern) =
        (\<Sum>i<n. \<Sum>k<m. arr ! circular_index w n i (kmin kern + int k) * kern ! k)"
    using n1 by (simp add: circular_conv1d_def sum_list_upt n_def m_def)
  also have "\<dots> = (\<Sum>i<n. \<Sum>k<m. arr ! ((i + nat (int n + (kmin kern + int k))) mod n) * kern ! k)"
    by (intro sum.cong refl) (simp add: idx)
  also have "\<dots> = (\<Sum>k<m. \<Sum>i<n. arr ! ((i + nat (int n + (kmin kern + int k))) mod n) * kern ! k)"
    by (rule sum.swap)
  also have "\<dots> = (\<Sum>k<m. \<Sum>i<n. arr ! i * kern ! k)"
  proof (rule sum.cong [OF refl])
    fix k
    show "(\<Sum>i<n. arr ! ((i + nat (int n + (kmin kern + int k))) mod n) * kern ! k) =
          (\<Sum>i<n. arr ! i * kern ! k)"
      by (rule sum_shifted [where f = "\<lambda>j. arr ! j * kern ! k"])
  qed
  also have "\<dots> = (\<Sum>k<m. kern ! k * (\<Sum>i<n. arr ! i))"
    by (simp add: sum_distrib_left mult.commute)
  also have "\<dots> = (\<Sum>k<m. kern ! k) * (\<Sum>i<n. arr ! i)"
    by (simp add: sum_distrib_right)
  finally show ?thesis
    by (simp add: sum_list_nth_real n_def m_def)
qed

lemma circular_conv1d_sum:
  assumes "sum_list kern = 1" and "kernel_fits w kern (length arr)"
  shows "sum_list (circular_conv1d w arr kern) = sum_list arr"
proof (cases "1 < length arr")
  case True
  then show ?thesis
    using circular_conv1d_sum_long [OF True assms(2)] assms(1) by simp
next
  case False
  then show ?thesis
    by (cases arr) (auto simp: circular_conv1d_def)
qed

subsection \<open>The passes of the bake\<close>

lemma cube_row_sum:
  "sum_list (cube_row c r s) = (\<Sum>col<n_cols c. elem c r col s)"
  by (simp add: cube_row_def sum_list_upt)

lemma cube_col_sum:
  "sum_list (cube_col c col s) = (\<Sum>r<n_rows c. elem c r col s)"
  by (simp add: cube_col_def sum_list_upt)

lemma peb_rows_accu:
  assumes "sum_list kernelx = 1" and "kernel_fits w kernelx (n_cols c)"
  shows "cube_accu (peb_rows w kernelx c) = cube_accu c"
proof -
  have row: "(\<Sum>col<n_cols c. circular_conv1d w (cube_row c r s) kernelx ! col) =
             (\<Sum>col<n_cols c. elem c r col s)" for r s
  proof -
    have len: "length (cube_row c r s) = n_cols c" by (simp add: cube_row_def)
    have "(\<Sum>col<n_cols c. circular_conv1d w (cube_row c r s) kernelx ! col) =
          sum_list (circular_conv1d w (cube_row c r s) kernelx)"
      by (simp add: sum_list_nth_real circular_conv1d_length len)
    also have "\<dots> = sum_list (cube_row c r s)"
      using assms by (intro circular_conv1d_sum) (simp_all add: len)
    finally show ?thesis by (simp add: cube_row_sum)
  qed
  have "cube_accu (peb_rows w kernelx c) =
        (\<Sum>s<n_slices c. \<Sum>r<n_rows c. \<Sum>col<n_cols c.
            circular_conv1d w (cube_row c r s) kernelx ! col)"
    unfolding cube_accu_def peb_rows_def conv1d_def
    by (simp add: sum.swap [of _ "{..<n_rows c}"])
  also have "\<dots> = (\<Sum>s<n_slices c. \<Sum>r<n_rows c. \<Sum>col<n_cols c. elem c r col s)"
    by (simp only: row)
  finally show ?thesis
    unfolding cube_accu_def by (simp add: sum.swap [of _ "{..<n_rows c}"])
qed

lemma peb_cols_accu:
  assumes "sum_list kernely = 1" and "kernel_fits w kernely (n_rows c)"
  shows "cube_accu (peb_cols w kernely c) = cube_accu c"
proof -
  have col: "(\<Sum>r<n_rows c. circular_conv1d w (cube_col c cl s) kernely ! r) =
             (\<Sum>r<n_rows c. elem c r cl s)" for cl s
  proof -
    have len: "length (cube_col c cl s) = n_rows c" by (simp add: cube_col_def)
    have "(\<Sum>r<n_rows c. circular_conv1d w (cube_col c cl s) kernely ! r) =
          sum_list (circular_conv1d w (cube_col c cl s) kernely)"
      by (simp add: sum_list_nth_real circular_conv1d_length len)
    also have "\<dots> = sum_list (cube_col c cl s)"
      using assms by (intro circular_conv1d_sum) (simp_all add: len)
    finally show ?thesis by (simp add: cube_col_sum)
  qed
  show ?thesis
    unfolding cube_accu_def peb_cols_def conv1d_def
    by (simp add: col)
qed

lemma peb_tubes_single_slice:
  assumes "n_slices c \<le> 1"
  shows "cube_accu (peb_tubes w kernelz c) = cube_accu c"
proof (cases "n_slices c = 0")
  case True
  then show ?thesis by (simp add: cube_accu_def peb_tubes_def)
next
  case False
  with assms have one: "n_slices c = 1" by simp
  then show ?thesis
    by (simp add: cube_accu_def peb_tubes_def conv1d_def symmetric_conv1d_def cube_tube_def)
qed

lemma kernel_sum_one:
  assumes "kernel m peb step = Inr k"
  shows "sum_list k = 1"
  using assms
  by (auto simp: kernel_def Let_def sum_list_normalised simp del: map_map
      split: if_splits sum.splits)

lemma kernel_example:
  "kernel \<lparr>ea = 0, ln_ar = 0\<rparr> \<lparr>peb_time = 1 / 2, peb_temp = 110\<rparr> 4 =
     Inr [exp (- 8) / (2 * exp (- 8) + 1), 1 / (2 * exp (- 8) + 1),
          exp (- 8) / (2 * exp (- 8) + 1)]"
proof -
  have dl: "diffusion_length \<lparr>ea = 0, ln_ar = 0\<rparr> 110 (1 / 2) = Inr 1"
    by (simp add: diffusion_length_def diffusivity_def physc_R_def physc_T0_def Let_def)
  note sog = sigma_on_grid_1_4
  note cnt = kernel_count_4_4
  define g where "g = 4 / sqrt (2 * pi)"
  define q where "q = exp (- 8 :: real)"
  have gpos: "0 < g" by (simp add: g_def)
  have qpos: "0 < q" by (simp add: q_def)
  have upt3: "[0..<3] = [0, Suc 0, 2]"
    by (simp add: upt_rec)
  have s0: "kernel_sample 1 4 4 0 = g * q"
    and s1: "kernel_sample 1 4 4 (Suc 0) = g"
    and s2: "kernel_sample 1 4 4 2 = g * q"
    by (simp_all add: kernel_sample_def Let_def g_def q_def)
  have km: "map (kernel_sample 1 4 4) [0..<3] = [g * q, g, g * q]"
    by (simp add: upt3 s0 s1 s2)
  have tot: "sum_list [g * q, g, g * q] = g * (2 * q + 1)"
    by (simp add: algebra_simps)
  have den: "0 < 2 * q + 1" using qpos by simp
  have nz: "g * (2 * q + 1) \<noteq> 0" using gpos den by simp
  have norm: "map (\<lambda>v. v / (g * (2 * q + 1))) [g * q, g, g * q] =
              [q / (2 * q + 1), 1 / (2 * q + 1), q / (2 * q + 1)]"
    using gpos by simp
  have "kernel \<lparr>ea = 0, ln_ar = 0\<rparr> \<lparr>peb_time = 1 / 2, peb_temp = 110\<rparr> 4 =
        Inr (map (\<lambda>v. v / (g * (2 * q + 1))) [g * q, g, g * q])"
    unfolding kernel_def
    using nz by (simp add: dl sog cnt km tot Let_def del: sum_list.Cons)
  then show ?thesis
    unfolding norm by (simp add: q_def)
qed


lemma upt_3: "[0..<3] = [0, Suc 0, 2]"
  by (simp add: upt_rec)

lemma circular_conv1d_3:
  "circular_conv1d 64 [x0, x1, x2] [a, b, a] =
     [x2 * a + x0 * b + x1 * a, x0 * a + x1 * b + x2 * a, x1 * a + x2 * b + x0 * a]"
  by (simp add: circular_conv1d_def circular_index_def kmin_def upt_3)

lemma symmetric_conv1d_3:
  "symmetric_conv1d [x0, x1, x2] [a, b, a] =
     [x1 * a + x0 * b + x1 * a, x0 * a + x1 * b + x2 * a, x1 * a + x2 * b + x1 * a]"
  by (simp add: symmetric_conv1d_def symmetric_index_def kmin_def upt_3 Let_def)


lemma circular_conv1d_1: "circular_conv1d w [x] kern = [x]"
  by (simp add: circular_conv1d_def)

lemma peb_example_cube:
  fixes a b :: real
  assumes "2 * a + b = 1"
  shows "cube_accu
           (peb_tubes 64 [a, b, a]
              (peb_cols 64 [1]
                 (peb_rows 64 [a, b, a]
                    \<lparr>n_rows = 1, n_cols = 3, n_slices = 3,
                     elem = (\<lambda>r c s. if s = 0 then 1 else 0)\<rparr>))) = 3 * (a + b)"
proof -
  have "cube_accu
           (peb_tubes 64 [a, b, a]
              (peb_cols 64 [1]
                 (peb_rows 64 [a, b, a]
                    \<lparr>n_rows = 1, n_cols = 3, n_slices = 3,
                     elem = (\<lambda>r c s. if s = 0 then 1 else 0)\<rparr>))) =
        3 * (a + b) * (2 * a + b)"
    by (simp add: cube_accu_def peb_tubes_def peb_cols_def peb_rows_def conv1d_def
        cube_tube_def cube_col_def cube_row_def lessThan_Suc numeral_3_eq_3
        circular_conv1d_3 symmetric_conv1d_3 circular_conv1d_1 algebra_simps)
  then show ?thesis using assms by simp
qed

text \<open>
  The claim as first stated covers the reflected pass as well.  On a cube of one row, three
  columns and three slices that is 1 on the top slice and 0 below, with kernels \<open>[a, b, a]\<close>
  in x and z (\<open>a = e\<^sup>-\<^sup>8 / (2 e\<^sup>-\<^sup>8 + 1)\<close>, \<open>b = 1 / (2 e\<^sup>-\<^sup>8 + 1)\<close>), the input sums to 3 and the
  result to \<open>3 (a + b) = 3 (1 - a)\<close>: the reflection at the top reads the second slice twice
  and the weight \<open>a\<close> of the top slice on the far side is lost.
\<close>

theorem peb_mass_counterexample:
  "cube_accu \<lparr>n_rows = 1, n_cols = 3, n_slices = 3,
              elem = (\<lambda>r c s. if s = 0 then 1 else 0)\<rparr> = 3 \<and>
   (case peb_latent_image 64
           [\<lparr>n_rows = 1, n_cols = 3, n_slices = 3, elem = (\<lambda>r c s. if s = 0 then 1 else 0)\<rparr>]
           \<lparr>values_ptr = 0, rv_x = [- 4, 0, 4], rv_y = [0], rv_z = [8, 4, 0],
            stepx = 4, stepy = 0, stepz = 4\<rparr>
           \<lparr>rl_thickness = 8,
            rl_exposure = \<lparr>erm_wavelength = 248, dill_a = 0, dill_b = 0, dill_c = 0, erm_n = 1\<rparr>,
            rl_peb = \<lparr>ea = 0, ln_ar = 0\<rparr>\<rparr>
           \<lparr>peb_time = 1 / 2, peb_temp = 110\<rparr> of
      Inl e \<Rightarrow> False
    | Inr (st', result) \<Rightarrow> cube_accu (st' ! values_ptr result) < 3)"
proof -
  define a where "a = exp (- 8) / (2 * exp (- 8) + 1 :: real)"
  define b where "b = 1 / (2 * exp (- 8) + 1 :: real)"
  have den: "0 < 2 * exp (- 8 :: real) + 1"
    by (intro add_pos_pos mult_pos_pos) simp_all
  have apos: "0 < a" using den by (simp add: a_def)
  have one: "2 * a + b = 1"
    using den by (simp add: a_def b_def field_simps)
  have k4: "kernel \<lparr>ea = 0, ln_ar = 0\<rparr> \<lparr>peb_time = 1 / 2, peb_temp = 110\<rparr> 4 = Inr [a, b, a]"
    using kernel_example by (simp add: a_def b_def)
  have k0: "kernel \<lparr>ea = 0, ln_ar = 0\<rparr> \<lparr>peb_time = 1 / 2, peb_temp = 110\<rparr> 0 = Inr [1]"
    by (simp add: kernel_def)
  have lt: "3 * (a + b) < 3" using apos one by simp
  have inp: "cube_accu \<lparr>n_rows = 1, n_cols = 3, n_slices = 3,
                         elem = (\<lambda>r c s. if s = 0 then 1 else 0)\<rparr> = 3"
    by (simp add: cube_accu_def lessThan_Suc numeral_3_eq_3)
  show ?thesis
    unfolding inp
    by (simp add: peb_latent_image_def ResistVolume_copy_def k4 k0 peb_example_cube [OF one, simplified] lt [simplified])
qed

lemma peb_rows_extents:
  "n_rows (peb_rows w k c) = n_rows c" "n_cols (peb_rows w k c) = n_cols c"
  "n_slices (peb_rows w k c) = n_slices c"
  by (simp_all add: peb_rows_def)

lemma peb_cols_extents:
  "n_rows (peb_cols w k c) = n_rows c" "n_cols (peb_cols w k c) = n_cols c"
  "n_slices (peb_cols w k c) = n_slices c"
  by (simp_all add: peb_cols_def)

text \<open>
  C4 (as amended).  Whenever \<^verbatim>\<open>peb_latent_image\<close> returns and no index of the two circular
  passes wraps (\<open>kernel_fits\<close>), the three kernels sum to 1, the pass over the rows (x,
  \<open>CIRCULAR\<close>) and the pass over the columns (y, \<open>CIRCULAR\<close>) each preserve the sum of all
  elements of the cube, the input cube is left as it was, and on a cube of at most one
  slice the pass over the tubes (z, \<open>SYMMETRIC\<close>) is the identity, so that the whole stage
  preserves the sum.  Nothing is stated for the reflected pass on a cube of several slices.
\<close>

theorem peb_lateral_mass_conservation:
  assumes "peb_latent_image w st latent rl peb = Inr (st', result)"
    and "values_ptr latent < length st"
    and "\<forall>kx. kernel (rl_peb rl) peb (stepx latent) = Inr kx \<longrightarrow>
              kernel_fits w kx (n_cols (st ! values_ptr latent))"
    and "\<forall>ky. kernel (rl_peb rl) peb (stepy latent) = Inr ky \<longrightarrow>
              kernel_fits w ky (n_rows (st ! values_ptr latent))"
  shows "\<exists>kx ky kz.
           kernel (rl_peb rl) peb (stepx latent) = Inr kx \<and>
           kernel (rl_peb rl) peb (stepy latent) = Inr ky \<and>
           kernel (rl_peb rl) peb (stepz latent) = Inr kz \<and>
           sum_list kx = 1 \<and> sum_list ky = 1 \<and> sum_list kz = 1 \<and>
           st' ! values_ptr result =
             peb_tubes w kz (peb_cols w ky (peb_rows w kx (st ! values_ptr latent))) \<and>
           st' ! values_ptr latent = st ! values_ptr latent \<and>
           cube_accu (peb_rows w kx (st ! values_ptr latent)) =
             cube_accu (st ! values_ptr latent) \<and>
           cube_accu (peb_cols w ky (peb_rows w kx (st ! values_ptr latent))) =
             cube_accu (st ! values_ptr latent) \<and>
           (n_slices (st ! values_ptr latent) \<le> 1 \<longrightarrow>
              cube_accu (st' ! values_ptr result) = cube_accu (st ! values_ptr latent))"
proof -
  define c where "c = st ! values_ptr latent"
  from assms(1) obtain kx ky kz where
    kx: "kernel (rl_peb rl) peb (stepx latent) = Inr kx" and
    ky: "kernel (rl_peb rl) peb (stepy latent) = Inr ky" and
    kz: "kernel (rl_peb rl) peb (stepz latent) = Inr kz" and
    st': "st' = (st @ [c])[length st := peb_tubes w kz (peb_cols w ky (peb_rows w kx c))]" and
    res: "result = latent\<lparr>values_ptr := length st\<rparr>"
    by (auto simp: peb_latent_image_def ResistVolume_copy_def c_def split: sum.splits)
  have sums: "sum_list kx = 1" "sum_list ky = 1" "sum_list kz = 1"
    using kx ky kz by (auto dest: kernel_sum_one)
  have out: "st' ! values_ptr result = peb_tubes w kz (peb_cols w ky (peb_rows w kx c))"
    by (simp add: st' res)
  have keep: "st' ! values_ptr latent = c"
    using assms(2) by (simp add: st' c_def nth_append)
  have rows: "cube_accu (peb_rows w kx c) = cube_accu c"
    using assms(3) kx sums(1) by (intro peb_rows_accu) (simp_all add: c_def)
  have cols: "cube_accu (peb_cols w ky (peb_rows w kx c)) = cube_accu c"
    using assms(4) ky sums(2) rows
    by (simp add: peb_cols_accu peb_rows_extents c_def)
  have tubes: "cube_accu (st' ! values_ptr result) = cube_accu c" if "n_slices c \<le> 1"
    using that cols by (simp add: out peb_tubes_single_slice peb_cols_extents peb_rows_extents)
  show ?thesis
    using kx ky kz sums out keep rows cols tubes unfolding c_def by blast
qed

theorem peb_lateral_mass_conservation_witness:
  "(case peb_latent_image 64
           [\<lparr>n_rows = 1, n_cols = 3, n_slices = 1, elem = (\<lambda>r c s. if c = 0 then 1 else 0)\<rparr>]
           \<lparr>values_ptr = 0, rv_x = [- 4, 0, 4], rv_y = [0], rv_z = [0],
            stepx = 4, stepy = 0, stepz = 0\<rparr>
           \<lparr>rl_thickness = 0,
            rl_exposure = \<lparr>erm_wavelength = 248, dill_a = 0, dill_b = 0, dill_c = 0, erm_n = 1\<rparr>,
            rl_peb = \<lparr>ea = 0, ln_ar = 0\<rparr>\<rparr>
           \<lparr>peb_time = 1 / 2, peb_temp = 110\<rparr> of
      Inl e \<Rightarrow> False
    | Inr (st', result) \<Rightarrow>
        cube_accu (st' ! values_ptr result) =
        cube_accu \<lparr>n_rows = 1, n_cols = 3, n_slices = 1,
                   elem = (\<lambda>r c s. if c = 0 then 1 else 0)\<rparr>)"
proof -
  define c1 where
    "c1 = \<lparr>n_rows = 1, n_cols = 3, n_slices = 1, elem = (\<lambda>r c s. if c = 0 then (1::real) else 0)\<rparr>"
  define v1 where
    "v1 = \<lparr>values_ptr = 0, rv_x = [- 4, 0, 4], rv_y = [0], rv_z = [0],
           stepx = 4, stepy = 0, stepz = 0\<rparr>"
  define rl0 where
    "rl0 = \<lparr>rl_thickness = 0,
            rl_exposure = \<lparr>erm_wavelength = 248, dill_a = 0, dill_b = 0, dill_c = 0, erm_n = 1\<rparr>,
            rl_peb = \<lparr>ea = 0, ln_ar = 0\<rparr>\<rparr>"
  define peb0 where "peb0 = \<lparr>peb_time = 1 / 2, peb_temp = 110\<rparr>"
  define kx where
    "kx = [exp (- 8) / (2 * exp (- 8) + 1), 1 / (2 * exp (- 8) + 1),
           exp (- 8) / (2 * exp (- 8) + 1 :: real)]"
  have k4: "kernel (rl_peb rl0) peb0 4 = Inr kx"
    using kernel_example by (simp add: rl0_def peb0_def kx_def)
  have k0: "kernel (rl_peb rl0) peb0 0 = Inr [1]"
    by (simp add: kernel_def)
  have res: "peb_latent_image 64 [c1] v1 rl0 peb0 =
      Inr ([c1, peb_tubes 64 [1] (peb_cols 64 [1] (peb_rows 64 kx c1))], v1\<lparr>values_ptr := 1\<rparr>)"
    by (simp add: peb_latent_image_def ResistVolume_copy_def v1_def k4 k0)
  have "cube_accu ([c1, peb_tubes 64 [1] (peb_cols 64 [1] (peb_rows 64 kx c1))] ! 1) = cube_accu c1"
    using peb_lateral_mass_conservation [OF res]
    by (simp add: v1_def k4 k0 kernel_fits_def kx_def c1_def)
  then show ?thesis
    unfolding c1_def [symmetric] v1_def [symmetric] rl0_def [symmetric] peb0_def [symmetric]
    by (simp add: res)
qed

section \<open>Properties of the diffraction stage\<close>

subsection \<open>Regions add their terms\<close>

text \<open>
  \<^verbatim>\<open>add_region\<close> only adds to the values that are there: its result is the term it
  writes into an empty grid, added to the values before the call.
\<close>

lemma length_vadd: "length (vadd xs u) = length xs"
  by (simp add: vadd_def)

lemma nth_vadd: "i < length xs \<Longrightarrow> vadd xs u ! i = xs ! i + u ! i"
  by (simp add: vadd_def)

lemma vadd_zeros: "vadd (replicate (length u) 0) u = u"
  by (rule nth_equalityI) (simp_all add: vadd_def)

lemma vadd_update:
  "vadd (xs[i := xs ! i + t]) u = (vadd xs u)[i := vadd xs u ! i + t]"
proof (cases "i < length xs")
  case True
  then show ?thesis
    by (auto simp: list_eq_iff_nth_eq length_vadd nth_vadd nth_list_update)
next
  case False
  then show ?thesis by (simp add: length_vadd list_update_beyond not_less)
qed

lemma foldl_1d_vadd:
  "foldl (\<lambda>vals i. vals[i := vals ! i + g i]) (vadd xs u) is =
   vadd (foldl (\<lambda>vals i. vals[i := vals ! i + g i]) xs is) u"
proof (induction "is" arbitrary: xs)
  case Nil
  show ?case by simp
next
  case (Cons i "is")
  show ?case
    by (simp add: vadd_update [symmetric] Cons.IH)
qed

lemma add_2d_step_vadd:
  "add_2d_step d region f (vadd vals u, calc) v =
     (vadd (fst (add_2d_step d region f (vals, calc) v)) u,
      snd (add_2d_step d region f (vals, calc) v))"
  by (cases v) (auto simp: add_2d_step_def Let_def vadd_update split: prod.splits)

lemma foldl_2d_vadd:
  "foldl (add_2d_step d region f) (vadd vals u, calc) vs =
     (vadd (fst (foldl (add_2d_step d region f) (vals, calc) vs)) u,
      snd (foldl (add_2d_step d region f) (vals, calc) vs))"
proof (induction vs arbitrary: vals calc)
  case Nil
  show ?case by simp
next
  case (Cons v vs)
  show ?case
    by (simp add: add_2d_step_vadd Cons.IH)
qed


lemma length_foldl_1d:
  "length (foldl (\<lambda>vals i. vals[i := vals ! i + g i]) xs is) = length xs"
  by (induction "is" arbitrary: xs) simp_all

lemma length_add_2d_step:
  "length (fst (add_2d_step d region f (vals, calc) v)) = length vals"
  by (cases v) (auto simp: add_2d_step_def Let_def)

lemma length_foldl_2d:
  "length (fst (foldl (add_2d_step d region f) (vals, calc) vs)) = length vals"
proof (induction vs arbitrary: vals calc)
  case Nil
  show ?case by simp
next
  case (Cons v vs)
  show ?case
    using Cons.IH [of "fst (add_2d_step d region f (vals, calc) v)"
                      "snd (add_2d_step d region f (vals, calc) v)"]
    by (simp add: length_add_2d_step)
qed

lemma add_2d_step_values [simp]:
  "add_2d_step (d\<lparr>d_values := v\<rparr>) = add_2d_step d"
  by (intro ext) (simp add: add_2d_step_def Let_def split: prod.splits)

lemma visits_2d_values [simp]:
  "visits_2d (d\<lparr>d_values := v\<rparr>) = visits_2d d"
  by (intro ext) (simp add: visits_2d_def)

lemma add_1d_region_split:
  assumes "add_1d_region d region f = Inr d'"
  shows "\<exists>z. add_1d_region (d\<lparr>d_values := replicate (length (d_values d)) 0\<rparr>) region f
              = Inr (d\<lparr>d_values := z\<rparr>) \<and>
             length z = length (d_values d) \<and> d' = d\<lparr>d_values := vadd z (d_values d)\<rparr>"
proof -
  from assms obtain r rest where es: "edges (geometry region) = r # rest"
    by (auto simp: add_1d_region_def split: list.splits)
  from assms es have ax: "axis (geometry region) \<noteq> DIM_2D"
    by (auto simp: add_1d_region_def split: if_splits)
  define k where "k = (if axis (geometry region) = DIM_1D_X then d_kx d else d_ky d)"
  define g where "g = (\<lambda>i. f * value_1d (k ! i)
        ((if axis (geometry region) = DIM_1D_X then d_frqx d else d_frqy d) ! i)
        (Point2d_index (dst r) (dimension_value (axis (geometry region))))
        (Point2d_index (org r) (dimension_value (axis (geometry region)))))"
  from assms es ax have len: "length k \<le> length (d_values d)"
    by (auto simp: add_1d_region_def k_def Let_def split: if_splits)
  from assms es ax len have d': "d' = d\<lparr>d_values :=
        foldl (\<lambda>vals i. vals[i := vals ! i + g i]) (d_values d) [0..<length k]\<rparr>"
    by (auto simp: add_1d_region_def k_def g_def Let_def split: if_splits)
  define z where "z = foldl (\<lambda>vals i. vals[i := vals ! i + g i])
                        (replicate (length (d_values d)) 0) [0..<length k]"
  have z: "add_1d_region (d\<lparr>d_values := replicate (length (d_values d)) 0\<rparr>) region f
             = Inr (d\<lparr>d_values := z\<rparr>)"
    using es ax len by (auto simp: add_1d_region_def k_def g_def z_def Let_def)
  have "foldl (\<lambda>vals i. vals[i := vals ! i + g i]) (d_values d) [0..<length k] =
        vadd z (d_values d)"
    using foldl_1d_vadd [of g "replicate (length (d_values d)) 0" "d_values d" "[0..<length k]"]
    by (simp add: vadd_zeros z_def)
  with d' z show ?thesis
    by (auto simp: z_def length_foldl_1d)
qed

lemma add_2d_region_split:
  assumes "add_2d_region d region f = Inr d'"
  shows "\<exists>z. add_2d_region (d\<lparr>d_values := replicate (length (d_values d)) 0\<rparr>) region f
              = Inr (d\<lparr>d_values := z\<rparr>) \<and>
             length z = length (d_values d) \<and> d' = d\<lparr>d_values := vadd z (d_values d)\<rparr>"
proof -
  from assms obtain points where
    ps: "source_points (d_source_shape d) (d_numeric_aperture d) (non_zeros (d_source_shape d))
           = Inr points"
    by (auto simp: add_2d_region_def split: sum.splits)
  define flags where "flags = replicate (length (d_values d)) False"
  define z where "z = fst (foldl (add_2d_step d region f)
                        (replicate (length (d_values d)) 0, flags) (visits_2d d points))"
  from assms ps have d': "d' = d\<lparr>d_values :=
        fst (foldl (add_2d_step d region f) (d_values d, flags) (visits_2d d points))\<rparr>"
    by (simp add: add_2d_region_def flags_def)
  have z: "add_2d_region (d\<lparr>d_values := replicate (length (d_values d)) 0\<rparr>) region f
             = Inr (d\<lparr>d_values := z\<rparr>)"
    using ps by (simp add: add_2d_region_def z_def flags_def)
  have "fst (foldl (add_2d_step d region f) (d_values d, flags) (visits_2d d points)) =
        vadd z (d_values d)"
    using foldl_2d_vadd [of d region f "replicate (length (d_values d)) 0" "d_values d" flags
                            "visits_2d d points"]
    by (simp add: vadd_zeros z_def)
  with d' z show ?thesis
    by (auto simp: z_def length_foldl_2d)
qed

lemma add_region_split:
  assumes "add_region d region f = Inr d'"
  shows "\<exists>z. add_region (d\<lparr>d_values := replicate (length (d_values d)) 0\<rparr>) region f
              = Inr (d\<lparr>d_values := z\<rparr>) \<and>
             length z = length (d_values d) \<and> d' = d\<lparr>d_values := vadd z (d_values d)\<rparr>"
proof (cases "axis (geometry region) = DIM_2D")
  case True
  with assms have nz: "p_x (d_pitch d) \<noteq> 0" "p_y (d_pitch d) \<noteq> 0"
    and a: "add_2d_region d region
        (f / complex_of_real (p_x (d_pitch d)) / complex_of_real (p_y (d_pitch d))) = Inr d'"
    by (auto simp: add_region_def split: if_splits)
  from add_2d_region_split [OF a] True nz show ?thesis
    by (simp add: add_region_def)
next
  case False
  with assms have
    nz: "Point2d_index (d_pitch d) (dimension_value (axis (geometry region))) \<noteq> 0" and
    a: "add_1d_region d region
          (f / complex_of_real (Point2d_index (d_pitch d)
                 (dimension_value (axis (geometry region))))) = Inr d'"
    by (auto simp: add_region_def Let_def split: if_splits)
  from add_1d_region_split [OF a] False nz show ?thesis
    by (simp add: add_region_def Let_def)
qed

lemma region_term_values:
  "length v = length (d_values d) \<Longrightarrow> region_term (d\<lparr>d_values := v\<rparr>) tb reg = region_term d tb reg"
  by (cases "etransmit_of (transmittance reg) (phase reg)") (simp_all add: region_term_def)

lemma add_regions_sum:
  assumes "add_regions d tb regs = Inr d'"
  shows "\<exists>w. d' = d\<lparr>d_values := w\<rparr> \<and> length w = length (d_values d) \<and>
             (\<forall>i<length w. w ! i = d_values d ! i + (\<Sum>reg\<leftarrow>regs. region_term d tb reg ! i))"
  using assms
proof (induction regs arbitrary: d)
  case Nil
  then show ?case by (intro exI [of _ "d_values d"]) simp
next
  case (Cons reg regs)
  from Cons.prems obtain tr d1 where
    tr: "etransmit_of (transmittance reg) (phase reg) = Inr tr" and
    d1: "add_region d reg (tr - tb) = Inr d1" and
    rest: "add_regions d1 tb regs = Inr d'"
    by (auto split: sum.splits)
  from add_region_split [OF d1] obtain z where
    z: "add_region (d\<lparr>d_values := replicate (length (d_values d)) 0\<rparr>) reg (tr - tb)
          = Inr (d\<lparr>d_values := z\<rparr>)" and
    lz: "length z = length (d_values d)" and
    d1': "d1 = d\<lparr>d_values := vadd z (d_values d)\<rparr>"
    by blast
  have rt: "region_term d tb reg = z"
    by (simp add: region_term_def tr z)
  from Cons.IH [OF rest] obtain w where
    w: "d' = d1\<lparr>d_values := w\<rparr>" and
    lw: "length w = length (d_values d1)" and
    wi: "\<forall>i<length w. w ! i = d_values d1 ! i + (\<Sum>r\<leftarrow>regs. region_term d1 tb r ! i)"
    by blast
  have l1: "length (d_values d1) = length (d_values d)"
    by (simp add: d1' length_vadd lz)
  have same: "region_term d1 tb r = region_term d tb r" for r
    unfolding d1' by (rule region_term_values) (simp add: length_vadd lz)
  have "\<forall>i<length w. w ! i = d_values d ! i + (\<Sum>r\<leftarrow>reg # regs. region_term d tb r ! i)"
  proof (intro allI impI)
    fix i assume i: "i < length w"
    with lw l1 lz have iz: "i < length z" by simp
    have "w ! i = d_values d1 ! i + (\<Sum>r\<leftarrow>regs. region_term d tb r ! i)"
      using wi i by (simp add: same)
    also have "d_values d1 ! i = z ! i + d_values d ! i"
      by (simp add: d1' nth_vadd iz)
    finally show "w ! i = d_values d ! i + (\<Sum>r\<leftarrow>reg # regs. region_term d tb r ! i)"
      by (simp add: rt)
  qed
  moreover have "d' = d\<lparr>d_values := w\<rparr>" by (simp add: w d1')
  moreover have "length w = length (d_values d)" by (simp add: lw l1)
  ultimately show ?case by blast
qed

lemma nth_concat_uniform:
  assumes "c < n" and "r < m"
  shows "concat (map (\<lambda>c. map (g c) [0..<m]) [0..<n]) ! (c * m + r) = g c r"
  using assms
proof (induction n arbitrary: c)
  case 0
  then show ?case by simp
next
  case (Suc n)
  have len: "length (concat (map (\<lambda>c. map (g c) [0..<m]) [0..<n])) = n * m"
    by (induction n) simp_all
  show ?case
  proof (cases "c < n")
    case True
    then have "c * m + r < n * m"
    proof -
      have "c * m + r < c * m + m" using Suc.prems by simp
      also have "\<dots> = Suc c * m" by simp
      also have "\<dots> \<le> n * m" using True by (intro mult_le_mono1) simp
      finally show ?thesis .
    qed
    then show ?thesis
      using Suc.IH [OF True Suc.prems(2)] by (simp add: nth_append len)
  next
    case False
    with Suc.prems have "c = n" by simp
    then show ?thesis using Suc.prems by (simp add: nth_append len)
  qed
qed

lemma length_concat_uniform:
  "length (concat (map (\<lambda>c. map (g c) [0..<m]) [0..<n])) = n * m"
  by (induction n) simp_all

lemma length_init_k: "length (init_k p limits n) = n"
  by (simp add: init_k_def)

lemma length_init_frq: "length (init_frq p limits n) = n"
  by (simp add: init_frq_def length_init_k)

lemma length_init_dcos: "length (init_dcos p w limits n) = n"
  by (simp add: init_dcos_def length_init_frq)

lemma init_dcos_zero_iff:
  assumes "w \<noteq> 0" and "i < n"
  shows "init_dcos p w limits n ! i = 0 \<longleftrightarrow> init_k p limits n ! i = 0"
proof -
  have "real_of_int (fst limits) + real i = 0 \<longleftrightarrow> fst limits + int i = 0"
    using of_int_eq_0_iff [of "fst limits + int i", where ?'a = real] by simp
  then show ?thesis
    using assms by (simp add: init_dcos_def init_frq_def init_k_def)
qed

lemma init_cosines_zero_iff:
  assumes "c < length cx" and "r < length cy"
  shows "init_cosines cx cy ! (c * length cy + r) = 0 \<longleftrightarrow> cx ! c = 0 \<and> cy ! r = 0"
proof -
  have "init_cosines cx cy ! (c * length cy + r) = sqrt (cx ! c * cx ! c + cy ! r * cy ! r)"
    unfolding init_cosines_def
    using nth_concat_uniform [OF assms, of "\<lambda>c r. sqrt (cx ! c * cx ! c + cy ! r * cy ! r)"]
    by simp
  then show ?thesis
    by (simp add: sum_squares_eq_zero_iff [unfolded power2_eq_square] add_nonneg_eq_0_iff)
qed

lemma Diffraction_new_grid:
  assumes "Diffraction_new msk tool = Inr d0"
  shows "length (d_values d0) = d_rows d0 * d_cols d0"
    and "length (d_cxy d0) = d_cols d0 * d_rows d0"
    and "length (d_kx d0) = d_cols d0"
    and "length (d_ky d0) = d_rows d0"
    and "\<forall>c<d_cols d0. \<forall>r<d_rows d0.
           d_cxy d0 ! (c * d_rows d0 + r) = 0 \<longleftrightarrow> d_kx d0 ! c = 0 \<and> d_ky d0 ! r = 0"
proof -
  from assms obtain lc lr where
    lc: "calc_size (it_numeric_aperture tool) (it_wavelength tool) (p_x (mask_sizes msk))
           (sx_min (it_source_shape tool)) (sx_max (it_source_shape tool)) = Inr lc" and
    lr: "calc_size (it_numeric_aperture tool) (it_wavelength tool) (p_y (mask_sizes msk))
           (sy_min (it_source_shape tool)) (sy_max (it_source_shape tool)) = Inr lr"
    by (auto simp: Diffraction_new_def Let_def split: sum.splits)
  from lc have wz: "it_wavelength tool \<noteq> 0"
    by (auto simp: calc_size_def split: if_splits)
  from assms lc lr have d0: "d0 =
      \<lparr>d_values = replicate (extent lr * extent lc) 0,
       d_rows = extent lr, d_cols = extent lc,
       d_frqx = init_frq (p_x (mask_sizes msk)) lc (extent lc),
       d_frqy = init_frq (p_y (mask_sizes msk)) lr (extent lr),
       d_kx = init_k (p_x (mask_sizes msk)) lc (extent lc),
       d_ky = init_k (p_y (mask_sizes msk)) lr (extent lr),
       d_cxy = init_cosines (init_dcos (p_x (mask_sizes msk)) (it_wavelength tool) lc (extent lc))
                 (init_dcos (p_y (mask_sizes msk)) (it_wavelength tool) lr (extent lr)),
       d_cx = init_dcos (p_x (mask_sizes msk)) (it_wavelength tool) lc (extent lc),
       d_cy = init_dcos (p_y (mask_sizes msk)) (it_wavelength tool) lr (extent lr),
       d_source_shape = it_source_shape tool, d_pitch = mask_sizes msk,
       d_numeric_aperture = it_numeric_aperture tool, d_wavelength = it_wavelength tool\<rparr>"
    by (simp add: Diffraction_new_def Let_def)
  show "length (d_values d0) = d_rows d0 * d_cols d0" by (simp add: d0)
  show "length (d_cxy d0) = d_cols d0 * d_rows d0"
    by (simp add: d0 init_cosines_def length_concat_uniform length_init_dcos)
  show "length (d_kx d0) = d_cols d0" by (simp add: d0 length_init_k)
  show "length (d_ky d0) = d_rows d0" by (simp add: d0 length_init_k)
  show "\<forall>c<d_cols d0. \<forall>r<d_rows d0.
           d_cxy d0 ! (c * d_rows d0 + r) = 0 \<longleftrightarrow> d_kx d0 ! c = 0 \<and> d_ky d0 ! r = 0"
  proof (intro allI impI)
    fix c r assume c: "c < d_cols d0" and r: "r < d_rows d0"
    then have c': "c < extent lc" and r': "r < extent lr" by (simp_all add: d0)
    show "d_cxy d0 ! (c * d_rows d0 + r) = 0 \<longleftrightarrow> d_kx d0 ! c = 0 \<and> d_ky d0 ! r = 0"
      using init_cosines_zero_iff
              [of c "init_dcos (p_x (mask_sizes msk)) (it_wavelength tool) lc (extent lc)"
                  r "init_dcos (p_y (mask_sizes msk)) (it_wavelength tool) lr (extent lr)"]
            c' r' init_dcos_zero_iff [OF wz c'] init_dcos_zero_iff [OF wz r']
      by (simp add: d0 length_init_dcos)
  qed
qed

lemma diffraction_structure:
  assumes "diffraction tool msk = Inr d"
  shows "\<exists>d0 tb.
           Diffraction_new msk tool = Inr d0 \<and>
           etransmit_of (box_transmittance (mask_boundary msk)) (box_phase (mask_boundary msk))
             = Inr tb \<and>
           length (d_values d) = length (d_values d0) \<and>
           d\<lparr>d_values := d_values d0\<rparr> = d0 \<and>
           (\<forall>i<length (d_values d).
              d_values d ! i =
                (\<Sum>reg\<leftarrow>mask_regions msk. region_term d0 tb reg ! i)
                + (if box_transmittance (mask_boundary msk) \<noteq> 0 \<and> d_cxy d0 ! i = 0
                   then tb else 0))"
proof -
  from assms obtain d0 tb d1 where
    d0: "Diffraction_new msk tool = Inr d0" and
    tb: "etransmit_of (box_transmittance (mask_boundary msk)) (box_phase (mask_boundary msk))
           = Inr tb" and
    d1: "add_regions d0 tb (mask_regions msk) = Inr d1" and
    d: "d = (if \<not> is_opaque msk then add_background tb d1 else d1)"
    by (auto simp: diffraction_def split: if_splits sum.splits)
  have zero: "\<forall>i<length (d_values d0). d_values d0 ! i = 0"
    using d0 by (auto simp: Diffraction_new_def Let_def split: sum.splits)
  from add_regions_sum [OF d1] obtain w where
    w: "d1 = d0\<lparr>d_values := w\<rparr>" and
    lw: "length w = length (d_values d0)" and
    wi: "\<forall>i<length w. w ! i = d_values d0 ! i + (\<Sum>reg\<leftarrow>mask_regions msk. region_term d0 tb reg ! i)"
    by blast
  have len: "length (d_values d) = length (d_values d0)"
    by (simp add: d w lw add_background_def)
  have same: "d\<lparr>d_values := d_values d0\<rparr> = d0"
    by (simp add: d w add_background_def)
  have "\<forall>i<length (d_values d).
          d_values d ! i =
            (\<Sum>reg\<leftarrow>mask_regions msk. region_term d0 tb reg ! i)
            + (if box_transmittance (mask_boundary msk) \<noteq> 0 \<and> d_cxy d0 ! i = 0 then tb else 0)"
  proof (intro allI impI)
    fix i assume "i < length (d_values d)"
    with len lw have i: "i < length w" by simp
    then have wv: "w ! i = (\<Sum>reg\<leftarrow>mask_regions msk. region_term d0 tb reg ! i)"
      using wi zero lw by simp
    show "d_values d ! i =
            (\<Sum>reg\<leftarrow>mask_regions msk. region_term d0 tb reg ! i)
            + (if box_transmittance (mask_boundary msk) \<noteq> 0 \<and> d_cxy d0 ! i = 0 then tb else 0)"
      using i wv by (simp add: d w add_background_def is_opaque_def)
  qed
  with d0 tb len same show ?thesis by blast
qed

subsection \<open>The line mask\<close>

lemma exp_imaginary: "exp (\<i> * complex_of_real x) = cis x"
  by (simp add: cis_conv_exp)

lemma value_1d_centered:
  assumes "k \<noteq> 0" and "f \<noteq> 0"
  shows "value_1d k f a (- a) = complex_of_real (sin (2 * pi * f * a) / (pi * f))"
proof -
  define w where "w = 2 * complex_of_real pi * \<i> * complex_of_real f"
  have wnz: "w \<noteq> 0" using assms(2) by (simp add: w_def)
  have e1: "exp (- w * complex_of_real a) = cis (- (2 * pi * f * a))"
  proof -
    have "- w * complex_of_real a = \<i> * complex_of_real (- (2 * pi * f * a))"
      by (simp add: w_def algebra_simps)
    then show ?thesis by (simp only: exp_imaginary)
  qed
  have e2: "exp (- w * complex_of_real (- a)) = cis (2 * pi * f * a)"
  proof -
    have "- w * complex_of_real (- a) = \<i> * complex_of_real (2 * pi * f * a)"
      by (simp add: w_def algebra_simps)
    then show ?thesis by (simp only: exp_imaginary)
  qed
  have diff: "cis (- (2 * pi * f * a)) - cis (2 * pi * f * a)
              = - (2 * \<i> * complex_of_real (sin (2 * pi * f * a)))"
    by (simp add: complex_eq_iff)
  have "value_1d k f a (- a) = - (exp (- w * complex_of_real a) - exp (- w * complex_of_real (- a))) / w"
    using assms(1) by (simp add: value_1d_def w_def Let_def)
  also have "\<dots> = 2 * \<i> * complex_of_real (sin (2 * pi * f * a)) / w"
    unfolding e1 e2 diff by simp
  also have "\<dots> = complex_of_real (sin (2 * pi * f * a) / (pi * f))"
    using assms(2) by (simp add: w_def field_simps)
  finally show ?thesis .
qed

lemma line1D_mask: "line1D 250 800 = Inr line_mask"
  by (simp add: line1D_def Region_new_def PolygonGeometry_def is_1d_possible_def
      Edge2d_is_horizontal_def Edge2d_is_vertical_def Mask_new_def make_region_def
      set_bypass_def signed_area_def Point2d_index_def Edge2d_flip_def Point2d_minus_def
      Point2d_plus_def Point2d_div_def Box_sizes_def line_mask_def Let_def)

lemma line_grid_new:
  assumes "sx_min src = 0" and "sx_max src = 0" and "sy_min src = 0" and "sy_max src = 0"
  shows "Diffraction_new line_mask (line_tool src) = Inr (line_grid src)"
proof -
  have cs: "calc_size (3 / 5) 248 800 0 0 = Inr (- 1, 1)"
    by (simp add: calc_size_def in_int32_def Let_def)
  have rs: "calc_size (3 / 5) 248 0 0 0 = Inr (0, 0)"
    by (simp add: calc_size_def in_int32_def Let_def)
  have ex: "extent (- 1, 1) = 3" "extent (0, 0) = 1"
    by (simp_all add: extent_def)
  show ?thesis
    by (simp add: Diffraction_new_def line_tool_def line_mask_def assms cs rs ex Let_def
        init_dcos_def init_frq_def init_k_def init_cosines_def upt_3 line_grid_def
        real_sqrt_abs2 [unfolded power2_eq_square] numeral_3_eq_3)
qed

lemma line_etransmit: "etransmit_of 1 0 = Inr 1" "etransmit_of 0 0 = Inr 0"
  by (simp_all add: etransmit_of_def)

lemma line_first_order:
  "value_1d 1 (1 / 800) 125 (- 125) = complex_of_real (800 * sin (pi * 250 / 800) / pi)"
  "value_1d (- 1) (- 1 / 800) 125 (- 125) = complex_of_real (800 * sin (pi * 250 / 800) / pi)"
proof -
  show "value_1d 1 (1 / 800) 125 (- 125) = complex_of_real (800 * sin (pi * 250 / 800) / pi)"
    using value_1d_centered [of 1 "1 / 800" 125] by (simp add: field_simps)
  show "value_1d (- 1) (- 1 / 800) 125 (- 125) = complex_of_real (800 * sin (pi * 250 / 800) / pi)"
    using value_1d_centered [of "- 1" "- 1 / 800" 125] by (simp add: field_simps)
qed

lemma line_regions:
  "add_regions (line_grid src) 1 (mask_regions line_mask) =
     Inr ((line_grid src)\<lparr>d_values :=
            [complex_of_real (- sin (pi * 250 / 800) / pi),
             complex_of_real (- 250 / 800),
             complex_of_real (- sin (pi * 250 / 800) / pi)]\<rparr>)"
proof -
  have v0: "value_1d 0 0 125 (- 125) = 250"
    by (simp add: value_1d_def)
  have vm: "value_1d (- 1) (- (1 / 800)) 125 (- 125) =
              complex_of_real (800 * sin (pi * 250 / 800) / pi)"
    using line_first_order(2) by simp
  show ?thesis
    by (simp add: line_mask_def line_etransmit add_region_def add_1d_region_def
        line_grid_def Point2d_index_def Let_def upt_3
        line_first_order(1) vm v0)
qed

lemma line_diffraction:
  assumes "sx_min src = 0" and "sx_max src = 0" and "sy_min src = 0" and "sy_max src = 0"
  shows "diffraction (line_tool src) line_mask =
     Inr ((line_grid src)\<lparr>d_values :=
            [complex_of_real (- sin (pi * 250 / 800) / pi),
             complex_of_real (1 - 250 / 800),
             complex_of_real (- sin (pi * 250 / 800) / pi)]\<rparr>)"
proof -
  have bad: "\<not> is_bad line_mask" by (simp add: is_bad_def line_mask_def)
  have opq: "\<not> is_opaque line_mask" by (simp add: is_opaque_def line_mask_def)
  have bnd: "box_transmittance (mask_boundary line_mask) = 1"
            "box_phase (mask_boundary line_mask) = 0"
    by (simp_all add: line_mask_def)
  show ?thesis
    unfolding diffraction_def
    by (simp add: bad opq bnd line_grid_new [OF assms] line_etransmit line_regions
        add_background_def upt_3) (simp add: line_grid_def)
qed

lemma coherent_source_limits:
  "sx_min coherent_source = 0" "sx_max coherent_source = 0"
  "sy_min coherent_source = 0" "sy_max coherent_source = 0"
  by (simp_all add: coherent_source_def)

subsection \<open>Bounds on the first order\<close>

lemma sin_coeff_values:
  "sin_coeff 0 = 0" "sin_coeff 1 = 1" "sin_coeff 2 = 0" "sin_coeff 3 = - 1 / 6"
  "sin_coeff 4 = 0" "sin_coeff 5 = 1 / 120" "sin_coeff 6 = 0" "sin_coeff (Suc 0) = 1"
  by (simp_all add: sin_coeff_def fact_numeral)

lemma lessThan_5: "{..<5::nat} = {0, 1, 2, 3, 4}"
  by auto

lemma lessThan_7: "{..<7::nat} = {0, 1, 2, 3, 4, 5, 6}"
  by auto

lemma sin_lower3:
  assumes "0 \<le> (x::real)"
  shows "x - x ^ 3 / 6 \<le> sin x"
proof -
  have s: "(\<Sum>m<3. sin_coeff m * x ^ m) = x"
    by (simp add: numeral_3_eq_3 sin_coeff_def)
  have f: "inverse (fact 3) * \<bar>x\<bar> ^ 3 = x ^ 3 / 6"
    using assms by (simp add: fact_numeral)
  from Maclaurin_sin_bound [of x 3] show ?thesis
    unfolding s f by linarith
qed

lemma sin_upper5:
  assumes "0 \<le> (x::real)"
  shows "sin x \<le> x - x ^ 3 / 6 + x ^ 5 / 120"
proof -
  have s: "(\<Sum>m<5. sin_coeff m * x ^ m) = x - x ^ 3 / 6"
    by (simp add: lessThan_5 sin_coeff_values)
  have f: "inverse (fact 5) * \<bar>x\<bar> ^ 5 = x ^ 5 / 120"
    using assms by (simp add: fact_numeral)
  from Maclaurin_sin_bound [of x 5] show ?thesis
    unfolding s f by linarith
qed

lemma sin_lower7:
  assumes "0 \<le> (x::real)"
  shows "x - x ^ 3 / 6 + x ^ 5 / 120 - x ^ 7 / 5040 \<le> sin x"
proof -
  have s: "(\<Sum>m<7. sin_coeff m * x ^ m) = x - x ^ 3 / 6 + x ^ 5 / 120"
    by (simp add: lessThan_7 sin_coeff_values)
  have f: "inverse (fact 7) * \<bar>x\<bar> ^ 7 = x ^ 7 / 5040"
    using assms by (simp add: fact_numeral)
  from Maclaurin_sin_bound [of x 7] show ?thesis
    unfolding s f by linarith
qed

lemma pi_ge_3: "3 \<le> pi"
  using sin_x_le_x [of "pi / 6"] by (simp add: sin_30)

lemma pi_le_16_5: "pi \<le> 16 / 5"
proof -
  define y where "y = pi / 6"
  have y0: "0 \<le> y" by (simp add: y_def)
  have y1: "y \<le> 2 / 3" using pi_less_4 by (simp add: y_def)
  have half: "y - y ^ 3 / 6 \<le> 1 / 2"
    using sin_lower3 [OF y0] by (simp add: y_def sin_30)
  have cube: "y ^ 3 = y * (y * y)" by (simp add: power3_eq_cube algebra_simps)
  have sq1: "y * y \<le> (2 / 3) * (2 / 3)" using y0 y1 by (intro mult_mono) simp_all
  have "y * (y * y) \<le> y * ((2 / 3) * (2 / 3))" using y0 sq1 by (intro mult_left_mono)
  with half cube have y2: "y \<le> 27 / 50" by simp
  have sq2: "y * y \<le> (27 / 50) * (27 / 50)" using y0 y2 by (intro mult_mono) simp_all
  have "y * (y * y) \<le> y * ((27 / 50) * (27 / 50))" using y0 sq2 by (intro mult_left_mono)
  with half cube have "y \<le> 8 / 15" by simp
  then show ?thesis by (simp add: y_def)
qed

lemma first_order_upper: "sin (pi * 250 / 800) / pi < 27 / 100"
proof -
  define x where "x = pi * 250 / 800"
  define t where "t = x * x"
  have x0: "0 \<le> x" by (simp add: x_def)
  have xl: "15 / 16 \<le> x" using pi_ge_3 by (simp add: x_def)
  have xu: "x \<le> 5 / 4" using pi_less_4 by (simp add: x_def)
  have t1: "(15 / 16) * (15 / 16) \<le> t" unfolding t_def using xl by (intro mult_mono) simp_all
  have t2: "t \<le> (5 / 4) * (5 / 4)" unfolding t_def using xu x0 by (intro mult_mono) simp_all
  have "(t - 225 / 256) * (t - 19) \<le> 0"
    using t1 t2 by (intro mult_nonneg_nonpos) simp_all
  moreover have "(t - 225 / 256) * (t - 19) = t * t - (5089 / 256) * t + 4275 / 256"
    by (simp add: field_simps)
  ultimately have tt: "t * t \<le> (5089 / 256) * t - 4275 / 256"
    by linarith
  have t1': "225 / 256 \<le> t" using t1 by simp
  have h: "1 - t / 6 + t * t / 120 < 864 / 1000"
    using tt t1' by linarith
  have poly: "x - x ^ 3 / 6 + x ^ 5 / 120 = x * (1 - t / 6 + t * t / 120)"
    by (simp add: t_def power3_eq_cube eval_nat_numeral algebra_simps)
  have xpos: "0 < x" using xl by simp
  have "sin x \<le> x * (1 - t / 6 + t * t / 120)"
    using sin_upper5 [OF x0] poly by simp
  also have "\<dots> < x * (864 / 1000)"
    using h xpos by (intro mult_strict_left_mono)
  finally have "sin x < 27 / 100 * pi" by (simp add: x_def)
  then show ?thesis by (simp add: x_def divide_less_eq)
qed

lemma first_order_lower: "26 / 100 < sin (pi * 250 / 800) / pi"
proof -
  define x where "x = pi * 250 / 800"
  define t where "t = x * x"
  have x0: "0 \<le> x" by (simp add: x_def)
  have xpos: "0 < x" by (simp add: x_def)
  have xu: "x \<le> 1" using pi_le_16_5 by (simp add: x_def)
  have t0: "0 \<le> t" by (simp add: t_def)
  have t1: "t \<le> 1" unfolding t_def using xu x0 mult_mono [of x 1 x 1] by simp
  have t3: "t * t * t \<le> t"
    using mult_mono [of "t * t" 1 t t] mult_mono [of t 1 t 1] t0 t1 by simp
  have tt: "0 \<le> t * t" by simp
  have h: "832 / 1000 < 1 - t / 6 + t * t / 120 - t * t * t / 5040"
    using t3 tt t1 by linarith
  have poly: "x - x ^ 3 / 6 + x ^ 5 / 120 - x ^ 7 / 5040 =
              x * (1 - t / 6 + t * t / 120 - t * t * t / 5040)"
    by (simp add: t_def power3_eq_cube eval_nat_numeral algebra_simps)
  have "x * (832 / 1000) < x * (1 - t / 6 + t * t / 120 - t * t * t / 5040)"
    using h xpos by (intro mult_strict_left_mono)
  also have "\<dots> \<le> sin x"
    using sin_lower7 [OF x0] poly by simp
  finally have "26 / 100 * pi < sin x" by (simp add: x_def)
  then show ?thesis by (simp add: x_def less_divide_eq)
qed

subsection \<open>The spectrum of the line mask\<close>

text \<open>
  C1.  For the binary line of width 250 on a pitch of 800 (region of transmittance 0 and
  phase 0 on a boundary of transmittance 1 and phase 0), at wavelength 248 and numerical
  aperture 0.6, and for every source whose non-zero support is the single point at the
  origin, \<^verbatim>\<open>diffraction\<close> returns the three orders \<open>-1, 0, 1\<close>.  The zero order is
  \<open>1 - 250/800 = 0.6875\<close> with imaginary part 0, and the orders \<open>+1\<close> and \<open>-1\<close> are both
  \<open>-sin(\<pi>\<cdot>250/800)/\<pi>\<close>, a real number strictly between \<open>-0.27\<close> and \<open>-0.26\<close>.
\<close>

theorem line1D_diffraction_orders:
  assumes "sx_min src = 0" and "sx_max src = 0" and "sy_min src = 0" and "sy_max src = 0"
  shows "line1D 250 800 = Inr line_mask \<and>
         diffraction (line_tool src) line_mask =
           Inr ((line_grid src)\<lparr>d_values :=
                  [complex_of_real (- sin (pi * 250 / 800) / pi),
                   complex_of_real (1 - 250 / 800),
                   complex_of_real (- sin (pi * 250 / 800) / pi)]\<rparr>) \<and>
         d_kx (line_grid src) = [- 1, 0, 1] \<and> d_ky (line_grid src) = [0] \<and>
         (1 - 250 / 800 = (6875 / 10000 :: real)) \<and>
         - 27 / 100 < - sin (pi * 250 / 800) / pi \<and>
         - sin (pi * 250 / 800) / pi < - 26 / 100"
proof -
  have "d_kx (line_grid src) = [- 1, 0, 1]" "d_ky (line_grid src) = [0]"
    by (simp_all add: line_grid_def)
  moreover have "- 27 / 100 < - sin (pi * 250 / 800) / pi"
    using first_order_upper by simp
  moreover have "- sin (pi * 250 / 800) / pi < - 26 / 100"
    using first_order_lower by simp
  moreover have "1 - 250 / 800 = (6875 / 10000 :: real)" by simp
  ultimately show ?thesis
    using line1D_mask line_diffraction [OF assms] by blast
qed

theorem line1D_diffraction_orders_witness:
  "diffraction (line_tool coherent_source) line_mask =
     Inr ((line_grid coherent_source)\<lparr>d_values :=
            [complex_of_real (- sin (pi * 250 / 800) / pi),
             complex_of_real (1 - 250 / 800),
             complex_of_real (- sin (pi * 250 / 800) / pi)]\<rparr>)"
  using line1D_diffraction_orders [of coherent_source]
  by (simp add: coherent_source_def)

text \<open>
  The first order is not the decimal \<open>-0.2759\<close>: at the coherent source the orders \<open>+1\<close>
  and \<open>-1\<close> of the result both lie more than 0.005 above it.
\<close>

theorem line1D_first_order_counterexample:
  "5 / 1000 < Re (d_values (projr (diffraction (line_tool coherent_source) line_mask)) ! 2)
               - (- 2759 / 10000) \<and>
   5 / 1000 < Re (d_values (projr (diffraction (line_tool coherent_source) line_mask)) ! 0)
               - (- 2759 / 10000)"
proof -
  have "- 27 / 100 < - sin (pi * 250 / 800) / pi"
    using first_order_upper by simp
  then show ?thesis
    by (simp add: line_diffraction [OF coherent_source_limits])
qed

subsection \<open>The terms of the regions in closed form\<close>

lemma value_1d_spec: "value_1d k f dstv orgv = spec_order_1d k f dstv orgv"
  by (simp add: value_1d_def spec_order_1d_def Let_def)

lemma foldl_1d_nth:
  assumes "n \<le> length xs"
  shows "\<forall>j<length xs. foldl (\<lambda>vals i. vals[i := vals ! i + g i]) xs [0..<n] ! j =
           (if j < n then xs ! j + g j else xs ! j)"
  using assms
proof (induction n)
  case 0
  show ?case by simp
next
  case (Suc n)
  then have IH: "\<forall>j<length xs. foldl (\<lambda>vals i. vals[i := vals ! i + g i]) xs [0..<n] ! j =
           (if j < n then xs ! j + g j else xs ! j)"
    and n: "n < length xs" by simp_all
  have len: "length (foldl (\<lambda>vals i. vals[i := vals ! i + g i]) xs [0..<n]) = length xs"
    by (rule length_foldl_1d)
  show ?case
    using IH n len by (auto simp: nth_list_update less_Suc_eq)
qed

lemma region_term_1d:
  assumes tr: "etransmit_of (transmittance reg) (phase reg) = Inr tr"
    and ok: "add_region (d0\<lparr>d_values := replicate (length (d_values d0)) 0\<rparr>) reg (tr - tb) = Inr dz"
    and ax: "axis (geometry reg) \<noteq> DIM_2D"
    and i: "i < length (d_values d0)"
  shows "region_term d0 tb reg ! i =
     (if i < length (if axis (geometry reg) = DIM_1D_X then d_kx d0 else d_ky d0)
      then (tr - tb)
           / complex_of_real (Point2d_index (d_pitch d0) (dimension_value (axis (geometry reg))))
           * spec_order_1d
               ((if axis (geometry reg) = DIM_1D_X then d_kx d0 else d_ky d0) ! i)
               ((if axis (geometry reg) = DIM_1D_X then d_frqx d0 else d_frqy d0) ! i)
               (Point2d_index (dst (hd (edges (geometry reg))))
                  (dimension_value (axis (geometry reg))))
               (Point2d_index (org (hd (edges (geometry reg))))
                  (dimension_value (axis (geometry reg))))
      else 0)"
proof -
  define dzero where "dzero = d0\<lparr>d_values := replicate (length (d_values d0)) 0\<rparr>"
  define p where "p = Point2d_index (d_pitch d0) (dimension_value (axis (geometry reg)))"
  define k where "k = (if axis (geometry reg) = DIM_1D_X then d_kx d0 else d_ky d0)"
  define frq where "frq = (if axis (geometry reg) = DIM_1D_X then d_frqx d0 else d_frqy d0)"
  define dstv where "dstv = Point2d_index (dst (hd (edges (geometry reg))))
                  (dimension_value (axis (geometry reg)))"
  define orgv where "orgv = Point2d_index (org (hd (edges (geometry reg))))
                  (dimension_value (axis (geometry reg)))"
  define g where "g = (\<lambda>i. (tr - tb) / complex_of_real p * value_1d (k ! i) (frq ! i) dstv orgv)"
  from ok ax have a1: "add_1d_region dzero reg ((tr - tb) / complex_of_real p) = Inr dz"
    by (auto simp: add_region_def Let_def dzero_def p_def split: if_splits)
  then obtain r rest where es: "edges (geometry reg) = r # rest"
    by (auto simp: add_1d_region_def split: list.splits)
  from a1 es ax have len: "length k \<le> length (d_values d0)"
    by (auto simp: add_1d_region_def k_def dzero_def Let_def split: if_splits)
  from a1 es ax len have dz: "d_values dz =
      foldl (\<lambda>vals i. vals[i := vals ! i + g i]) (replicate (length (d_values d0)) 0) [0..<length k]"
    by (auto simp: add_1d_region_def k_def frq_def g_def dstv_def orgv_def dzero_def Let_def
        split: if_splits)
  have "region_term d0 tb reg = d_values dz"
    using tr ok by (simp add: region_term_def)
  then have "region_term d0 tb reg ! i = (if i < length k then g i else 0)"
    using foldl_1d_nth [of "length k" "replicate (length (d_values d0)) 0" g] len i
    by (simp add: dz)
  then show ?thesis
    unfolding g_def value_1d_spec k_def frq_def dstv_def orgv_def p_def by simp
qed

lemma index_inj:
  fixes c c0 r r0 n :: nat
  assumes "r < n" and "r0 < n"
  shows "c * n + r = c0 * n + r0 \<longleftrightarrow> c = c0 \<and> r = r0"
proof
  assume eq: "c * n + r = c0 * n + r0"
  have "(c * n + r) div n = c" "(c * n + r) mod n = r"
       "(c0 * n + r0) div n = c0" "(c0 * n + r0) mod n = r0"
    using assms by simp_all
  with eq show "c = c0 \<and> r = r0" by metis
qed simp

lemma within_circle_negative:
  assumes "r < 0"
  shows "\<not> within_circle x y cx cy r"
  using assms by (auto simp: within_circle_def within_circle3_def Let_def)

lemma length_add_2d_step_flags:
  "length (snd (add_2d_step d region f (vals, calc) v)) = length calc"
  by (cases v) (auto simp: add_2d_step_def Let_def)

lemma add_2d_step_at:
  assumes "r0 < d_rows d" and "r < d_rows d"
    and "c0 * d_rows d + r0 < length vals" and "length calc = length vals"
    and "d_cxy d ! (c0 * d_rows d + r0) = 0"
  shows "fst (add_2d_step d region f (vals, calc) ((scx, scy), c, r)) ! (c0 * d_rows d + r0) =
           (if c = c0 \<and> r = r0 \<and> \<not> calc ! (c0 * d_rows d + r0) \<and> 0 \<le> d_numeric_aperture d
            then vals ! (c0 * d_rows d + r0)
                 + f * calc_2d_region region (d_kx d ! c0) (d_ky d ! r0)
                         (d_frqx d ! c0) (d_frqy d ! r0)
            else vals ! (c0 * d_rows d + r0))"
    and "snd (add_2d_step d region f (vals, calc) ((scx, scy), c, r)) ! (c0 * d_rows d + r0) =
           (calc ! (c0 * d_rows d + r0) \<or> (c = c0 \<and> r = r0 \<and> 0 \<le> d_numeric_aperture d))"
proof -
  have inj: "c * d_rows d + r = c0 * d_rows d + r0 \<longleftrightarrow> c = c0 \<and> r = r0"
    by (rule index_inj [OF assms(2,1)])
  have neg: "\<not> 0 \<le> d_numeric_aperture d \<Longrightarrow>
             \<not> within_circle (d_cx d ! c0) (d_cy d ! r0) scx scy (d_numeric_aperture d)"
    by (rule within_circle_negative) simp
  show "fst (add_2d_step d region f (vals, calc) ((scx, scy), c, r)) ! (c0 * d_rows d + r0) =
           (if c = c0 \<and> r = r0 \<and> \<not> calc ! (c0 * d_rows d + r0) \<and> 0 \<le> d_numeric_aperture d
            then vals ! (c0 * d_rows d + r0)
                 + f * calc_2d_region region (d_kx d ! c0) (d_ky d ! r0)
                         (d_frqx d ! c0) (d_frqy d ! r0)
            else vals ! (c0 * d_rows d + r0))"
    using inj neg assms(3,4,5)
    by (auto simp: add_2d_step_def Let_def nth_list_update)
  show "snd (add_2d_step d region f (vals, calc) ((scx, scy), c, r)) ! (c0 * d_rows d + r0) =
           (calc ! (c0 * d_rows d + r0) \<or> (c = c0 \<and> r = r0 \<and> 0 \<le> d_numeric_aperture d))"
    using inj neg assms(3,4,5)
    by (auto simp: add_2d_step_def Let_def nth_list_update)
qed

lemma foldl_2d_at:
  assumes "r0 < d_rows d" and "d_cxy d ! (c0 * d_rows d + r0) = 0"
    and "\<forall>v\<in>set vs. snd (snd v) < d_rows d"
    and "c0 * d_rows d + r0 < length vals" and "length calc = length vals"
  shows "fst (foldl (add_2d_step d region f) (vals, calc) vs) ! (c0 * d_rows d + r0) =
           (if \<not> calc ! (c0 * d_rows d + r0) \<and> 0 \<le> d_numeric_aperture d
               \<and> (\<exists>p. (p, c0, r0) \<in> set vs)
            then vals ! (c0 * d_rows d + r0)
                 + f * calc_2d_region region (d_kx d ! c0) (d_ky d ! r0)
                         (d_frqx d ! c0) (d_frqy d ! r0)
            else vals ! (c0 * d_rows d + r0)) \<and>
         snd (foldl (add_2d_step d region f) (vals, calc) vs) ! (c0 * d_rows d + r0) =
           (calc ! (c0 * d_rows d + r0)
            \<or> (0 \<le> d_numeric_aperture d \<and> (\<exists>p. (p, c0, r0) \<in> set vs)))"
  using assms(3,4,5)
proof (induction vs arbitrary: vals calc)
  case Nil
  show ?case by simp
next
  case (Cons v vs)
  obtain scx scy c r where v: "v = ((scx, scy), c, r)"
    by (metis prod.exhaust)
  define st where "st = add_2d_step d region f (vals, calc) v"
  have r: "r < d_rows d" using Cons.prems(1) v by simp
  have l1: "length (fst st) = length vals" "length (snd st) = length calc"
    unfolding st_def by (rule length_add_2d_step, rule length_add_2d_step_flags)
  note at = add_2d_step_at [OF assms(1) r Cons.prems(2,3) assms(2), of region f scx scy c,
                            folded v, folded st_def]
  have rest: "\<forall>v\<in>set vs. snd (snd v) < d_rows d" using Cons.prems(1) by simp
  have IH: "fst (foldl (add_2d_step d region f) (fst st, snd st) vs) ! (c0 * d_rows d + r0) =
           (if \<not> snd st ! (c0 * d_rows d + r0) \<and> 0 \<le> d_numeric_aperture d
               \<and> (\<exists>p. (p, c0, r0) \<in> set vs)
            then fst st ! (c0 * d_rows d + r0)
                 + f * calc_2d_region region (d_kx d ! c0) (d_ky d ! r0)
                         (d_frqx d ! c0) (d_frqy d ! r0)
            else fst st ! (c0 * d_rows d + r0)) \<and>
         snd (foldl (add_2d_step d region f) (fst st, snd st) vs) ! (c0 * d_rows d + r0) =
           (snd st ! (c0 * d_rows d + r0)
            \<or> (0 \<le> d_numeric_aperture d \<and> (\<exists>p. (p, c0, r0) \<in> set vs)))"
    by (rule Cons.IH [OF rest]) (simp_all add: l1 Cons.prems)
  have fold: "foldl (add_2d_step d region f) (vals, calc) (v # vs) =
              foldl (add_2d_step d region f) (fst st, snd st) vs"
    by (simp add: st_def)
  have mem: "(\<exists>p. (p, c0, r0) \<in> set (v # vs)) \<longleftrightarrow>
             (c = c0 \<and> r = r0) \<or> (\<exists>p. (p, c0, r0) \<in> set vs)"
    using v by auto
  show ?case
    unfolding fold mem using IH at by auto
qed

lemma in_concat_map:
  "a \<in> set xs \<Longrightarrow> x \<in> set (f a) \<Longrightarrow> x \<in> set (concat (map f xs))"
  by auto

lemma visits_2d_member:
  "(p, c, r) \<in> set (visits_2d d points) \<longleftrightarrow>
     p \<in> set points \<and> c < length (d_kx d) \<and> r < length (d_ky d)"
proof
  assume "(p, c, r) \<in> set (visits_2d d points)"
  then show "p \<in> set points \<and> c < length (d_kx d) \<and> r < length (d_ky d)"
    by (auto simp: visits_2d_def)
next
  assume a: "p \<in> set points \<and> c < length (d_kx d) \<and> r < length (d_ky d)"
  have "(p, c, r) \<in> set (map (\<lambda>r. (p, c, r)) [0..<length (d_ky d)])"
    using a by simp
  then have "(p, c, r) \<in> set (concat (map (\<lambda>c. map (\<lambda>r. (p, c, r)) [0..<length (d_ky d)])
                                         [0..<length (d_kx d)]))"
    by (rule in_concat_map [rotated]) (use a in simp)
  then show "(p, c, r) \<in> set (visits_2d d points)"
    unfolding visits_2d_def by (rule in_concat_map [rotated]) (use a in simp)
qed

lemma visits_2d_rows:
  "\<forall>v\<in>set (visits_2d d points). snd (snd v) < length (d_ky d)"
  by (auto simp: visits_2d_def)

lemma source_points_length:
  "source_points src na nz = Inr points \<Longrightarrow> length points = length nz"
proof (induction nz arbitrary: points)
  case Nil
  then show ?case by simp
next
  case (Cons a nz)
  obtain row col where a: "a = (row, col)" by (cases a)
  from Cons.prems obtain ps where
    "source_points src na nz = Inr ps" "points = (na * ss_cx src ! col, na * ss_cy src ! row) # ps"
    unfolding a by (auto split: if_splits sum.splits)
  with Cons.IH show ?case by simp
qed

lemma foldl_plus_sum:
  fixes z :: complex
  shows "foldl (\<lambda>a e. a + g e) z es = z + sum_list (map g es)"
  by (induction es arbitrary: z) (simp_all add: algebra_simps)

lemma of_real_sum_list:
  "complex_of_real (sum_list (map g es)) = sum_list (map (\<lambda>e. complex_of_real (g e)) es)"
  by (induction es) simp_all

lemma edge_value_2d_zero_order:
  "edge_value_2d e 0 0 fx fy =
     complex_of_real ((p_x (dst e) - p_x (org e)) * (p_y (dst e) + p_y (org e)) / 2)"
  by (simp add: edge_value_2d_def Let_def Edge2d_area_def Edge2d_dx_def)

lemma calc_2d_region_zero_order:
  "calc_2d_region reg 0 0 fx fy = complex_of_real (spec_zero_order_2d (edges (geometry reg)))"
  unfolding calc_2d_region_def spec_zero_order_2d_def foldl_plus_sum of_real_sum_list
  by (simp add: edge_value_2d_zero_order)

lemma region_term_2d_zero_order:
  assumes tr: "etransmit_of (transmittance reg) (phase reg) = Inr tr"
    and ok: "add_region (d0\<lparr>d_values := replicate (length (d_values d0)) 0\<rparr>) reg (tr - tb) = Inr dz"
    and ax: "axis (geometry reg) = DIM_2D"
    and grid: "length (d_ky d0) = d_rows d0" "length (d_kx d0) = d_cols d0"
              "length (d_values d0) = d_rows d0 * d_cols d0"
    and bin: "c0 < d_cols d0" "r0 < d_rows d0" "d_kx d0 ! c0 = 0" "d_ky d0 ! r0 = 0"
             "d_cxy d0 ! (c0 * d_rows d0 + r0) = 0"
  shows "region_term d0 tb reg ! (c0 * d_rows d0 + r0) =
     (if non_zeros (d_source_shape d0) \<noteq> [] \<and> 0 \<le> d_numeric_aperture d0
      then (tr - tb) / complex_of_real (p_x (d_pitch d0)) / complex_of_real (p_y (d_pitch d0))
           * complex_of_real (spec_zero_order_2d (edges (geometry reg)))
      else 0)"
proof -
  define dzero where "dzero = d0\<lparr>d_values := replicate (length (d_values d0)) 0\<rparr>"
  define f where "f = (tr - tb) / complex_of_real (p_x (d_pitch d0))
                      / complex_of_real (p_y (d_pitch d0))"
  define idx where "idx = c0 * d_rows d0 + r0"
  from ok ax have a2: "add_2d_region dzero reg f = Inr dz"
    by (auto simp: add_region_def dzero_def f_def split: if_splits)
  then obtain points where
    ps: "source_points (d_source_shape d0) (d_numeric_aperture d0) (non_zeros (d_source_shape d0))
           = Inr points"
    by (auto simp: add_2d_region_def dzero_def split: sum.splits)
  from a2 ps have dz: "d_values dz =
      fst (foldl (add_2d_step d0 reg f)
             (replicate (length (d_values d0)) 0, replicate (length (d_values d0)) False)
             (visits_2d d0 points))"
    by (auto simp: add_2d_region_def dzero_def)
  have lt: "idx < length (d_values d0)"
  proof -
    have "c0 * d_rows d0 + r0 < c0 * d_rows d0 + d_rows d0" using bin(2) by simp
    also have "\<dots> = Suc c0 * d_rows d0" by simp
    also have "\<dots> \<le> d_cols d0 * d_rows d0" using bin(1) by (intro mult_le_mono1) simp
    finally show ?thesis by (simp add: idx_def grid(3) mult.commute)
  qed
  have rows: "\<forall>v\<in>set (visits_2d d0 points). snd (snd v) < d_rows d0"
    using visits_2d_rows [of d0 points] by (simp add: grid(1))
  have hit: "(\<exists>p. (p, c0, r0) \<in> set (visits_2d d0 points)) \<longleftrightarrow>
             non_zeros (d_source_shape d0) \<noteq> []"
  proof -
    have "(\<exists>p. (p, c0, r0) \<in> set (visits_2d d0 points)) \<longleftrightarrow> points \<noteq> []"
    proof
      assume "\<exists>p. (p, c0, r0) \<in> set (visits_2d d0 points)"
      then obtain p where "p \<in> set points" by (auto simp: visits_2d_member)
      then show "points \<noteq> []" by auto
    next
      assume "points \<noteq> []"
      then have "hd points \<in> set points" by simp
      then have "(hd points, c0, r0) \<in> set (visits_2d d0 points)"
        using bin(1,2) by (simp add: visits_2d_member grid(1,2))
      then show "\<exists>p. (p, c0, r0) \<in> set (visits_2d d0 points)" by blast
    qed
    also have "\<dots> \<longleftrightarrow> non_zeros (d_source_shape d0) \<noteq> []"
      using source_points_length [OF ps] by auto
    finally show ?thesis .
  qed
  note at = foldl_2d_at [OF bin(2) bin(5) rows, of "replicate (length (d_values d0)) 0"
                            "replicate (length (d_values d0)) False" reg f, folded idx_def]
  have "d_values dz ! idx =
          (if 0 \<le> d_numeric_aperture d0 \<and> non_zeros (d_source_shape d0) \<noteq> []
           then f * calc_2d_region reg (d_kx d0 ! c0) (d_ky d0 ! r0)
                      (d_frqx d0 ! c0) (d_frqy d0 ! r0)
           else 0)"
    using at lt hit by (simp add: dz idx_def)
  moreover have "region_term d0 tb reg = d_values dz"
    using tr ok by (simp add: region_term_def)
  ultimately show ?thesis
    by (simp add: idx_def f_def bin(3,4) calc_2d_region_zero_order)
qed

lemma add_regions_each:
  assumes "add_regions d tb regs = Inr d'" and "reg \<in> set regs"
  shows "\<exists>tr dz. etransmit_of (transmittance reg) (phase reg) = Inr tr \<and>
           add_region (d\<lparr>d_values := replicate (length (d_values d)) 0\<rparr>) reg (tr - tb) = Inr dz"
  using assms
proof (induction regs arbitrary: d)
  case Nil
  then show ?case by simp
next
  case (Cons a regs)
  from Cons.prems(1) obtain tr d1 where
    tr: "etransmit_of (transmittance a) (phase a) = Inr tr" and
    d1: "add_region d a (tr - tb) = Inr d1" and
    rest: "add_regions d1 tb regs = Inr d'"
    by (auto split: sum.splits)
  from add_region_split [OF d1] obtain z where
    z: "add_region (d\<lparr>d_values := replicate (length (d_values d)) 0\<rparr>) a (tr - tb)
          = Inr (d\<lparr>d_values := z\<rparr>)" and
    lz: "length z = length (d_values d)" and
    d1': "d1 = d\<lparr>d_values := vadd z (d_values d)\<rparr>"
    by blast
  show ?case
  proof (cases "reg = a")
    case True
    with tr z show ?thesis by blast
  next
    case False
    with Cons.prems(2) have "reg \<in> set regs" by simp
    from Cons.IH [OF rest this] obtain tr' dz where
      "etransmit_of (transmittance reg) (phase reg) = Inr tr'"
      "add_region (d1\<lparr>d_values := replicate (length (d_values d1)) 0\<rparr>) reg (tr' - tb) = Inr dz"
      by blast
    moreover have "d1\<lparr>d_values := replicate (length (d_values d1)) 0\<rparr> =
                   d\<lparr>d_values := replicate (length (d_values d)) 0\<rparr>"
      by (simp add: d1' length_vadd lz)
    ultimately show ?thesis by auto
  qed
qed

lemma etransmit_of_value:
  assumes "etransmit_of t ph = Inr tr"
  shows "tr = complex_of_real (sqrt t)
              * exp (\<i> * complex_of_real ph * complex_of_real pi / 180)"
  using assms by (auto simp: etransmit_of_def split: if_splits)

subsection \<open>The square mask\<close>

lemma square_mask_built:
  "(case Region_new [\<lparr>p_x = - 100, p_y = - 100\<rparr>, \<lparr>p_x = 100, p_y = - 100\<rparr>,
                     \<lparr>p_x = 100, p_y = 100\<rparr>, \<lparr>p_x = - 100, p_y = 100\<rparr>] 0 0 of
      Inl e \<Rightarrow> Inl e
    | Inr region \<Rightarrow>
        Mask_new [region]
          \<lparr>diag = \<lparr>org = \<lparr>p_x = - 400, p_y = - 400\<rparr>, dst = \<lparr>p_x = 400, p_y = 400\<rparr>\<rparr>,
           box_transmittance = 1, box_phase = 0\<rparr>) = Inr square_mask"
  by (simp add: Region_new_def PolygonGeometry_def is_1d_possible_def is_2d_possible_def
      Mask_new_def make_region_def set_bypass_def signed_area_def Edge2d_area_def Edge2d_dx_def
      Edge2d_flip_def Point2d_minus_def Point2d_plus_def Point2d_div_def Box_sizes_def
      square_mask_def Let_def)

lemma square_grid_new:
  assumes "sx_min src = 0" and "sx_max src = 0" and "sy_min src = 0" and "sy_max src = 0"
  shows "Diffraction_new square_mask (line_tool src) = Inr (square_grid src)"
proof -
  have cs: "calc_size (3 / 5) 248 800 0 0 = Inr (- 1, 1)"
    by (simp add: calc_size_def in_int32_def Let_def)
  have ex: "extent (- 1, 1) = 3"
    by (simp add: extent_def)
  show ?thesis
    by (simp add: Diffraction_new_def line_tool_def square_mask_def assms cs ex Let_def
        init_dcos_def init_frq_def init_k_def upt_3 square_grid_def)
qed

lemma square_diffraction_defined:
  "\<exists>d. diffraction (line_tool coherent_source) square_mask = Inr d"
proof -
  have bad: "\<not> is_bad square_mask" by (simp add: is_bad_def square_mask_def)
  have bnd: "box_transmittance (mask_boundary square_mask) = 1"
            "box_phase (mask_boundary square_mask) = 0"
    by (simp_all add: square_mask_def)
  obtain reg where regs: "mask_regions square_mask = [reg]" and
    reg: "transmittance reg = 0" "phase reg = 0" "axis (geometry reg) = DIM_2D"
    by (simp add: square_mask_def)
  have sp: "\<exists>ps. source_points coherent_source (6 / 10) (non_zeros coherent_source) = Inr ps"
    by (simp add: coherent_source_def)
  then have "\<exists>d1. add_region (square_grid coherent_source) reg (0 - 1) = Inr d1"
    by (auto simp: add_region_def add_2d_region_def reg square_grid_def)
  then obtain d1 where "add_regions (square_grid coherent_source) 1 (mask_regions square_mask) = Inr d1"
    by (auto simp: regs line_etransmit reg)
  then show ?thesis
    by (simp add: diffraction_def bad bnd square_grid_new [OF coherent_source_limits]
        line_etransmit)
qed

subsection \<open>The background term\<close>

text \<open>
  C2.  Whenever \<^verbatim>\<open>diffraction\<close> returns, the grid \<open>d0\<close> and the boundary transmission
  \<open>tb = sqrt(transmittance) \<cdot> exp(j \<cdot> phase \<cdot> \<pi> / 180)\<close> exist, and the value of every bin
  (column \<open>c\<close>, row \<open>r\<close>) is the sum over the regions of the region's term, plus \<open>tb\<close>
  exactly when the boundary transmittance is not 0 and the bin is the zero order.  The
  zero order is the bin whose direction-cosine magnitude is 0, so a bin with a non-zero
  magnitude gets no background, and an opaque mask gets none in any bin.  The term of a
  region is the closed form of the specification: for a one-dimensional region at every
  linear index of its order vector the weight \<open>(tr - tb) / pitch\<close> times the closed form of
  that order, and 0 beyond; for a region in the plane at the zero order the weight
  \<open>(tr - tb) / (pitch\<^sub>x \<cdot> pitch\<^sub>y)\<close> times the sum of the edge trapezoids, provided the source
  has a non-zero point and the numerical aperture is not negative (otherwise the loop
  never computes the bin and the term is 0).
\<close>

theorem diffraction_closed_forms:
  assumes "diffraction tool msk = Inr d"
  shows "\<exists>d0 tb.
           Diffraction_new msk tool = Inr d0 \<and>
           etransmit_of (box_transmittance (mask_boundary msk)) (box_phase (mask_boundary msk))
             = Inr tb \<and>
           tb = complex_of_real (sqrt (box_transmittance (mask_boundary msk)))
                * exp (\<i> * complex_of_real (box_phase (mask_boundary msk))
                         * complex_of_real pi / 180) \<and>
           length (d_values d) = d_rows d0 * d_cols d0 \<and>
           (\<forall>c<d_cols d0. \<forall>r<d_rows d0.
              d_values d ! (c * d_rows d0 + r) =
                (\<Sum>reg\<leftarrow>mask_regions msk. region_term d0 tb reg ! (c * d_rows d0 + r))
                + (if box_transmittance (mask_boundary msk) \<noteq> 0
                      \<and> d_kx d0 ! c = 0 \<and> d_ky d0 ! r = 0
                   then tb else 0) \<and>
              (d_cxy d0 ! (c * d_rows d0 + r) = 0 \<longleftrightarrow> d_kx d0 ! c = 0 \<and> d_ky d0 ! r = 0)) \<and>
           (\<forall>reg\<in>set (mask_regions msk). \<exists>tr.
              etransmit_of (transmittance reg) (phase reg) = Inr tr \<and>
              tr = complex_of_real (sqrt (transmittance reg))
                   * exp (\<i> * complex_of_real (phase reg) * complex_of_real pi / 180) \<and>
              (axis (geometry reg) \<noteq> DIM_2D \<longrightarrow>
                 (\<forall>i<d_rows d0 * d_cols d0.
                    region_term d0 tb reg ! i =
                      (if i < length (if axis (geometry reg) = DIM_1D_X then d_kx d0 else d_ky d0)
                       then (tr - tb)
                            / complex_of_real (Point2d_index (d_pitch d0)
                                                 (dimension_value (axis (geometry reg))))
                            * spec_order_1d
                                ((if axis (geometry reg) = DIM_1D_X then d_kx d0 else d_ky d0) ! i)
                                ((if axis (geometry reg) = DIM_1D_X then d_frqx d0 else d_frqy d0) ! i)
                                (Point2d_index (dst (hd (edges (geometry reg))))
                                   (dimension_value (axis (geometry reg))))
                                (Point2d_index (org (hd (edges (geometry reg))))
                                   (dimension_value (axis (geometry reg))))
                       else 0))) \<and>
              (axis (geometry reg) = DIM_2D \<longrightarrow>
                 (\<forall>c<d_cols d0. \<forall>r<d_rows d0.
                    d_kx d0 ! c = 0 \<and> d_ky d0 ! r = 0 \<longrightarrow>
                    region_term d0 tb reg ! (c * d_rows d0 + r) =
                      (if non_zeros (d_source_shape d0) \<noteq> [] \<and> 0 \<le> d_numeric_aperture d0
                       then (tr - tb) / complex_of_real (p_x (d_pitch d0))
                                      / complex_of_real (p_y (d_pitch d0))
                            * complex_of_real (spec_zero_order_2d (edges (geometry reg)))
                       else 0))))"
proof -
  from diffraction_structure [OF assms] obtain d0 tb where
    d0: "Diffraction_new msk tool = Inr d0" and
    tb: "etransmit_of (box_transmittance (mask_boundary msk)) (box_phase (mask_boundary msk))
           = Inr tb" and
    len: "length (d_values d) = length (d_values d0)" and
    vals: "\<forall>i<length (d_values d).
              d_values d ! i =
                (\<Sum>reg\<leftarrow>mask_regions msk. region_term d0 tb reg ! i)
                + (if box_transmittance (mask_boundary msk) \<noteq> 0 \<and> d_cxy d0 ! i = 0
                   then tb else 0)"
    by blast
  note grid = Diffraction_new_grid [OF d0]
  note tbv = etransmit_of_value [OF tb]
  have len': "length (d_values d) = d_rows d0 * d_cols d0"
    using len grid(1) by simp
  have bins: "\<forall>c<d_cols d0. \<forall>r<d_rows d0.
      d_values d ! (c * d_rows d0 + r) =
        (\<Sum>reg\<leftarrow>mask_regions msk. region_term d0 tb reg ! (c * d_rows d0 + r))
        + (if box_transmittance (mask_boundary msk) \<noteq> 0 \<and> d_kx d0 ! c = 0 \<and> d_ky d0 ! r = 0
           then tb else 0) \<and>
      (d_cxy d0 ! (c * d_rows d0 + r) = 0 \<longleftrightarrow> d_kx d0 ! c = 0 \<and> d_ky d0 ! r = 0)"
  proof (intro allI impI)
    fix c r assume c: "c < d_cols d0" and r: "r < d_rows d0"
    have "c * d_rows d0 + r < c * d_rows d0 + d_rows d0" using r by simp
    also have "\<dots> = Suc c * d_rows d0" by simp
    also have "\<dots> \<le> d_cols d0 * d_rows d0" using c by (intro mult_le_mono1) simp
    finally have i: "c * d_rows d0 + r < length (d_values d)"
      using len' by (simp add: mult.commute)
    have z: "d_cxy d0 ! (c * d_rows d0 + r) = 0 \<longleftrightarrow> d_kx d0 ! c = 0 \<and> d_ky d0 ! r = 0"
      using grid(5) c r by blast
    show "d_values d ! (c * d_rows d0 + r) =
        (\<Sum>reg\<leftarrow>mask_regions msk. region_term d0 tb reg ! (c * d_rows d0 + r))
        + (if box_transmittance (mask_boundary msk) \<noteq> 0 \<and> d_kx d0 ! c = 0 \<and> d_ky d0 ! r = 0
           then tb else 0) \<and>
      (d_cxy d0 ! (c * d_rows d0 + r) = 0 \<longleftrightarrow> d_kx d0 ! c = 0 \<and> d_ky d0 ! r = 0)"
      using vals i z by simp
  qed
  from assms d0 tb obtain d1 where regs: "add_regions d0 tb (mask_regions msk) = Inr d1"
    by (auto simp: diffraction_def split: if_splits sum.splits)
  have each: "\<forall>reg\<in>set (mask_regions msk). \<exists>tr.
              etransmit_of (transmittance reg) (phase reg) = Inr tr \<and>
              tr = complex_of_real (sqrt (transmittance reg))
                   * exp (\<i> * complex_of_real (phase reg) * complex_of_real pi / 180) \<and>
              (axis (geometry reg) \<noteq> DIM_2D \<longrightarrow>
                 (\<forall>i<d_rows d0 * d_cols d0.
                    region_term d0 tb reg ! i =
                      (if i < length (if axis (geometry reg) = DIM_1D_X then d_kx d0 else d_ky d0)
                       then (tr - tb)
                            / complex_of_real (Point2d_index (d_pitch d0)
                                                 (dimension_value (axis (geometry reg))))
                            * spec_order_1d
                                ((if axis (geometry reg) = DIM_1D_X then d_kx d0 else d_ky d0) ! i)
                                ((if axis (geometry reg) = DIM_1D_X then d_frqx d0 else d_frqy d0) ! i)
                                (Point2d_index (dst (hd (edges (geometry reg))))
                                   (dimension_value (axis (geometry reg))))
                                (Point2d_index (org (hd (edges (geometry reg))))
                                   (dimension_value (axis (geometry reg))))
                       else 0))) \<and>
              (axis (geometry reg) = DIM_2D \<longrightarrow>
                 (\<forall>c<d_cols d0. \<forall>r<d_rows d0.
                    d_kx d0 ! c = 0 \<and> d_ky d0 ! r = 0 \<longrightarrow>
                    region_term d0 tb reg ! (c * d_rows d0 + r) =
                      (if non_zeros (d_source_shape d0) \<noteq> [] \<and> 0 \<le> d_numeric_aperture d0
                       then (tr - tb) / complex_of_real (p_x (d_pitch d0))
                                      / complex_of_real (p_y (d_pitch d0))
                            * complex_of_real (spec_zero_order_2d (edges (geometry reg)))
                       else 0)))"
  proof
    fix reg assume "reg \<in> set (mask_regions msk)"
    from add_regions_each [OF regs this] obtain tr dz where
      tr: "etransmit_of (transmittance reg) (phase reg) = Inr tr" and
      ok: "add_region (d0\<lparr>d_values := replicate (length (d_values d0)) 0\<rparr>) reg (tr - tb) = Inr dz"
      by blast
    have one: "axis (geometry reg) \<noteq> DIM_2D \<longrightarrow>
                 (\<forall>i<d_rows d0 * d_cols d0.
                    region_term d0 tb reg ! i =
                      (if i < length (if axis (geometry reg) = DIM_1D_X then d_kx d0 else d_ky d0)
                       then (tr - tb)
                            / complex_of_real (Point2d_index (d_pitch d0)
                                                 (dimension_value (axis (geometry reg))))
                            * spec_order_1d
                                ((if axis (geometry reg) = DIM_1D_X then d_kx d0 else d_ky d0) ! i)
                                ((if axis (geometry reg) = DIM_1D_X then d_frqx d0 else d_frqy d0) ! i)
                                (Point2d_index (dst (hd (edges (geometry reg))))
                                   (dimension_value (axis (geometry reg))))
                                (Point2d_index (org (hd (edges (geometry reg))))
                                   (dimension_value (axis (geometry reg))))
                       else 0))"
    proof (intro impI allI)
      fix i assume ax: "axis (geometry reg) \<noteq> DIM_2D" and "i < d_rows d0 * d_cols d0"
      then have i: "i < length (d_values d0)" using grid(1) by simp
      show "region_term d0 tb reg ! i =
                      (if i < length (if axis (geometry reg) = DIM_1D_X then d_kx d0 else d_ky d0)
                       then (tr - tb)
                            / complex_of_real (Point2d_index (d_pitch d0)
                                                 (dimension_value (axis (geometry reg))))
                            * spec_order_1d
                                ((if axis (geometry reg) = DIM_1D_X then d_kx d0 else d_ky d0) ! i)
                                ((if axis (geometry reg) = DIM_1D_X then d_frqx d0 else d_frqy d0) ! i)
                                (Point2d_index (dst (hd (edges (geometry reg))))
                                   (dimension_value (axis (geometry reg))))
                                (Point2d_index (org (hd (edges (geometry reg))))
                                   (dimension_value (axis (geometry reg))))
                       else 0)"
        by (rule region_term_1d [OF tr ok ax i])
    qed
    have two: "axis (geometry reg) = DIM_2D \<longrightarrow>
                 (\<forall>c<d_cols d0. \<forall>r<d_rows d0.
                    d_kx d0 ! c = 0 \<and> d_ky d0 ! r = 0 \<longrightarrow>
                    region_term d0 tb reg ! (c * d_rows d0 + r) =
                      (if non_zeros (d_source_shape d0) \<noteq> [] \<and> 0 \<le> d_numeric_aperture d0
                       then (tr - tb) / complex_of_real (p_x (d_pitch d0))
                                      / complex_of_real (p_y (d_pitch d0))
                            * complex_of_real (spec_zero_order_2d (edges (geometry reg)))
                       else 0))"
    proof (intro impI allI)
      fix c r
      assume ax: "axis (geometry reg) = DIM_2D" and c: "c < d_cols d0" and r: "r < d_rows d0"
        and z: "d_kx d0 ! c = 0 \<and> d_ky d0 ! r = 0"
      have cz: "d_cxy d0 ! (c * d_rows d0 + r) = 0"
        using grid(5) c r z by blast
      show "region_term d0 tb reg ! (c * d_rows d0 + r) =
                      (if non_zeros (d_source_shape d0) \<noteq> [] \<and> 0 \<le> d_numeric_aperture d0
                       then (tr - tb) / complex_of_real (p_x (d_pitch d0))
                                      / complex_of_real (p_y (d_pitch d0))
                            * complex_of_real (spec_zero_order_2d (edges (geometry reg)))
                       else 0)"
        using region_term_2d_zero_order [OF tr ok ax grid(4) grid(3) grid(1) c r _ _ cz] z
        by simp
    qed
    from tr etransmit_of_value [OF tr] one two
    show "\<exists>tr.
              etransmit_of (transmittance reg) (phase reg) = Inr tr \<and>
              tr = complex_of_real (sqrt (transmittance reg))
                   * exp (\<i> * complex_of_real (phase reg) * complex_of_real pi / 180) \<and>
              (axis (geometry reg) \<noteq> DIM_2D \<longrightarrow>
                 (\<forall>i<d_rows d0 * d_cols d0.
                    region_term d0 tb reg ! i =
                      (if i < length (if axis (geometry reg) = DIM_1D_X then d_kx d0 else d_ky d0)
                       then (tr - tb)
                            / complex_of_real (Point2d_index (d_pitch d0)
                                                 (dimension_value (axis (geometry reg))))
                            * spec_order_1d
                                ((if axis (geometry reg) = DIM_1D_X then d_kx d0 else d_ky d0) ! i)
                                ((if axis (geometry reg) = DIM_1D_X then d_frqx d0 else d_frqy d0) ! i)
                                (Point2d_index (dst (hd (edges (geometry reg))))
                                   (dimension_value (axis (geometry reg))))
                                (Point2d_index (org (hd (edges (geometry reg))))
                                   (dimension_value (axis (geometry reg))))
                       else 0))) \<and>
              (axis (geometry reg) = DIM_2D \<longrightarrow>
                 (\<forall>c<d_cols d0. \<forall>r<d_rows d0.
                    d_kx d0 ! c = 0 \<and> d_ky d0 ! r = 0 \<longrightarrow>
                    region_term d0 tb reg ! (c * d_rows d0 + r) =
                      (if non_zeros (d_source_shape d0) \<noteq> [] \<and> 0 \<le> d_numeric_aperture d0
                       then (tr - tb) / complex_of_real (p_x (d_pitch d0))
                                      / complex_of_real (p_y (d_pitch d0))
                            * complex_of_real (spec_zero_order_2d (edges (geometry reg)))
                       else 0)))"
      by (intro exI [of _ tr] conjI)
  qed
  show ?thesis
    by (intro exI [of _ d0] exI [of _ tb] conjI) (rule d0 tb tbv len' bins each)+
qed

theorem diffraction_closed_forms_witness:
  "d_values (projr (diffraction (line_tool coherent_source) line_mask)) ! 1
     = complex_of_real (1 - 250 / 800) \<and>
   d_values (projr (diffraction (line_tool coherent_source) square_mask)) ! 4
     = complex_of_real (1 - 200 * 200 / (800 * 800))"
proof -
  obtain dl where runl: "diffraction (line_tool coherent_source) line_mask = Inr dl"
    using line_diffraction [OF coherent_source_limits] by blast
  from diffraction_closed_forms [OF runl] obtain d0 tb where
    d0: "Diffraction_new line_mask (line_tool coherent_source) = Inr d0" and
    tb: "etransmit_of (box_transmittance (mask_boundary line_mask))
           (box_phase (mask_boundary line_mask)) = Inr tb" and
    bins: "\<forall>c<d_cols d0. \<forall>r<d_rows d0.
      d_values dl ! (c * d_rows d0 + r) =
        (\<Sum>reg\<leftarrow>mask_regions line_mask. region_term d0 tb reg ! (c * d_rows d0 + r))
        + (if box_transmittance (mask_boundary line_mask) \<noteq> 0
              \<and> d_kx d0 ! c = 0 \<and> d_ky d0 ! r = 0
           then tb else 0) \<and>
      (d_cxy d0 ! (c * d_rows d0 + r) = 0 \<longleftrightarrow> d_kx d0 ! c = 0 \<and> d_ky d0 ! r = 0)" and
    each: "\<forall>reg\<in>set (mask_regions line_mask). \<exists>tr.
              etransmit_of (transmittance reg) (phase reg) = Inr tr \<and>
              tr = complex_of_real (sqrt (transmittance reg))
                   * exp (\<i> * complex_of_real (phase reg) * complex_of_real pi / 180) \<and>
              (axis (geometry reg) \<noteq> DIM_2D \<longrightarrow>
                 (\<forall>i<d_rows d0 * d_cols d0.
                    region_term d0 tb reg ! i =
                      (if i < length (if axis (geometry reg) = DIM_1D_X then d_kx d0 else d_ky d0)
                       then (tr - tb)
                            / complex_of_real (Point2d_index (d_pitch d0)
                                                 (dimension_value (axis (geometry reg))))
                            * spec_order_1d
                                ((if axis (geometry reg) = DIM_1D_X then d_kx d0 else d_ky d0) ! i)
                                ((if axis (geometry reg) = DIM_1D_X then d_frqx d0 else d_frqy d0) ! i)
                                (Point2d_index (dst (hd (edges (geometry reg))))
                                   (dimension_value (axis (geometry reg))))
                                (Point2d_index (org (hd (edges (geometry reg))))
                                   (dimension_value (axis (geometry reg))))
                       else 0))) \<and>
              (axis (geometry reg) = DIM_2D \<longrightarrow>
                 (\<forall>c<d_cols d0. \<forall>r<d_rows d0.
                    d_kx d0 ! c = 0 \<and> d_ky d0 ! r = 0 \<longrightarrow>
                    region_term d0 tb reg ! (c * d_rows d0 + r) =
                      (if non_zeros (d_source_shape d0) \<noteq> [] \<and> 0 \<le> d_numeric_aperture d0
                       then (tr - tb) / complex_of_real (p_x (d_pitch d0))
                                      / complex_of_real (p_y (d_pitch d0))
                            * complex_of_real (spec_zero_order_2d (edges (geometry reg)))
                       else 0)))"
    by blast
  have d0': "d0 = line_grid coherent_source"
    using d0 line_grid_new [OF coherent_source_limits] by simp
  have tb': "tb = 1"
    using tb line_etransmit(1) by (simp add: line_mask_def)
  define lreg where "lreg = \<lparr>geometry = \<lparr>edges = [\<lparr>org = \<lparr>p_x = - 125, p_y = 0\<rparr>,
                                                    dst = \<lparr>p_x = 125, p_y = 0\<rparr>\<rparr>],
                                         axis = DIM_1D_X\<rparr>,
                             transmittance = 0, phase = 0 :: real\<rparr>"
  have lregs: "mask_regions line_mask = [lreg]" by (simp add: line_mask_def lreg_def)
  have "lreg \<in> set (mask_regions line_mask)" by (simp add: lregs)
  from bspec [OF each this] obtain tr where
    tr: "tr = complex_of_real (sqrt (transmittance lreg))
                   * exp (\<i> * complex_of_real (phase lreg) * complex_of_real pi / 180)" and
    one: "axis (geometry lreg) \<noteq> DIM_2D \<longrightarrow>
                 (\<forall>i<d_rows d0 * d_cols d0.
                    region_term d0 tb lreg ! i =
                      (if i < length (if axis (geometry lreg) = DIM_1D_X then d_kx d0 else d_ky d0)
                       then (tr - tb)
                            / complex_of_real (Point2d_index (d_pitch d0)
                                                 (dimension_value (axis (geometry lreg))))
                            * spec_order_1d
                                ((if axis (geometry lreg) = DIM_1D_X then d_kx d0 else d_ky d0) ! i)
                                ((if axis (geometry lreg) = DIM_1D_X then d_frqx d0 else d_frqy d0) ! i)
                                (Point2d_index (dst (hd (edges (geometry lreg))))
                                   (dimension_value (axis (geometry lreg))))
                                (Point2d_index (org (hd (edges (geometry lreg))))
                                   (dimension_value (axis (geometry lreg))))
                       else 0))"
    by (elim exE conjE)
  have tr0: "tr = 0" using tr by (simp add: lreg_def)
  have lterm: "region_term (line_grid coherent_source) 1 lreg ! 1 = complex_of_real (- 250 / 800)"
    using one [unfolded d0' tb' tr0, rule_format, of 1]
    by (simp add: lreg_def line_grid_def Point2d_index_def spec_order_1d_def)
  have lbin: "d_values dl ! 1 = region_term (line_grid coherent_source) 1 lreg ! 1 + 1"
    using bins [unfolded d0' tb' lregs, rule_format, of 1 0]
    by (simp add: line_grid_def line_mask_def)
  have line: "d_values dl ! 1 = complex_of_real (1 - 250 / 800)"
    unfolding lbin lterm by simp
  obtain ds where runs: "diffraction (line_tool coherent_source) square_mask = Inr ds"
    using square_diffraction_defined by blast
  from diffraction_closed_forms [OF runs] obtain e0 sb where
    e0: "Diffraction_new square_mask (line_tool coherent_source) = Inr e0" and
    sb: "etransmit_of (box_transmittance (mask_boundary square_mask))
           (box_phase (mask_boundary square_mask)) = Inr sb" and
    sbins: "\<forall>c<d_cols e0. \<forall>r<d_rows e0.
      d_values ds ! (c * d_rows e0 + r) =
        (\<Sum>reg\<leftarrow>mask_regions square_mask. region_term e0 sb reg ! (c * d_rows e0 + r))
        + (if box_transmittance (mask_boundary square_mask) \<noteq> 0
              \<and> d_kx e0 ! c = 0 \<and> d_ky e0 ! r = 0
           then sb else 0) \<and>
      (d_cxy e0 ! (c * d_rows e0 + r) = 0 \<longleftrightarrow> d_kx e0 ! c = 0 \<and> d_ky e0 ! r = 0)" and
    seach: "\<forall>reg\<in>set (mask_regions square_mask). \<exists>tr.
              etransmit_of (transmittance reg) (phase reg) = Inr tr \<and>
              tr = complex_of_real (sqrt (transmittance reg))
                   * exp (\<i> * complex_of_real (phase reg) * complex_of_real pi / 180) \<and>
              (axis (geometry reg) \<noteq> DIM_2D \<longrightarrow>
                 (\<forall>i<d_rows e0 * d_cols e0.
                    region_term e0 sb reg ! i =
                      (if i < length (if axis (geometry reg) = DIM_1D_X then d_kx e0 else d_ky e0)
                       then (tr - sb)
                            / complex_of_real (Point2d_index (d_pitch e0)
                                                 (dimension_value (axis (geometry reg))))
                            * spec_order_1d
                                ((if axis (geometry reg) = DIM_1D_X then d_kx e0 else d_ky e0) ! i)
                                ((if axis (geometry reg) = DIM_1D_X then d_frqx e0 else d_frqy e0) ! i)
                                (Point2d_index (dst (hd (edges (geometry reg))))
                                   (dimension_value (axis (geometry reg))))
                                (Point2d_index (org (hd (edges (geometry reg))))
                                   (dimension_value (axis (geometry reg))))
                       else 0))) \<and>
              (axis (geometry reg) = DIM_2D \<longrightarrow>
                 (\<forall>c<d_cols e0. \<forall>r<d_rows e0.
                    d_kx e0 ! c = 0 \<and> d_ky e0 ! r = 0 \<longrightarrow>
                    region_term e0 sb reg ! (c * d_rows e0 + r) =
                      (if non_zeros (d_source_shape e0) \<noteq> [] \<and> 0 \<le> d_numeric_aperture e0
                       then (tr - sb) / complex_of_real (p_x (d_pitch e0))
                                      / complex_of_real (p_y (d_pitch e0))
                            * complex_of_real (spec_zero_order_2d (edges (geometry reg)))
                       else 0)))"
    by blast
  have e0': "e0 = square_grid coherent_source"
    using e0 square_grid_new [OF coherent_source_limits] by simp
  have sb': "sb = 1"
    using sb line_etransmit(1) by (simp add: square_mask_def)
  define sreg where "sreg = hd (mask_regions square_mask)"
  have sregs: "mask_regions square_mask = [sreg]" by (simp add: square_mask_def sreg_def)
  have sfacts: "transmittance sreg = 0" "phase sreg = 0" "axis (geometry sreg) = DIM_2D"
    "spec_zero_order_2d (edges (geometry sreg)) = 200 * 200"
    by (simp_all add: sreg_def square_mask_def spec_zero_order_2d_def)
  have "sreg \<in> set (mask_regions square_mask)" by (simp add: sregs)
  from bspec [OF seach this] obtain sr where
    sr: "sr = complex_of_real (sqrt (transmittance sreg))
                   * exp (\<i> * complex_of_real (phase sreg) * complex_of_real pi / 180)" and
    two: "axis (geometry sreg) = DIM_2D \<longrightarrow>
                 (\<forall>c<d_cols e0. \<forall>r<d_rows e0.
                    d_kx e0 ! c = 0 \<and> d_ky e0 ! r = 0 \<longrightarrow>
                    region_term e0 sb sreg ! (c * d_rows e0 + r) =
                      (if non_zeros (d_source_shape e0) \<noteq> [] \<and> 0 \<le> d_numeric_aperture e0
                       then (sr - sb) / complex_of_real (p_x (d_pitch e0))
                                      / complex_of_real (p_y (d_pitch e0))
                            * complex_of_real (spec_zero_order_2d (edges (geometry sreg)))
                       else 0))"
    by (elim exE conjE)
  have sr0: "sr = 0" using sr by (simp add: sfacts)
  have sterm: "region_term (square_grid coherent_source) 1 sreg ! 4
                 = complex_of_real (- (200 * 200) / (800 * 800))"
    using two [unfolded e0' sb' sr0, rule_format, of 1 1]
    by (simp add: sfacts square_grid_def coherent_source_def)
  have sbin: "d_values ds ! 4 = region_term (square_grid coherent_source) 1 sreg ! 4 + 1"
    using sbins [unfolded e0' sb' sregs, rule_format, of 1 1]
    by (simp add: square_grid_def square_mask_def)
  have square: "d_values ds ! 4 = complex_of_real (1 - 200 * 200 / (800 * 800))"
    unfolding sbin sterm by simp
  from line square show ?thesis
    by (simp add: runl runs)
qed

end
